(* ===== verification/Prelude.thy ===== *)
theory Prelude
  imports Main "HOL-Library.Word" "HOL-Library.AList" "HOL-Library.Multiset"
begin

text \<open>
  Shared vocabulary of the development: machine integers at the widths the Rust code uses,
  the saturating and checked operations of its standard library, points in time,
  format-string messages, the result type of fallible code, and the list functions
  (\<open>max_by_key\<close>, the median index facts) that several components use.

  Conventions. An unsigned \<open>w\<close>-bit integer is a \<open>w word\<close>; \<open>+\<close>, \<open>-\<close> and \<open>*\<close> wrap, as they
  do in the release profile of the crates (\<open>Cargo.toml\<close> sets no \<open>overflow-checks\<close>), as the
  atomic \<open>fetch_add\<close> and \<open>fetch_sub\<close> do in every profile, and as the operators of the 256-bit
  type \<open>U256\<close> do.  A signed \<open>w\<close>-bit integer is an \<open>int\<close> with its wrap-around or saturation
  written out (\<open>wrap_signed\<close>, \<open>sat_signed\<close>).  A \<open>usize\<close> that is only a length or a limit on
  a length is a \<open>nat\<close>.
\<close>

section \<open>Types\<close>

type_synonym u8 = "8 word"
type_synonym u16 = "16 word"
type_synonym u32 = "32 word"
type_synonym u64 = "64 word"
type_synonym u128 = "128 word"
type_synonym u256 = "256 word"
type_synonym address = "160 word"
type_synonym b256 = "256 word"
type_synonym bytes = "8 word list"
type_synonym i64 = int
type_synonym i128 = int

text \<open>The zero address, \<open>Address::ZERO\<close>.\<close>

abbreviation address_zero :: address where
  "address_zero \<equiv> 0"

text \<open>
  A \<open>DateTime<Utc>\<close> is its number of nanoseconds since the Unix epoch.  \<open>num_seconds\<close> of a
  difference truncates towards zero, and \<open>unsigned_abs\<close> of the result is a \<open>u64\<close>.
\<close>

type_synonym datetime = int

definition nanos_per_sec :: int where
  "nanos_per_sec = 1000000000"

definition num_seconds :: "int \<Rightarrow> i64" where
  "num_seconds d = (if 0 \<le> d then d div nanos_per_sec else - ((- d) div nanos_per_sec))"

definition unsigned_abs :: "i64 \<Rightarrow> u64" where
  "unsigned_abs s = word_of_int \<bar>s\<bar>"

text \<open>
  Text built by \<open>format!\<close> is kept as the format string with its arguments; \<open>Error_Text\<close> renders it.
\<close>

datatype fmt_arg = Num int | Str string | Addr address | Hash b256

datatype message = Fmt string "fmt_arg list"

abbreviation lit :: "string \<Rightarrow> message" where
  "lit s \<equiv> Fmt s []"

section \<open>Fact collections\<close>

named_theorems unat_simps "readings of machine arithmetic as naturals"
named_theorems wf_intros "operations keep well-formed states well-formed"

section \<open>Saturating and checked arithmetic\<close>

definition sat_add :: "'a::len word \<Rightarrow> 'a word \<Rightarrow> 'a word" where
  "sat_add a b = (if unat a + unat b < 2 ^ LENGTH('a) then a + b else - 1)"

definition sat_sub :: "'a::len word \<Rightarrow> 'a word \<Rightarrow> 'a word" where
  "sat_sub a b = (if b \<le> a then a - b else 0)"

definition sat_mul :: "'a::len word \<Rightarrow> 'a word \<Rightarrow> 'a word" where
  "sat_mul a b = (if unat a * unat b < 2 ^ LENGTH('a) then a * b else - 1)"

definition checked_add :: "'a::len word \<Rightarrow> 'a word \<Rightarrow> 'a word option" where
  "checked_add a b = (if unat a + unat b < 2 ^ LENGTH('a) then Some (a + b) else None)"

definition checked_mul :: "'a::len word \<Rightarrow> 'a word \<Rightarrow> 'a word option" where
  "checked_mul a b = (if unat a * unat b < 2 ^ LENGTH('a) then Some (a * b) else None)"

definition wrap_signed :: "nat \<Rightarrow> int \<Rightarrow> int" where
  "wrap_signed w x = (x + 2 ^ (w - 1)) mod 2 ^ w - 2 ^ (w - 1)"

definition sat_signed :: "nat \<Rightarrow> int \<Rightarrow> int" where
  "sat_signed w x = max (- (2 ^ (w - 1))) (min (2 ^ (w - 1) - 1) x)"

definition in_signed :: "nat \<Rightarrow> int \<Rightarrow> bool" where
  "in_signed w x \<longleftrightarrow> - (2 ^ (w - 1)) \<le> x \<and> x < 2 ^ (w - 1)"

lemma unat_max_word: "unat (- 1 :: 'a::len word) = 2 ^ LENGTH('a) - 1"
  by (simp add: unsigned_minus_1_eq_mask mask_eq_exp_minus_1)

lemma unat_lt2p: "unat a < 2 ^ LENGTH('a)" for a :: "'a::len word"
  by (rule unsigned_less)

lemma unat_le_max: "unat a \<le> 2 ^ LENGTH('a) - 1" for a :: "'a::len word"
  using unat_lt2p [of a] by linarith

lemma unat_add_lt: "unat (a + b) = unat a + unat b"
  if "unat a + unat b < 2 ^ LENGTH('a)" for a b :: "'a::len word"
  using that by (simp add: unat_word_ariths)

lemma unat_mult_lt: "unat (a * b) = unat a * unat b"
  if "unat a * unat b < 2 ^ LENGTH('a)" for a b :: "'a::len word"
  using that by (simp add: unat_word_ariths)

lemma unat_sub_le: "unat (a - b) = unat a - unat b"
  if "b \<le> a" for a b :: "'a::len word"
  using that by (simp add: unat_sub)

lemma unat_sat_sub [unat_simps]: "unat (sat_sub a b) = unat a - unat b"
  by (auto simp: sat_sub_def unat_sub_le word_le_nat_alt)

lemma unat_sat_add [unat_simps]:
  "unat (sat_add a b) = min (unat a + unat b) (2 ^ LENGTH('a) - 1)" for a b :: "'a::len word"
  by (auto simp: sat_add_def unat_add_lt unat_max_word)

lemma unat_sat_mul [unat_simps]:
  "unat (sat_mul a b) = min (unat a * unat b) (2 ^ LENGTH('a) - 1)" for a b :: "'a::len word"
  by (auto simp: sat_mul_def unat_mult_lt unat_max_word)

lemma unat_div_word [unat_simps]: "unat (a div b) = unat a div unat b" for a b :: "'a::len word"
  by (rule unat_div_distrib)

lemma unat_ucast: "unat (ucast x :: 'b::len word) = unat x mod 2 ^ LENGTH('b)" for x :: "'a::len word"
  by (simp add: unsigned_ucast_eq take_bit_eq_mod)

lemma unat_ucast_up [unat_simps]:
  "LENGTH('a) \<le> LENGTH('b) \<Longrightarrow> unat (ucast x :: 'b::len word) = unat x" for x :: "'a::len word"
proof -
  assume "LENGTH('a) \<le> LENGTH('b)"
  then have "(2::nat) ^ LENGTH('a) \<le> 2 ^ LENGTH('b)" by simp
  with unat_lt2p [of x] have "unat x < 2 ^ LENGTH('b)" by (rule less_le_trans)
  then show ?thesis by (simp add: unat_ucast)
qed

lemma sat_sub_le: "sat_sub a b \<le> a"
  by (simp add: word_le_nat_alt unat_simps)

lemma sat_add_ge: "a \<le> sat_add a b"
  using unat_le_max [of a] by (simp add: word_le_nat_alt unat_simps)

lemma sat_add_0 [simp]: "sat_add a 0 = a" "sat_add 0 a = a"
  using unat_lt2p [of a] by (simp_all add: sat_add_def)

lemma sat_sub_0 [simp]: "sat_sub a 0 = a"
  by (simp add: sat_sub_def)

lemma checked_add_Some: "checked_add a b = Some c \<longleftrightarrow>
    unat c = unat a + unat b \<and> unat a + unat b < 2 ^ LENGTH('a)" for a b :: "'a::len word"
  by (auto simp: checked_add_def unat_add_lt word_unat_eq_iff)

lemma checked_mul_Some: "checked_mul a b = Some c \<longleftrightarrow>
    unat c = unat a * unat b \<and> unat a * unat b < 2 ^ LENGTH('a)" for a b :: "'a::len word"
  by (auto simp: checked_mul_def unat_mult_lt word_unat_eq_iff)

lemma wrap_signed_id: "in_signed w x \<Longrightarrow> 0 < w \<Longrightarrow> wrap_signed w x = x"
proof -
  assume "in_signed w x" "0 < w"
  moreover from \<open>0 < w\<close> have "(2::int) ^ w = 2 * 2 ^ (w - 1)"
    by (cases w) simp_all
  ultimately show ?thesis
    by (simp add: wrap_signed_def in_signed_def)
qed

lemma sat_signed_in: "0 < w \<Longrightarrow> in_signed w (sat_signed w x)"
  by (auto simp: sat_signed_def in_signed_def)

lemma sat_signed_id: "in_signed w x \<Longrightarrow> sat_signed w x = x"
  by (auto simp: sat_signed_def in_signed_def)

lemma in_signed_0 [simp]: "in_signed w 0"
  by (simp add: in_signed_def)

lemma wrap_signed_cong: "0 < w \<Longrightarrow> wrap_signed w (wrap_signed w x + y) = wrap_signed w (x + y)"
proof -
  have "(wrap_signed w x + y + 2 ^ (w - 1)) mod 2 ^ w
      = ((x + 2 ^ (w - 1)) mod 2 ^ w + y) mod 2 ^ w"
    by (simp add: wrap_signed_def algebra_simps)
  also have "\<dots> = (x + y + 2 ^ (w - 1)) mod 2 ^ w"
    by (simp add: mod_simps algebra_simps)
  finally show ?thesis
    by (simp add: wrap_signed_def)
qed

lemma wrap_signed_in: "0 < w \<Longrightarrow> in_signed w (wrap_signed w x)"
proof -
  assume "0 < w"
  then have "(2::int) ^ w = 2 * 2 ^ (w - 1)" by (cases w) simp_all
  moreover have "0 \<le> (x + 2 ^ (w - 1)) mod 2 ^ w" "(x + 2 ^ (w - 1)) mod 2 ^ w < 2 ^ w"
    by simp_all
  ultimately show ?thesis by (simp add: wrap_signed_def in_signed_def)
qed

section \<open>Time\<close>

lemma num_seconds_mono: "0 \<le> d \<Longrightarrow> d \<le> e \<Longrightarrow> num_seconds d \<le> num_seconds e"
  by (simp add: num_seconds_def nanos_per_sec_def zdiv_mono1)

lemma num_seconds_nonneg: "0 \<le> d \<Longrightarrow> 0 \<le> num_seconds d"
  by (simp add: num_seconds_def nanos_per_sec_def)

lemma unat_unsigned_abs: "\<bar>s\<bar> < 2 ^ 64 \<Longrightarrow> unat (unsigned_abs s) = nat \<bar>s\<bar>"
  by (simp add: unsigned_abs_def unat_eq_nat_uint take_bit_int_eq_self uint_word_of_int_eq)

section \<open>Lists\<close>

text \<open>\<open>Iterator::max_by_key\<close> returns the last of the elements with the greatest key.\<close>

fun max_by_key :: "('a \<Rightarrow> 'k::linorder) \<Rightarrow> 'a list \<Rightarrow> 'a option" where
  "max_by_key k [] = None"
| "max_by_key k (x # xs) = Some (foldl (\<lambda>m y. if k m \<le> k y then y else m) x xs)"

lemma foldl_max_by_key:
  "let r = foldl (\<lambda>m y. if k m \<le> k y then y else m) x xs
   in r \<in> set (x # xs) \<and> (\<forall>y \<in> set (x # xs). k y \<le> (k r :: 'k::linorder))"
proof (induction xs arbitrary: x)
  case Nil
  then show ?case by simp
next
  case (Cons y ys)
  let ?z = "if k x \<le> k y then y else x"
  from Cons [of ?z] show ?case
    by (auto simp: Let_def split: if_splits)
qed

lemma max_by_key_None [simp]: "max_by_key k xs = None \<longleftrightarrow> xs = []"
  by (cases xs) simp_all

lemma max_by_key_in: "max_by_key k xs = Some x \<Longrightarrow> x \<in> set xs"
  using foldl_max_by_key by (cases xs) (fastforce simp: Let_def)+

lemma max_by_key_ge: "max_by_key k xs = Some x \<Longrightarrow> y \<in> set xs \<Longrightarrow> k y \<le> k x"
  using foldl_max_by_key by (cases xs) (fastforce simp: Let_def)+

text \<open>A sum over a list follows an update by index; \<open>w\<close> may count, add or collect in a multiset.\<close>

lemma sum_list_map_update:
  fixes w :: "'a \<Rightarrow> 'b::cancel_comm_monoid_add"
  assumes "i < length xs"
  shows "(\<Sum>x\<leftarrow>xs[i := y]. w x) + w (xs ! i) = (\<Sum>x\<leftarrow>xs. w x) + w y"
proof -
  let ?a = "take i xs" and ?b = "drop (Suc i) xs"
  have "xs = ?a @ xs ! i # ?b" using assms by (rule id_take_nth_drop)
  moreover have "xs[i := y] = ?a @ y # ?b" using assms by (rule upd_conv_take_nth_drop)
  ultimately have "(\<Sum>x\<leftarrow>xs. w x) = (\<Sum>x\<leftarrow>?a @ xs ! i # ?b. w x)"
    "(\<Sum>x\<leftarrow>xs[i := y]. w x) = (\<Sum>x\<leftarrow>?a @ y # ?b. w x)"
    by simp_all
  then show ?thesis by (simp add: ac_simps)
qed

lemma sum_list_map_update_same:
  fixes w :: "'a \<Rightarrow> 'b::cancel_comm_monoid_add"
  shows "i < length xs \<Longrightarrow> w y = w (xs ! i) \<Longrightarrow> (\<Sum>x\<leftarrow>xs[i := y]. w x) = (\<Sum>x\<leftarrow>xs. w x)"
  using sum_list_map_update [where i = i and xs = xs and y = y and w = w] by simp

lemma sum_list_map_update_new:
  fixes w :: "'a \<Rightarrow> 'b::cancel_comm_monoid_add"
  shows "i < length xs \<Longrightarrow> w (xs ! i) = 0 \<Longrightarrow> (\<Sum>x\<leftarrow>xs[i := y]. w x) = (\<Sum>x\<leftarrow>xs. w x) + w y"
  using sum_list_map_update [where i = i and xs = xs and y = y and w = w] by simp

lemma foldl_count: "foldl (\<lambda>n x. if P x then n + 1 else n) (a::nat) xs = a + length (filter P xs)"
  by (induction xs arbitrary: a) simp_all

lemma length_filter_split:
  "length (filter P xs) + length (filter (\<lambda>x. \<not> P x) xs) = length xs"
  by (induction xs) auto

section \<open>Text\<close>

text \<open>\<open>str::to_lowercase\<close> on ASCII letters; other bytes are left alone.\<close>

definition to_lower :: "char \<Rightarrow> char" where
  "to_lower c = (let n = of_char c :: nat in if 65 \<le> n \<and> n \<le> 90 then char_of (n + 32) else c)"

definition to_lowercase :: "string \<Rightarrow> string" where
  "to_lowercase s = map to_lower s"

lemma to_lower_idem [simp]: "to_lower (to_lower c) = to_lower c"
  by (simp add: to_lower_def Let_def)

lemma to_lowercase_idem [simp]: "to_lowercase (to_lowercase s) = to_lowercase s"
  by (simp add: to_lowercase_def comp_def)

text \<open>\<open>to_string\<close> of an unsigned integer.\<close>

definition digit_char :: "nat \<Rightarrow> char" where
  "digit_char d = char_of (48 + d)"

fun decimal :: "nat \<Rightarrow> string" where
  "decimal n = (if n < 10 then [digit_char n] else decimal (n div 10) @ [digit_char (n mod 10)])"

declare decimal.simps [simp del]

definition is_digit :: "char \<Rightarrow> bool" where
  "is_digit c \<longleftrightarrow> 48 \<le> (of_char c :: nat) \<and> (of_char c :: nat) \<le> 57"

definition decimal_value :: "string \<Rightarrow> nat" where
  "decimal_value s = foldl (\<lambda>n c. 10 * n + (of_char c - 48)) 0 s"

lemma of_char_digit: "d < 10 \<Longrightarrow> (of_char (digit_char d) :: nat) = 48 + d"
  by (simp add: digit_char_def)

lemma decimal_nonempty [simp]: "decimal n \<noteq> []"
  by (subst decimal.simps) simp

lemma is_digit_char: "d < 10 \<Longrightarrow> is_digit (digit_char d)"
  by (simp add: is_digit_def of_char_digit)

lemma decimal_digits: "list_all is_digit (decimal n)"
proof (induction n rule: decimal.induct)
  case (1 n)
  then show ?case
    by (subst decimal.simps) (simp add: is_digit_char)
qed

lemma decimal_value_decimal [simp]: "decimal_value (decimal n) = n"
proof (induction n rule: decimal.induct)
  case (1 n)
  then show ?case
    by (subst decimal.simps) (simp add: decimal_value_def of_char_digit)
qed

lemma decimal_inj: "decimal m = decimal n \<longleftrightarrow> m = n"
  by (metis decimal_value_decimal)

end
