(* ===== verification/Dash_Map.thy ===== *)
theory Dash_Map
  imports Prelude
begin

text \<open>
  The concurrent hash map every registry of the program is built on (\<open>dashmap::DashMap\<close>).
  The interface is the locale \<open>dash_map\<close>: lookups after an update, no duplicate keys, and an
  iteration that shows every entry once.  The facts the components use, the size laws and the
  collect-then-remove idiom, are proved once inside it.  The representation is a list of
  entries with distinct keys; the position of an entry stands for its place in the iteration
  order, which the map leaves open, so no property of the development depends on it.
\<close>

section \<open>The interface\<close>

locale dash_map =
  fixes get :: "'k \<Rightarrow> 'm \<Rightarrow> 'v option"
    and put :: "'k \<Rightarrow> 'v \<Rightarrow> 'm \<Rightarrow> 'm"
    and remove :: "'k \<Rightarrow> 'm \<Rightarrow> 'm"
    and iter :: "'m \<Rightarrow> ('k \<times> 'v) list"
    and wf :: "'m \<Rightarrow> bool"
  assumes get_put: "get k' (put k v m) = (if k' = k then Some v else get k' m)"
    and get_remove: "get k' (remove k m) = (if k' = k then None else get k' m)"
    and get_iter: "get k m = map_of (iter m) k"
    and distinct_iter: "wf m \<Longrightarrow> distinct (map fst (iter m))"
    and wf_put: "wf m \<Longrightarrow> wf (put k v m)"
    and wf_remove: "wf m \<Longrightarrow> wf (remove k m)"
begin

lemma iter_get: "wf m \<Longrightarrow> (k, v) \<in> set (iter m) \<longleftrightarrow> get k m = Some v"
  by (simp add: get_iter distinct_iter)

lemma length_iter: "wf m \<Longrightarrow> length (iter m) = card {k. get k m \<noteq> None}"
proof -
  assume m: "wf m"
  have "{k. get k m \<noteq> None} = set (map fst (iter m))"
    using map_of_eq_None_iff [of "iter m"] by (auto simp: get_iter)
  then show ?thesis
    using distinct_card [OF distinct_iter [OF m]] by simp
qed

lemma finite_keys: "finite {k. get k m \<noteq> None}"
  using finite_dom_map_of [of "iter m"] by (simp add: get_iter dom_def)

lemma length_put: "wf m \<Longrightarrow>
    length (iter (put k v m)) = (if get k m = None then Suc (length (iter m)) else length (iter m))"
proof -
  assume m: "wf m"
  have "{k'. get k' (put k v m) \<noteq> None} = insert k {k'. get k' m \<noteq> None}"
    by (auto simp: get_put)
  then show ?thesis
    using finite_keys [of m] by (simp add: length_iter [OF m] length_iter [OF wf_put [OF m]] card_insert_if)
qed

lemma length_remove: "wf m \<Longrightarrow>
    length (iter (remove k m)) = (if get k m = None then length (iter m) else length (iter m) - 1)"
proof -
  assume m: "wf m"
  have "{k'. get k' (remove k m) \<noteq> None} = {k'. get k' m \<noteq> None} - {k}"
    by (auto simp: get_remove)
  then show ?thesis
    using finite_keys [of m]
    by (simp add: length_iter [OF m] length_iter [OF wf_remove [OF m]] card_Diff_singleton_if)
qed

lemma length_remove_le: "wf m \<Longrightarrow> length (iter (remove k m)) \<le> length (iter m)"
  by (simp add: length_remove)

text \<open>
  Collect then remove: the keys of the entries that satisfy a predicate are collected first,
  and each is removed afterwards.
\<close>

lemma wf_remove_all: "wf m \<Longrightarrow> wf (fold remove ks m)"
  by (induction ks arbitrary: m) (simp_all add: wf_remove)

lemma get_remove_all: "get k (fold remove ks m) = (if k \<in> set ks then None else get k m)"
  by (induction ks arbitrary: m) (auto simp: get_remove)

lemma get_prune: "wf m \<Longrightarrow>
    get k (fold remove (map fst (filter P (iter m))) m) =
      (case get k m of None \<Rightarrow> None | Some v \<Rightarrow> if P (k, v) then None else Some v)"
  by (cases "get k m") (auto simp: get_remove_all iter_get image_iff)

lemma length_remove_all: "wf m \<Longrightarrow> set ks \<subseteq> {k. get k m \<noteq> None} \<Longrightarrow> distinct ks \<Longrightarrow>
    length (iter (fold remove ks m)) + length ks = length (iter m)"
proof (induction ks arbitrary: m)
  case Nil
  then show ?case by simp
next
  case (Cons k ks)
  have "set ks \<subseteq> {k'. get k' (remove k m) \<noteq> None}"
    using Cons.prems by (auto simp: get_remove)
  then have "length (iter (fold remove ks (remove k m))) + length ks = length (iter (remove k m))"
    using Cons.prems by (intro Cons.IH) (auto simp: wf_remove)
  moreover have "get k m \<noteq> None" using Cons.prems by simp
  moreover from this have "iter m \<noteq> []" by (auto simp: get_iter)
  then have "length (iter m) \<noteq> 0" by simp
  ultimately show ?case
    using length_remove [OF Cons.prems(1), of k] by simp
qed

lemma length_prune: "wf m \<Longrightarrow>
    length (iter (fold remove (map fst (filter P (iter m))) m)) + length (filter P (iter m))
      = length (iter m)"
proof -
  assume m: "wf m"
  let ?ks = "map fst (filter P (iter m))"
  have "set ?ks \<subseteq> {k. get k m \<noteq> None}"
    using iter_get [OF m] by auto
  moreover have "distinct ?ks"
    using distinct_iter [OF m] by (simp add: distinct_map_filter)
  ultimately show ?thesis
    using length_remove_all [OF m, of ?ks] by simp
qed

lemma mset_put:
  assumes m: "wf m" and new: "get k m = None"
  shows "mset (iter (put k v m)) = add_mset (k, v) (mset (iter m))"
proof -
  have d: "distinct (iter x)" if "wf x" for x
    using distinct_iter [OF that] by (simp add: distinct_map)
  have "set (iter (put k v m)) = insert (k, v) (set (iter m))"
    using new by (auto simp: iter_get m wf_put get_put split: if_splits)
  moreover have "(k, v) \<notin> set (iter m)" using new by (simp add: iter_get m)
  ultimately show ?thesis
    using d [OF m] d [OF wf_put [OF m]]
    by (simp flip: mset_set_set)
qed

text \<open>A sum over all values follows an update.\<close>

lemma sum_iter: "wf m \<Longrightarrow>
    (\<Sum>e\<leftarrow>iter m. f (snd e)) = (\<Sum>e \<in> {(k, v). get k m = Some v}. (f (snd e) :: int))"
proof -
  assume m: "wf m"
  then have "distinct (iter m)" using distinct_iter distinct_map by blast
  then have "(\<Sum>e\<leftarrow>iter m. f (snd e)) = sum (\<lambda>e. f (snd e)) (set (iter m))"
    by (rule sum_list_distinct_conv_sum_set)
  moreover have "set (iter m) = {(k, v). get k m = Some v}"
    using iter_get [OF m] by auto
  ultimately show ?thesis by simp
qed

lemma sum_put: "wf m \<Longrightarrow>
    (\<Sum>e\<leftarrow>iter (put k v m). f (snd e)) =
      (\<Sum>e\<leftarrow>iter m. f (snd e)) + (f v :: int) - (case get k m of None \<Rightarrow> 0 | Some u \<Rightarrow> f u)"
proof -
  assume m: "wf m"
  let ?A = "{(k', u). get k' m = Some u}" and ?R = "{(k', u). get k' m = Some u \<and> k' \<noteq> k}"
  have "?A = set (iter m)" using iter_get [OF m] by auto
  then have fin: "finite ?A" by simp
  moreover have "?R \<subseteq> ?A" by auto
  ultimately have finR: "finite ?R" by (rule rev_finite_subset)
  have "{(k', u). get k' (put k v m) = Some u} = insert (k, v) ?R"
    by (auto simp: get_put split: if_splits)
  moreover have "(k, v) \<notin> ?R" by simp
  ultimately have new: "(\<Sum>e\<leftarrow>iter (put k v m). f (snd e)) = f v + (\<Sum>e\<in>?R. f (snd e))"
    using finR by (simp add: sum_iter [OF wf_put [OF m]])
  show ?thesis
  proof (cases "get k m")
    case None
    then have "?A = ?R" by auto
    with new None show ?thesis by (simp add: sum_iter [OF m])
  next
    case (Some u)
    then have "?A = insert (k, u) ?R" by auto
    then have "(\<Sum>e\<leftarrow>iter m. f (snd e)) = f u + (\<Sum>e\<in>?R. f (snd e))"
      using finR by (simp add: sum_iter [OF m])
    with new Some show ?thesis by simp
  qed
qed

end

section \<open>The representation\<close>

type_synonym ('k, 'v) dashmap = "('k \<times> 'v) list"

definition dm_get :: "'k \<Rightarrow> ('k, 'v) dashmap \<Rightarrow> 'v option" where
  "dm_get k m = map_of m k"

definition dm_insert :: "'k \<Rightarrow> 'v \<Rightarrow> ('k, 'v) dashmap \<Rightarrow> ('k, 'v) dashmap" where
  "dm_insert k v m = AList.update k v m"

definition dm_remove :: "'k \<Rightarrow> ('k, 'v) dashmap \<Rightarrow> ('k, 'v) dashmap" where
  "dm_remove k m = AList.delete k m"

definition dm_iter :: "('k, 'v) dashmap \<Rightarrow> ('k \<times> 'v) list" where
  "dm_iter m = m"

definition dm_wf :: "('k, 'v) dashmap \<Rightarrow> bool" where
  "dm_wf m \<longleftrightarrow> distinct (map fst m)"

abbreviation dm_empty :: "('k, 'v) dashmap" where
  "dm_empty \<equiv> []"

abbreviation dm_len :: "('k, 'v) dashmap \<Rightarrow> nat" where
  "dm_len m \<equiv> length (dm_iter m)"

abbreviation dm_contains :: "'k \<Rightarrow> ('k, 'v) dashmap \<Rightarrow> bool" where
  "dm_contains k m \<equiv> dm_get k m \<noteq> None"

abbreviation dm_remove_all :: "'k list \<Rightarrow> ('k, 'v) dashmap \<Rightarrow> ('k, 'v) dashmap" where
  "dm_remove_all ks m \<equiv> fold dm_remove ks m"

text \<open>\<open>iter_mut\<close>: every value is updated in place.\<close>

definition dm_map :: "('v \<Rightarrow> 'v) \<Rightarrow> ('k, 'v) dashmap \<Rightarrow> ('k, 'v) dashmap" where
  "dm_map f m = map (\<lambda>(k, v). (k, f v)) m"

interpretation dm: dash_map dm_get dm_insert dm_remove dm_iter dm_wf
proof unfold_locales
  fix k k' v and m :: "('a, 'b) dashmap"
  show "dm_get k' (dm_insert k v m) = (if k' = k then Some v else dm_get k' m)"
    by (simp add: dm_get_def dm_insert_def update_conv)
  show "dm_get k' (dm_remove k m) = (if k' = k then None else dm_get k' m)"
    by (simp add: dm_get_def dm_remove_def delete_conv)
  show "dm_get k m = map_of (dm_iter m) k"
    by (simp add: dm_get_def dm_iter_def)
  show "dm_wf m \<Longrightarrow> distinct (map fst (dm_iter m))"
    by (simp add: dm_wf_def dm_iter_def)
  show "dm_wf m \<Longrightarrow> dm_wf (dm_insert k v m)"
    by (simp add: dm_wf_def dm_insert_def distinct_update)
  show "dm_wf m \<Longrightarrow> dm_wf (dm_remove k m)"
    by (simp add: dm_wf_def dm_remove_def distinct_delete)
qed

lemmas dm_get_simps [simp] = dm.get_put dm.get_remove

lemma dm_get_empty [simp]: "dm_get k dm_empty = None"
  by (simp add: dm_get_def)

lemma dm_get_Cons: "dm_get k (e # m) = (if fst e = k then Some (snd e) else dm_get k m)"
  by (auto simp: dm_get_def)

lemma dm_iter_empty [simp]: "dm_iter dm_empty = []"
  by (simp add: dm_iter_def)

lemma dm_wf_empty [simp, wf_intros]: "dm_wf dm_empty"
  by (simp add: dm_wf_def)

lemma dm_get_map [simp]: "dm_get k (dm_map f m) = map_option f (dm_get k m)"
  by (induction m) (auto simp: dm_get_def dm_map_def)

lemma dm_wf_map [simp]: "dm_wf (dm_map f m) \<longleftrightarrow> dm_wf m"
  by (simp add: dm_wf_def dm_map_def case_prod_beta comp_def)

lemma dm_iter_map: "dm_iter (dm_map f m) = map (\<lambda>(k, v). (k, f v)) (dm_iter m)"
  by (simp add: dm_iter_def dm_map_def)

lemma dm_len_map [simp]: "dm_len (dm_map f m) = dm_len m"
  by (simp add: dm_iter_map)

declare dm.wf_put [wf_intros] dm.wf_remove [wf_intros] dm.wf_remove_all [wf_intros]

section \<open>Stores with a capacity\<close>

text \<open>
  Several registries refuse a new entry once they hold as many as their configuration allows.
  What such a registry promises is that no sequence of its operations takes it past the limit;
  the provider shows that a single operation grows the store only below the limit.
\<close>

locale capped_store =
  fixes step :: "'s \<Rightarrow> 's \<Rightarrow> bool"
    and size :: "'s \<Rightarrow> nat"
    and cap :: "'s \<Rightarrow> nat"
    and inv :: "'s \<Rightarrow> bool"
  assumes step_cap: "step s s' \<Longrightarrow> cap s' = cap s"
    and step_inv: "step s s' \<Longrightarrow> inv s \<Longrightarrow> inv s'"
    and step_size: "step s s' \<Longrightarrow> inv s \<Longrightarrow> size s' \<le> size s \<or> size s' \<le> cap s"
begin

lemma run_inv: "step\<^sup>*\<^sup>* s s' \<Longrightarrow> inv s \<Longrightarrow> inv s' \<and> cap s' = cap s"
  by (induction rule: rtranclp_induct) (auto simp: step_cap intro: step_inv)

lemma run_bounded: "step\<^sup>*\<^sup>* s s' \<Longrightarrow> inv s \<Longrightarrow> size s' \<le> max (size s) (cap s)"
proof (induction rule: rtranclp_induct)
  case base
  then show ?case by simp
next
  case (step t u)
  then have "inv t" "cap t = cap s" using run_inv by auto
  then show ?case using step_size [OF step.hyps(2)] step by fastforce
qed

lemma run_within_cap: "step\<^sup>*\<^sup>* s s' \<Longrightarrow> inv s \<Longrightarrow> size s \<le> cap s \<Longrightarrow> size s' \<le> cap s'"
  using run_bounded [of s s'] run_inv [of s s'] by auto

end

section \<open>Entries with a life cycle\<close>

text \<open>
  A registry whose entries carry a status promises that an operation moves the status of an
  entry only along the allowed transitions and never drops the entry.  A status with no
  transition out of it is then kept for ever.
\<close>

locale lifecycle =
  fixes step :: "'s \<Rightarrow> 's \<Rightarrow> bool"
    and status :: "'s \<Rightarrow> 'k \<Rightarrow> 'st option"
    and allowed :: "'st \<Rightarrow> 'st \<Rightarrow> bool"
  assumes step_allowed:
    "step s s' \<Longrightarrow> status s k = Some a \<Longrightarrow> \<exists>b. status s' k = Some b \<and> (a = b \<or> allowed a b)"
begin

lemma run_allowed:
  "step\<^sup>*\<^sup>* s s' \<Longrightarrow> status s k = Some a \<Longrightarrow> \<exists>b. status s' k = Some b \<and> allowed\<^sup>*\<^sup>* a b"
proof (induction rule: rtranclp_induct)
  case base
  then show ?case by auto
next
  case (step t u)
  then obtain b where b: "status t k = Some b" "allowed\<^sup>*\<^sup>* a b" by blast
  from step_allowed [OF step.hyps(2) b(1)] obtain c where
    "status u k = Some c" "b = c \<or> allowed b c" by blast
  with b(2) show ?case by (auto intro: rtranclp.rtrancl_into_rtrancl)
qed

lemma run_final:
  "step\<^sup>*\<^sup>* s s' \<Longrightarrow> status s k = Some a \<Longrightarrow> \<forall>b. \<not> allowed a b \<Longrightarrow> status s' k = Some a"
proof -
  assume *: "step\<^sup>*\<^sup>* s s'" "status s k = Some a" "\<forall>b. \<not> allowed a b"
  from run_allowed [OF *(1,2)] obtain b where b: "status s' k = Some b" "allowed\<^sup>*\<^sup>* a b"
    by blast
  from b(2) have "b = a"
    using *(3) by (cases rule: converse_rtranclpE) auto
  with b(1) show ?thesis by simp
qed

end

end
