(* ===== verification/Types.thy ===== *)
theory Types
  imports Dash_Map
begin

text \<open>
  The shared types of \<open>phantom-common\<close>: chains (\<open>types/chain.rs\<close>), tokens
  (\<open>types/token.rs\<close>), Dutch auction orders with their decaying output amount
  (\<open>types/order.rs\<close>) and the error enums of the components (\<open>error.rs\<close>).  Record fields
  carry the initials of their struct, since HOL record fields are constants of one name space.
\<close>

section \<open>Chains and tokens\<close>

datatype chain_id = Ethereum | Arbitrum | Base | Polygon | Optimism

fun ChainId_as_u64 :: "chain_id \<Rightarrow> u64" where
  "ChainId_as_u64 Ethereum = 1"
| "ChainId_as_u64 Arbitrum = 42161"
| "ChainId_as_u64 Base = 8453"
| "ChainId_as_u64 Polygon = 137"
| "ChainId_as_u64 Optimism = 10"

definition ChainId_from_u64 :: "u64 \<Rightarrow> chain_id option" where
  "ChainId_from_u64 i =
     (if i = 1 then Some Ethereum
      else if i = 42161 then Some Arbitrum
      else if i = 8453 then Some Base
      else if i = 137 then Some Polygon
      else if i = 10 then Some Optimism
      else None)"

definition ChainId_all :: "chain_id list" where
  "ChainId_all = [Ethereum, Arbitrum, Base, Polygon, Optimism]"

fun ChainId_name :: "chain_id \<Rightarrow> string" where
  "ChainId_name Ethereum = ''Ethereum''"
| "ChainId_name Arbitrum = ''Arbitrum''"
| "ChainId_name Base = ''Base''"
| "ChainId_name Polygon = ''Polygon''"
| "ChainId_name Optimism = ''Optimism''"

lemma ChainId_from_as [simp]: "ChainId_from_u64 (ChainId_as_u64 c) = Some c"
  by (cases c) (simp_all add: ChainId_from_u64_def)

lemma ChainId_from_Some: "ChainId_from_u64 i = Some c \<Longrightarrow> ChainId_as_u64 c = i"
  by (auto simp: ChainId_from_u64_def split: if_splits)

lemma set_ChainId_all: "set ChainId_all = UNIV"
  using chain_id.exhaust by (auto simp: ChainId_all_def)

text \<open>
  The numeric chain identifier is a faithful encoding: decoding what a chain encodes to
  gives the chain back, a number decodes only if it is the encoding of the result, and the
  decodable numbers are exactly the encodings of the chains that \<open>all\<close> lists.
\<close>

theorem chain_id_roundtrip:
  "ChainId_from_u64 (ChainId_as_u64 c) = Some c
   \<and> (ChainId_from_u64 i = Some c \<longleftrightarrow> ChainId_as_u64 c = i)
   \<and> (ChainId_from_u64 i \<noteq> None \<longleftrightarrow> i \<in> set (map ChainId_as_u64 ChainId_all))"
proof -
  have iff: "ChainId_from_u64 i = Some c \<longleftrightarrow> ChainId_as_u64 c = i" for c
    using ChainId_from_Some by auto
  then have "ChainId_from_u64 i \<noteq> None \<longleftrightarrow> i \<in> set (map ChainId_as_u64 ChainId_all)"
    by (force simp: set_ChainId_all image_iff)
  with iff show ?thesis by simp
qed

record token =
  tk_address :: address
  tk_chain_id :: chain_id
  tk_decimals :: u8
  tk_symbol :: string

record token_amount =
  ta_token :: token
  ta_amount :: u256

definition Token_new :: "address \<Rightarrow> chain_id \<Rightarrow> u8 \<Rightarrow> string \<Rightarrow> token" where
  "Token_new address chain decimals symbol =
     \<lparr>tk_address = address, tk_chain_id = chain, tk_decimals = decimals, tk_symbol = symbol\<rparr>"

definition TokenAmount_new :: "token \<Rightarrow> u256 \<Rightarrow> token_amount" where
  "TokenAmount_new token amount = \<lparr>ta_token = token, ta_amount = amount\<rparr>"

definition TokenAmount_is_zero :: "token_amount \<Rightarrow> bool" where
  "TokenAmount_is_zero a \<longleftrightarrow> ta_amount a = 0"

section \<open>Errors\<close>

datatype chain_error =
    ConnectionFailed chain_id message
  | ProviderError chain_id message
  | StreamInterrupted chain_id
  | UnsupportedChain chain_id
  | TransactionFailed chain_id message

datatype discovery_error =
    DecodeFailed message
  | DecodingFailed message
  | ValidationFailed message
  | InvalidSignature message
  | OrderExpiredErr message
  | OrderNotFound message
  | ReactorError message
  | OrderAlreadyExists message
  | InvalidTransition string string

datatype pricing_error =
    NoPriceAvailable string string chain_id
  | StalePrice string u64
  | SourceUnavailable message
  | PricingGasEstimationFailed message

datatype strategy_error =
    SimulationFailed message
  | Unprofitable message
  | InsufficientLiquidity message
  | EvaluationTimeout u64

datatype execution_error =
    ExecReverted message
  | NonceError message
  | GasEstimationFailed message
  | NotIncluded u32
  | RelayFailed message

datatype inventory_error =
    BalanceCheckFailed message
  | PositionLimitExceeded message
  | InsufficientBalance message

datatype settlement_error =
    ConfirmationFailed message
  | TransactionReverted message
  | SettlementTimeout u64

text \<open>The wrapper of all of them; \<open>anyhow\<close>'s error is its message.\<close>

datatype phantom_error =
    ChainFailure chain_error
  | DiscoveryFailure discovery_error
  | PricingFailure pricing_error
  | StrategyFailure strategy_error
  | ExecutionFailure execution_error
  | ConfigFailure message
  | DatabaseFailure message
  | InternalFailure message

section \<open>Orders\<close>

type_synonym order_id = b256

datatype order_status = Pending | Active | Filled | Expired | Cancelled

fun OrderStatus_to_string :: "order_status \<Rightarrow> string" where
  "OrderStatus_to_string Pending = ''Pending''"
| "OrderStatus_to_string Active = ''Active''"
| "OrderStatus_to_string Filled = ''Filled''"
| "OrderStatus_to_string Expired = ''Expired''"
| "OrderStatus_to_string Cancelled = ''Cancelled''"

record order_input =
  oi_token :: address
  oi_amount :: u256

record order_output =
  oo_token :: address
  oo_start_amount :: u256
  oo_end_amount :: u256
  oo_recipient :: address

record dutch_order =
  do_id :: order_id
  do_chain_id :: chain_id
  do_reactor :: address
  do_signer :: address
  do_nonce :: u256
  do_decay_start_time :: datetime
  do_decay_end_time :: datetime
  do_deadline :: datetime
  do_input :: order_input
  do_outputs :: "order_output list"

definition current_output_amount :: "dutch_order \<Rightarrow> nat \<Rightarrow> datetime \<Rightarrow> u256 option" where
  "current_output_amount order i now =
     (if length (do_outputs order) \<le> i then None
      else
        let output = do_outputs order ! i in
        if now \<le> do_decay_start_time order then Some (oo_start_amount output)
        else if do_decay_end_time order \<le> now then Some (oo_end_amount output)
        else
          let dur = unsigned_abs (num_seconds (do_decay_end_time order - do_decay_start_time order));
              elapsed = unsigned_abs (num_seconds (now - do_decay_start_time order))
          in if dur = 0 then Some (oo_end_amount output)
             else
               let diff = sat_sub (oo_start_amount output) (oo_end_amount output);
                   decay_amount = diff * ucast elapsed div ucast dur
               in Some (sat_sub (oo_start_amount output) decay_amount))"

definition DutchAuctionOrder_is_expired :: "dutch_order \<Rightarrow> datetime \<Rightarrow> bool" where
  "DutchAuctionOrder_is_expired order now \<longleftrightarrow> do_deadline order < now"

record signed_order =
  so_order :: dutch_order
  so_signature :: bytes
  so_status :: order_status
  so_discovered_at :: datetime

text \<open>The current time \<open>now\<close> is what \<open>Utc::now()\<close> returns.\<close>

definition SignedOrder_new :: "dutch_order \<Rightarrow> bytes \<Rightarrow> datetime \<Rightarrow> signed_order" where
  "SignedOrder_new order signature now =
     \<lparr>so_order = order, so_signature = signature, so_status = Pending, so_discovered_at = now\<rparr>"

definition SignedOrder_id :: "signed_order \<Rightarrow> order_id" where
  "SignedOrder_id s = do_id (so_order s)"

subsection \<open>The decay of an output amount\<close>

text \<open>
  The points in time a \<open>DateTime<Utc>\<close> can hold, from \<open>DateTime::MIN_UTC\<close> to \<open>MAX_UTC\<close>: a
  difference of two of them has a number of seconds far below \<open>2 ^ 63\<close>.
\<close>

definition chrono_range :: "datetime \<Rightarrow> bool" where
  "chrono_range t \<longleftrightarrow> - 8334601228800 * nanos_per_sec \<le> t \<and> t < 8210266876800 * nanos_per_sec"

text \<open>The specification of the decay: linear interpolation over whole seconds, rounded in favour of the swapper.\<close>

definition linear_decay :: "nat \<Rightarrow> nat \<Rightarrow> nat \<Rightarrow> nat \<Rightarrow> nat" where
  "linear_decay start end elapsed dur = start - (start - end) * elapsed div dur"

lemma linear_decay_bounds:
  "end \<le> start \<Longrightarrow> elapsed \<le> dur \<Longrightarrow> end \<le> linear_decay start end elapsed dur"
proof -
  assume le: "end \<le> start" "elapsed \<le> dur"
  have "(start - end) * elapsed div dur \<le> (start - end) * dur div dur"
    using le by (intro div_le_mono mult_le_mono2)
  also have "\<dots> \<le> start - end" by simp
  finally show ?thesis
    using le(1) by (simp add: linear_decay_def)
qed

lemma linear_decay_le_start: "linear_decay start end elapsed dur \<le> start"
  by (simp add: linear_decay_def)

lemma linear_decay_antimono:
  "e1 \<le> e2 \<Longrightarrow> linear_decay start end e2 dur \<le> linear_decay start end e1 dur"
  by (simp add: linear_decay_def diff_le_mono2 div_le_mono)

text \<open>Seconds between two points of the range, read back from the \<open>u64\<close>.\<close>

lemma unat_elapsed:
  assumes "chrono_range a" "chrono_range b" "a \<le> b"
  shows "unat (unsigned_abs (num_seconds (b - a))) = nat (num_seconds (b - a))"
proof -
  have "num_seconds (b - a) \<le> (b - a) div nanos_per_sec"
    using assms by (simp add: num_seconds_def)
  also have "\<dots> \<le> 16544868105600"
    using assms by (simp add: chrono_range_def nanos_per_sec_def)
  finally have "num_seconds (b - a) < 2 ^ 64" by simp
  moreover have "0 \<le> num_seconds (b - a)"
    using assms by (simp add: num_seconds_nonneg)
  ultimately show ?thesis
    by (subst unat_unsigned_abs) auto
qed

lemma interpolation_exact:
  fixes s e :: u256 and el tot :: u64
  assumes "unat (sat_sub s e) * unat el < 2 ^ 256"
  shows "unat (sat_sub s (sat_sub s e * ucast el div ucast tot))
    = linear_decay (unat s) (unat e) (unat el) (unat tot)"
proof -
  have "unat (sat_sub s e * ucast el) = unat (sat_sub s e) * unat el"
    using assms by (subst unat_mult_lt) (simp_all add: unat_simps)
  then show ?thesis
    by (simp add: unat_simps linear_decay_def)
qed

text \<open>
  The inputs on which the decay is meant to be used: the points in time exist, the output
  decays downwards, and the amount decayed over the elapsed seconds fits 256 bits.
\<close>

definition decay_ok :: "dutch_order \<Rightarrow> order_output \<Rightarrow> datetime \<Rightarrow> bool" where
  "decay_ok order output now \<longleftrightarrow>
     chrono_range (do_decay_start_time order) \<and> chrono_range (do_decay_end_time order)
     \<and> chrono_range now \<and> oo_end_amount output \<le> oo_start_amount output
     \<and> (unat (oo_start_amount output) - unat (oo_end_amount output))
          * nat (num_seconds (now - do_decay_start_time order)) < 2 ^ 256"

lemma current_output_amount_before:
  "i < length (do_outputs order) \<Longrightarrow> now \<le> do_decay_start_time order \<Longrightarrow>
   current_output_amount order i now = Some (oo_start_amount (do_outputs order ! i))"
  by (simp add: current_output_amount_def Let_def)

lemma current_output_amount_after:
  "i < length (do_outputs order) \<Longrightarrow> do_decay_start_time order < now \<Longrightarrow>
   do_decay_end_time order \<le> now \<Longrightarrow>
   current_output_amount order i now = Some (oo_end_amount (do_outputs order ! i))"
  by (simp add: current_output_amount_def Let_def)

lemma current_output_amount_between:
  assumes i: "i < length (do_outputs order)"
    and now: "do_decay_start_time order < now" "now < do_decay_end_time order"
    and ok: "decay_ok order (do_outputs order ! i) now"
    and dur: "num_seconds (do_decay_end_time order - do_decay_start_time order) \<noteq> 0"
  shows "map_option unat (current_output_amount order i now) =
    Some (linear_decay (unat (oo_start_amount (do_outputs order ! i)))
      (unat (oo_end_amount (do_outputs order ! i)))
      (nat (num_seconds (now - do_decay_start_time order)))
      (nat (num_seconds (do_decay_end_time order - do_decay_start_time order))))"
proof -
  let ?o = "do_outputs order ! i"
  let ?dur = "unsigned_abs (num_seconds (do_decay_end_time order - do_decay_start_time order))"
  let ?el = "unsigned_abs (num_seconds (now - do_decay_start_time order))"
  have el: "unat ?el = nat (num_seconds (now - do_decay_start_time order))"
    using ok now by (intro unat_elapsed) (auto simp: decay_ok_def)
  have d: "unat ?dur = nat (num_seconds (do_decay_end_time order - do_decay_start_time order))"
    using ok now by (intro unat_elapsed) (auto simp: decay_ok_def)
  have "0 \<le> num_seconds (do_decay_end_time order - do_decay_start_time order)"
    using now by (simp add: num_seconds_nonneg)
  with d dur have "unat ?dur \<noteq> 0" by simp
  then have "?dur \<noteq> 0" by auto
  moreover have "unat (sat_sub (oo_start_amount ?o) (oo_end_amount ?o)) * unat ?el < 2 ^ 256"
    using ok by (simp add: decay_ok_def el unat_simps)
  note interpolation_exact [OF this, of ?dur]
  ultimately show ?thesis
    using i now by (simp add: current_output_amount_def Let_def el d)
qed



lemma current_output_amount_degenerate:
  assumes "i < length (do_outputs order)"
    and "do_decay_start_time order < now" "now < do_decay_end_time order"
    and "num_seconds (do_decay_end_time order - do_decay_start_time order) = 0"
  shows "current_output_amount order i now = Some (oo_end_amount (do_outputs order ! i))"
  using assms by (simp add: current_output_amount_def Let_def unsigned_abs_def)

lemma current_output_amount_cases:
  assumes "i < length (do_outputs order)" "decay_ok order (do_outputs order ! i) now"
  obtains (start) "now \<le> do_decay_start_time order"
      "current_output_amount order i now = Some (oo_start_amount (do_outputs order ! i))"
  | (finish) "do_decay_start_time order < now"
      "do_decay_end_time order \<le> now \<or>
        num_seconds (do_decay_end_time order - do_decay_start_time order) = 0"
      "current_output_amount order i now = Some (oo_end_amount (do_outputs order ! i))"
  | (between) a where "do_decay_start_time order < now" "now < do_decay_end_time order"
      "num_seconds (do_decay_end_time order - do_decay_start_time order) \<noteq> 0"
      "current_output_amount order i now = Some a"
      "unat a = linear_decay (unat (oo_start_amount (do_outputs order ! i)))
        (unat (oo_end_amount (do_outputs order ! i)))
        (nat (num_seconds (now - do_decay_start_time order)))
        (nat (num_seconds (do_decay_end_time order - do_decay_start_time order)))"
proof -
  consider "now \<le> do_decay_start_time order"
    | "do_decay_start_time order < now" "do_decay_end_time order \<le> now"
    | "do_decay_start_time order < now" "now < do_decay_end_time order"
        "num_seconds (do_decay_end_time order - do_decay_start_time order) = 0"
    | "do_decay_start_time order < now" "now < do_decay_end_time order"
        "num_seconds (do_decay_end_time order - do_decay_start_time order) \<noteq> 0"
    by linarith
  then show thesis
  proof cases
    case 1
    then show thesis using start current_output_amount_before [OF assms(1)] by blast
  next
    case 2
    then show thesis using finish current_output_amount_after [OF assms(1)] by blast
  next
    case 3
    then show thesis using finish current_output_amount_degenerate [OF assms(1)] by blast
  next
    case 4
    from current_output_amount_between [OF assms(1) 4(1,2) assms(2) 4(3)] obtain a where
      "current_output_amount order i now = Some a"
      "unat a = linear_decay (unat (oo_start_amount (do_outputs order ! i)))
        (unat (oo_end_amount (do_outputs order ! i)))
        (nat (num_seconds (now - do_decay_start_time order)))
        (nat (num_seconds (do_decay_end_time order - do_decay_start_time order)))"
      by auto
    with 4 show thesis using between by blast
  qed
qed

lemma decay_bounds:
  assumes "i < length (do_outputs order)" "decay_ok order (do_outputs order ! i) now"
  shows "\<exists>a. current_output_amount order i now = Some a \<and>
    oo_end_amount (do_outputs order ! i) \<le> a \<and> a \<le> oo_start_amount (do_outputs order ! i)"
  using assms
proof (cases rule: current_output_amount_cases)
  case (between a)
  have le: "nat (num_seconds (now - do_decay_start_time order))
      \<le> nat (num_seconds (do_decay_end_time order - do_decay_start_time order))"
    using between by (intro nat_mono num_seconds_mono) auto
  have "oo_end_amount (do_outputs order ! i) \<le> oo_start_amount (do_outputs order ! i)"
    using assms by (simp add: decay_ok_def)
  with between le show ?thesis
    by (simp add: word_le_nat_alt linear_decay_bounds linear_decay_le_start)
qed (use assms in \<open>auto simp: decay_ok_def\<close>)

lemma decay_antimono_bounds:
  assumes "i < length (do_outputs order)" and "now1 \<le> now2"
    and "decay_ok order (do_outputs order ! i) now1" "decay_ok order (do_outputs order ! i) now2"
  shows "\<exists>a1 a2. current_output_amount order i now1 = Some a1
    \<and> current_output_amount order i now2 = Some a2
    \<and> oo_end_amount (do_outputs order ! i) \<le> a2 \<and> a2 \<le> a1
    \<and> a1 \<le> oo_start_amount (do_outputs order ! i)"
proof -
  obtain a1 a2 where a: "current_output_amount order i now1 = Some a1"
      "current_output_amount order i now2 = Some a2"
    and b: "oo_end_amount (do_outputs order ! i) \<le> a1" "a1 \<le> oo_start_amount (do_outputs order ! i)"
      "oo_end_amount (do_outputs order ! i) \<le> a2" "a2 \<le> oo_start_amount (do_outputs order ! i)"
    using decay_bounds [OF assms(1,3)] decay_bounds [OF assms(1,4)] by blast
  have "a2 \<le> a1"
    using assms(1,3)
  proof (cases rule: current_output_amount_cases)
    case start
    with a b show ?thesis by simp
  next
    case finish
    from assms(1,4) show ?thesis
      by (cases rule: current_output_amount_cases) (use finish a assms(2) in auto)
  next
    case (between c1)
    from assms(1,4) show ?thesis
    proof (cases rule: current_output_amount_cases)
      case start
      with between(1) assms(2) show ?thesis by simp
    next
      case finish
      with a b show ?thesis by simp
    next
      case (between c2)
      have "nat (num_seconds (now1 - do_decay_start_time order))
          \<le> nat (num_seconds (now2 - do_decay_start_time order))"
        using assms(2) \<open>do_decay_start_time order < now1\<close> by (intro nat_mono num_seconds_mono) auto
      with between a \<open>current_output_amount order i now1 = Some c1\<close>
        \<open>unat c1 = linear_decay _ _ _ _\<close> show ?thesis
        by (simp add: word_le_nat_alt linear_decay_antimono)
    qed
  qed
  with a b show ?thesis by blast
qed

text \<open>
  C2: The decaying amount stays between its ending and its starting amount and never grows: at
  a later time a filler is required to deliver at most as much as at an earlier one.
\<close>

theorem decay_bounded_and_antimono:
  assumes "i < length (do_outputs order)" and "now1 \<le> now2"
    and "decay_ok order (do_outputs order ! i) now1" "decay_ok order (do_outputs order ! i) now2"
  shows "\<exists>a1 a2. current_output_amount order i now1 = Some a1
    \<and> current_output_amount order i now2 = Some a2
    \<and> oo_end_amount (do_outputs order ! i) \<le> a2 \<and> a2 \<le> a1
    \<and> a1 \<le> oo_start_amount (do_outputs order ! i)"
  by (rule decay_antimono_bounds [OF assms])

text \<open>A ten-minute auction from 0.5 to 0.45 ether, used in the examples.\<close>

definition sample_order :: dutch_order where
  "sample_order =
     \<lparr>do_id = 7, do_chain_id = Ethereum, do_reactor = 96, do_signer = 216, do_nonce = 1,
      do_decay_start_time = 0, do_decay_end_time = 600 * nanos_per_sec,
      do_deadline = 1800 * nanos_per_sec,
      do_input = \<lparr>oi_token = 160, oi_amount = 1000000000\<rparr>,
      do_outputs = [\<lparr>oo_token = 192, oo_start_amount = 500000000000000000,
        oo_end_amount = 450000000000000000, oo_recipient = 216\<rparr>]\<rparr>"

lemma sample_order_decay_ok:
  "0 \<le> t \<Longrightarrow> t \<le> 600 \<Longrightarrow> decay_ok sample_order (do_outputs sample_order ! 0) (t * nanos_per_sec)"
proof -
  assume "0 \<le> t" "t \<le> 600"
  then have "num_seconds (t * nanos_per_sec) = t" "nat t \<le> 600"
    by (simp_all add: num_seconds_def nanos_per_sec_def)
  with \<open>0 \<le> t\<close> \<open>t \<le> 600\<close> show ?thesis
    by (simp add: decay_ok_def sample_order_def chrono_range_def nanos_per_sec_def word_le_nat_alt)
qed


theorem decay_bounded_and_antimono_witness:
  "\<exists>a1 a2. current_output_amount sample_order 0 (60 * nanos_per_sec) = Some a1
    \<and> current_output_amount sample_order 0 (300 * nanos_per_sec) = Some a2 \<and> a2 \<le> a1"
  using decay_bounded_and_antimono [of 0 sample_order "60 * nanos_per_sec" "300 * nanos_per_sec"]
    sample_order_decay_ok [of 60] sample_order_decay_ok [of 300]
  by (auto simp: sample_order_def nanos_per_sec_def)


text \<open>
  Outside \<open>decay_ok\<close> the product \<open>diff * elapsed\<close> wraps: half-way through this auction the
  code still asks for the full starting amount, where linear interpolation gives half of it.
\<close>

definition overflow_order :: dutch_order where
  "overflow_order = sample_order\<lparr>do_decay_end_time := 4 * nanos_per_sec,
     do_outputs := [\<lparr>oo_token = 192, oo_start_amount = 2 ^ 255, oo_end_amount = 0, oo_recipient = 216\<rparr>]\<rparr>"

lemma decay_overflow_example:
  "current_output_amount overflow_order 0 (2 * nanos_per_sec) = Some (2 ^ 255)
   \<and> linear_decay (2 ^ 255) 0 2 4 = 2 ^ 254"
  by (simp add: overflow_order_def sample_order_def current_output_amount_def nanos_per_sec_def
      num_seconds_def unsigned_abs_def linear_decay_def sat_sub_def)

end
