(* ===== verification/Order_Book.thy ===== *)
theory Order_Book
  imports Types
begin

text \<open>
  The in-memory order book (\<open>phantom-discovery/src/orderbook.rs\<close>): the operations of
  \<open>OrderBook\<close> on its map from order identifiers to entries, and the order life cycle
  \<open>Pending\<close>, \<open>Active\<close>, then \<open>Filled\<close>, \<open>Expired\<close> or \<open>Cancelled\<close> they promise.  An operation
  returns the new book and its result; \<open>now\<close> is what \<open>Utc::now()\<close> returns during the call.
\<close>

section \<open>State and operations\<close>

record order_entry =
  oe_order :: dutch_order
  oe_status :: order_status
  oe_discovered_at :: datetime
  oe_updated_at :: datetime

type_synonym order_book = "(order_id, order_entry) dashmap"

definition OrderBook_new :: order_book where
  "OrderBook_new = dm_empty"

abbreviation order_id_text :: "order_id \<Rightarrow> message" where
  "order_id_text i \<equiv> Fmt ''{}'' [Hash i]"

text \<open>
  \<open>insert\<close> reads the map (\<open>contains_key\<close>) and then writes it: two accesses, each atomic on its
  own.
\<close>

definition OrderBook_insert_check :: "dutch_order \<Rightarrow> order_book \<Rightarrow> discovery_error + unit" where
  "OrderBook_insert_check order book =
     (if dm_contains (do_id order) book
      then Inl (OrderAlreadyExists (order_id_text (do_id order)))
      else Inr ())"

definition OrderBook_insert_put :: "dutch_order \<Rightarrow> datetime \<Rightarrow> order_book \<Rightarrow> order_book" where
  "OrderBook_insert_put order now book =
     dm_insert (do_id order)
       \<lparr>oe_order = order, oe_status = Pending, oe_discovered_at = now, oe_updated_at = now\<rparr> book"

definition OrderBook_insert ::
    "dutch_order \<Rightarrow> datetime \<Rightarrow> order_book \<Rightarrow> order_book \<times> (discovery_error + unit)" where
  "OrderBook_insert order now book =
     (case OrderBook_insert_check order book of
        Inl e \<Rightarrow> (book, Inl e)
      | Inr _ \<Rightarrow> (OrderBook_insert_put order now book, Inr ()))"

definition OrderBook_get :: "order_id \<Rightarrow> order_book \<Rightarrow> order_entry option" where
  "OrderBook_get i book = dm_get i book"

definition OrderBook_remove :: "order_id \<Rightarrow> order_book \<Rightarrow> order_book \<times> order_entry option" where
  "OrderBook_remove i book = (dm_remove i book, dm_get i book)"

definition OrderBook_transition ::
    "order_id \<Rightarrow> order_status \<Rightarrow> order_status \<Rightarrow> datetime \<Rightarrow> order_book
      \<Rightarrow> order_book \<times> (discovery_error + unit)" where
  "OrderBook_transition i expected_from to now book =
     (case dm_get i book of
        None \<Rightarrow> (book, Inl (OrderNotFound (order_id_text i)))
      | Some entry \<Rightarrow>
          if oe_status entry \<noteq> expected_from
          then (book, Inl (InvalidTransition (OrderStatus_to_string (oe_status entry))
                            (OrderStatus_to_string to)))
          else (dm_insert i (entry\<lparr>oe_status := to, oe_updated_at := now\<rparr>) book, Inr ()))"

definition OrderBook_activate ::
    "order_id \<Rightarrow> datetime \<Rightarrow> order_book \<Rightarrow> order_book \<times> (discovery_error + unit)" where
  "OrderBook_activate i now book = OrderBook_transition i Pending Active now book"

definition OrderBook_mark_filled ::
    "order_id \<Rightarrow> datetime \<Rightarrow> order_book \<Rightarrow> order_book \<times> (discovery_error + unit)" where
  "OrderBook_mark_filled i now book = OrderBook_transition i Active Filled now book"

definition OrderBook_mark_expired ::
    "order_id \<Rightarrow> datetime \<Rightarrow> order_book \<Rightarrow> order_book \<times> (discovery_error + unit)" where
  "OrderBook_mark_expired i now book = OrderBook_transition i Active Expired now book"

definition OrderBook_mark_cancelled ::
    "order_id \<Rightarrow> datetime \<Rightarrow> order_book \<Rightarrow> order_book \<times> (discovery_error + unit)" where
  "OrderBook_mark_cancelled i now book =
     (case dm_get i book of
        None \<Rightarrow> (book, Inl (OrderNotFound (order_id_text i)))
      | Some entry \<Rightarrow>
          if oe_status entry = Pending \<or> oe_status entry = Active
          then (dm_insert i (entry\<lparr>oe_status := Cancelled, oe_updated_at := now\<rparr>) book, Inr ())
          else (book, Inl (InvalidTransition (OrderStatus_to_string (oe_status entry))
                            ''Cancelled'')))"

definition OrderBook_get_by_status :: "order_status \<Rightarrow> order_book \<Rightarrow> order_entry list" where
  "OrderBook_get_by_status status book =
     filter (\<lambda>entry. oe_status entry = status) (map snd (dm_iter book))"

definition OrderBook_get_active_orders :: "order_book \<Rightarrow> order_entry list" where
  "OrderBook_get_active_orders book = OrderBook_get_by_status Active book"

text \<open>One step of the \<open>iter_mut\<close> loop of \<open>cleanup_expired\<close>, and the loop with its counter.\<close>

definition expire_entry :: "datetime \<Rightarrow> order_entry \<Rightarrow> order_entry" where
  "expire_entry now entry =
     (if oe_status entry = Active \<and> DutchAuctionOrder_is_expired (oe_order entry) now
      then entry\<lparr>oe_status := Expired, oe_updated_at := now\<rparr>
      else entry)"

definition OrderBook_cleanup_expired :: "datetime \<Rightarrow> order_book \<Rightarrow> order_book \<times> nat" where
  "OrderBook_cleanup_expired now book =
     (dm_map (expire_entry now) book,
      foldl (\<lambda>expired_count (i, entry).
          if oe_status entry = Active \<and> DutchAuctionOrder_is_expired (oe_order entry) now
          then expired_count + 1 else expired_count) 0 (dm_iter book))"

definition OrderBook_order_count :: "order_book \<Rightarrow> nat" where
  "OrderBook_order_count book = dm_len book"

definition OrderBook_active_count :: "order_book \<Rightarrow> nat" where
  "OrderBook_active_count book =
     length (filter (\<lambda>(i, entry). oe_status entry = Active) (dm_iter book))"

definition OrderBook_pending_count :: "order_book \<Rightarrow> nat" where
  "OrderBook_pending_count book =
     length (filter (\<lambda>(i, entry). oe_status entry = Pending) (dm_iter book))"

lemmas OrderBook_defs =
  OrderBook_insert_def OrderBook_insert_check_def OrderBook_insert_put_def
  OrderBook_get_def OrderBook_remove_def OrderBook_transition_def OrderBook_activate_def
  OrderBook_mark_filled_def OrderBook_mark_expired_def OrderBook_mark_cancelled_def

section \<open>Well-formed books\<close>

text \<open>Every entry is stored under the identifier of its order.\<close>

definition book_wf :: "order_book \<Rightarrow> bool" where
  "book_wf book \<longleftrightarrow> dm_wf book \<and> (\<forall>i entry. dm_get i book = Some entry \<longrightarrow> do_id (oe_order entry) = i)"

lemma book_wf_new: "book_wf OrderBook_new"
  by (simp add: book_wf_def OrderBook_new_def)

lemma book_wf_insert: "book_wf book \<Longrightarrow> book_wf (fst (OrderBook_insert order now book))"
  by (auto simp: book_wf_def OrderBook_defs intro!: wf_intros)

lemma book_wf_remove: "book_wf book \<Longrightarrow> book_wf (fst (OrderBook_remove i book))"
  by (auto simp: book_wf_def OrderBook_defs intro!: wf_intros split: if_splits)

lemma book_wf_transition: "book_wf book \<Longrightarrow> book_wf (fst (OrderBook_transition i a b now book))"
  by (auto simp: book_wf_def OrderBook_defs intro!: wf_intros split: option.splits)

lemma book_wf_cancelled: "book_wf book \<Longrightarrow> book_wf (fst (OrderBook_mark_cancelled i now book))"
  by (auto simp: book_wf_def OrderBook_defs intro!: wf_intros split: option.splits)

lemma expire_entry_order [simp]: "oe_order (expire_entry now entry) = oe_order entry"
  by (simp add: expire_entry_def)

lemma book_wf_cleanup: "book_wf book \<Longrightarrow> book_wf (fst (OrderBook_cleanup_expired now book))"
  by (auto simp: book_wf_def OrderBook_cleanup_expired_def)

section \<open>The life cycle\<close>

inductive order_trans :: "order_status \<Rightarrow> order_status \<Rightarrow> bool" where
  "order_trans Pending Active"
| "order_trans Pending Cancelled"
| "order_trans Active Filled"
| "order_trans Active Expired"
| "order_trans Active Cancelled"

code_pred order_trans .

inductive_cases order_trans_Filled: "order_trans Filled b"
inductive_cases order_trans_Expired: "order_trans Expired b"
inductive_cases order_trans_Cancelled: "order_trans Cancelled b"

text \<open>The operations that keep every order in the book.\<close>

inductive book_step :: "order_book \<Rightarrow> order_book \<Rightarrow> bool" where
  insert: "book_step book (fst (OrderBook_insert order now book))"
| activate: "book_step book (fst (OrderBook_activate i now book))"
| filled: "book_step book (fst (OrderBook_mark_filled i now book))"
| expired: "book_step book (fst (OrderBook_mark_expired i now book))"
| cancelled: "book_step book (fst (OrderBook_mark_cancelled i now book))"
| cleanup: "book_step book (fst (OrderBook_cleanup_expired now book))"

definition book_status :: "order_book \<Rightarrow> order_id \<Rightarrow> order_status option" where
  "book_status book i = map_option oe_status (dm_get i book)"

lemma transition_status:
  "book_status (fst (OrderBook_transition i a b now book)) j =
     (if j = i \<and> book_status book i = Some a then Some b else book_status book j)"
  by (auto simp: book_status_def OrderBook_transition_def split: option.splits)

lemma cancelled_status:
  "book_status (fst (OrderBook_mark_cancelled i now book)) j =
     (if j = i \<and> book_status book i \<in> {Some Pending, Some Active} then Some Cancelled
      else book_status book j)"
  by (auto simp: book_status_def OrderBook_mark_cancelled_def split: option.splits)

lemma insert_status:
  "book_status (fst (OrderBook_insert order now book)) j =
     (if j = do_id order \<and> book_status book j = None then Some Pending else book_status book j)"
  by (auto simp: book_status_def OrderBook_defs)

lemma cleanup_status:
  "book_status (fst (OrderBook_cleanup_expired now book)) j =
     (case dm_get j book of None \<Rightarrow> None
      | Some entry \<Rightarrow> Some (if oe_status entry = Active \<and> DutchAuctionOrder_is_expired (oe_order entry) now
                            then Expired else oe_status entry))"
  by (auto simp: book_status_def OrderBook_cleanup_expired_def expire_entry_def split: option.splits)

lemmas book_status_simps =
  transition_status cancelled_status insert_status cleanup_status
  OrderBook_activate_def OrderBook_mark_filled_def OrderBook_mark_expired_def

interpretation orders: lifecycle book_step book_status order_trans
proof unfold_locales
  fix book book' i a
  assume "book_step book book'" and a: "book_status book i = Some a"
  from this(1) show "\<exists>b. book_status book' i = Some b \<and> (a = b \<or> order_trans a b)"
    by cases
      (use a in \<open>auto simp: book_status_simps intro: order_trans.intros\<close>,
       use a in \<open>auto simp: book_status_def intro: order_trans.intros split: option.splits\<close>)
qed

lemma final_no_trans: "s \<in> {Filled, Expired, Cancelled} \<Longrightarrow> \<not> order_trans s b"
  by (auto elim: order_trans_Filled order_trans_Expired order_trans_Cancelled)


section \<open>Properties\<close>

text \<open>
  Safety of the order life cycle.  Along any sequence of insertions, activations, fills,
  expiries, cancellations and clean-ups, an order that is in the book stays in it and its status
  moves only along the arrows of the documented life cycle; a filled, expired or cancelled order
  never changes status again.
\<close>

theorem order_lifecycle_safety:
  assumes "book_step\<^sup>*\<^sup>* book book'" and "book_status book i = Some a"
  shows "\<exists>b. book_status book' i = Some b \<and> order_trans\<^sup>*\<^sup>* a b \<and>
    (a \<in> {Filled, Expired, Cancelled} \<longrightarrow> b = a)"
  using orders.run_allowed [OF assms] orders.run_final [OF assms] final_no_trans by fastforce

text \<open>
  \<open>insert\<close> accepts an order exactly when its identifier is unknown.  A duplicate is refused
  with \<open>OrderAlreadyExists\<close> and leaves the book as it was; an accepted order is stored as
  \<open>Pending\<close>, stamped with the current time, adds one to the order count and touches no other
  entry.
\<close>

theorem insert_contract:
  assumes "book_wf book"
  shows "(case OrderBook_get (do_id order) book of
      Some entry \<Rightarrow> OrderBook_insert order now book =
        (book, Inl (OrderAlreadyExists (Fmt ''{}'' [Hash (do_id order)])))
    | None \<Rightarrow> (let (book', r) = OrderBook_insert order now book in
        r = Inr () \<and> book_wf book'
        \<and> OrderBook_order_count book' = OrderBook_order_count book + 1
        \<and> OrderBook_get (do_id order) book' =
            Some \<lparr>oe_order = order, oe_status = Pending, oe_discovered_at = now, oe_updated_at = now\<rparr>
        \<and> (\<forall>j. j \<noteq> do_id order \<longrightarrow> OrderBook_get j book' = OrderBook_get j book)))"
proof (cases "dm_get (do_id order) book")
  case None
  then show ?thesis
    using book_wf_insert [OF assms, of order now] assms
    by (simp add: OrderBook_defs OrderBook_order_count_def dm.length_put book_wf_def)
next
  case (Some entry)
  then show ?thesis by (simp add: OrderBook_defs)
qed

text \<open>
  The status changes are guarded exactly as documented.  An operation on an unknown
  identifier reports \<open>OrderNotFound\<close>, one whose order is not in the required status reports
  \<open>InvalidTransition\<close> with the two statuses, both leaving the book unchanged; otherwise the
  order gets the new status and the time stamp, and its data and every other entry are kept.
  Activation requires \<open>Pending\<close>, filling and expiring require \<open>Active\<close>.
\<close>

theorem transition_contract:
  assumes "(f, required, target) \<in> {(OrderBook_activate, Pending, Active),
    (OrderBook_mark_filled, Active, Filled), (OrderBook_mark_expired, Active, Expired)}"
  shows "(case OrderBook_get i book of
      None \<Rightarrow> f i now book = (book, Inl (OrderNotFound (Fmt ''{}'' [Hash i])))
    | Some entry \<Rightarrow>
        if oe_status entry = required
        then snd (f i now book) = Inr ()
          \<and> OrderBook_get i (fst (f i now book)) =
              Some (entry\<lparr>oe_status := target, oe_updated_at := now\<rparr>)
          \<and> (\<forall>j. j \<noteq> i \<longrightarrow> OrderBook_get j (fst (f i now book)) = OrderBook_get j book)
        else f i now book = (book, Inl (InvalidTransition (OrderStatus_to_string (oe_status entry))
               (OrderStatus_to_string target))))"
  using assms by (auto simp: OrderBook_defs split: option.splits)

lemma active_count_alt: "OrderBook_active_count book = length (OrderBook_get_active_orders book)"
  by (simp add: OrderBook_active_count_def OrderBook_get_active_orders_def
      OrderBook_get_by_status_def filter_map comp_def case_prod_unfold)

lemma active_after_expire: "oe_status (expire_entry now entry) = Active \<longleftrightarrow>
    oe_status entry = Active \<and> \<not> DutchAuctionOrder_is_expired (oe_order entry) now"
  by (auto simp: expire_entry_def)

lemma filter_active_length:
  "length (filter (\<lambda>x. P x \<and> \<not> Q x) xs) + length (filter (\<lambda>x. P x \<and> Q x) xs) = length (filter P xs)"
  by (induction xs) auto

lemma expired_count:
  "foldl (\<lambda>c (i, entry).
      if oe_status entry = Active \<and> DutchAuctionOrder_is_expired (oe_order entry) now
      then c + 1 else c) (n::nat) xs
   = n + length (filter (\<lambda>(i, entry). oe_status entry = Active
       \<and> DutchAuctionOrder_is_expired (oe_order entry) now) xs)"
  by (subst foldl_count [symmetric]) (simp add: case_prod_unfold)

text \<open>
  \<open>cleanup_expired\<close> is complete and precise.  Afterwards no active order is past its
  deadline; exactly the active orders past their deadline became \<open>Expired\<close> with the time stamp
  of the clean-up, every other entry is unchanged; and the returned number is the drop of the
  active count.
\<close>

theorem cleanup_expired_correct:
  "(let (book', n) = OrderBook_cleanup_expired now book in
     (\<forall>entry \<in> set (OrderBook_get_active_orders book'). now \<le> do_deadline (oe_order entry))
     \<and> (\<forall>i. OrderBook_get i book' = map_option (\<lambda>entry.
          if oe_status entry = Active \<and> do_deadline (oe_order entry) < now
          then entry\<lparr>oe_status := Expired, oe_updated_at := now\<rparr> else entry) (OrderBook_get i book))
     \<and> OrderBook_active_count book' + n = OrderBook_active_count book
     \<and> OrderBook_order_count book' = OrderBook_order_count book)"
proof -
  let ?late = "\<lambda>(i, entry). oe_status entry = Active \<and> DutchAuctionOrder_is_expired (oe_order entry) now"
  have n: "snd (OrderBook_cleanup_expired now book) = length (filter ?late (dm_iter book))"
    using expired_count [of now 0 "dm_iter book"] by (simp add: OrderBook_cleanup_expired_def)
  have "OrderBook_active_count (dm_map (expire_entry now) book) + length (filter ?late (dm_iter book))
      = OrderBook_active_count book"
    using filter_active_length [of "\<lambda>e. oe_status (snd e) = Active"
        "\<lambda>e. DutchAuctionOrder_is_expired (oe_order (snd e)) now" "dm_iter book"]
    by (simp add: OrderBook_active_count_def dm_iter_map filter_map comp_def case_prod_unfold
        active_after_expire)
  with n show ?thesis
    by (auto simp: OrderBook_cleanup_expired_def OrderBook_get_def OrderBook_order_count_def
        OrderBook_get_active_orders_def OrderBook_get_by_status_def dm_iter_map
        active_after_expire DutchAuctionOrder_is_expired_def expire_entry_def
        intro!: arg_cong [where f = "\<lambda>f. map_option f (dm_get _ book)"] split: if_splits)
qed

text \<open>
  The two accesses of \<open>insert\<close> are not one atomic step.  Two tasks that both look before
  either writes both succeed, and the second write takes an order that was already filled back
  to \<open>Pending\<close>: the guarantee of the life cycle rests on insertions of one identifier not
  overlapping.
\<close>

lemma insert_race:
  assumes "dm_get (do_id order) book = None"
  shows "OrderBook_insert_check order book = Inr () \<and>
    (let book1 = OrderBook_insert_put order t1 book;
         book2 = fst (OrderBook_activate (do_id order) t2 book1);
         book3 = fst (OrderBook_mark_filled (do_id order) t3 book2);
         book4 = OrderBook_insert_put order t4 book3
     in book_status book3 (do_id order) = Some Filled \<and> book_status book4 (do_id order) = Some Pending)"
  using assms by (simp add: OrderBook_defs book_status_def Let_def)

subsection \<open>Examples\<close>

definition sample_book :: order_book where
  "sample_book = fst (OrderBook_activate 7 1 (fst (OrderBook_insert sample_order 0 OrderBook_new)))"

lemma sample_book_entry: "dm_get 7 sample_book =
    Some \<lparr>oe_order = sample_order, oe_status = Active, oe_discovered_at = 0, oe_updated_at = 1\<rparr>"
  by (simp add: sample_book_def OrderBook_defs OrderBook_new_def sample_order_def)

theorem order_lifecycle_safety_witness:
  "\<exists>b. book_status (fst (OrderBook_mark_filled 7 2 sample_book)) 7 = Some b \<and> order_trans\<^sup>*\<^sup>* Active b \<and>
    (Active \<in> {Filled, Expired, Cancelled} \<longrightarrow> b = Active)"
proof -
  have "book_step\<^sup>*\<^sup>* sample_book (fst (OrderBook_mark_filled 7 2 sample_book))"
    by (blast intro: book_step.filled)
  then show ?thesis
    by (rule order_lifecycle_safety) (simp add: book_status_def sample_book_entry)
qed

theorem insert_contract_witness:
  "OrderBook_insert sample_order 9 sample_book =
    (sample_book, Inl (OrderAlreadyExists (Fmt ''{}'' [Hash 7])))"
proof -
  have "book_wf sample_book"
    unfolding sample_book_def OrderBook_activate_def
    by (intro book_wf_transition book_wf_insert book_wf_new)
  from insert_contract [OF this, of sample_order 9] show ?thesis
    using sample_book_entry by (simp add: OrderBook_get_def sample_order_def)
qed

theorem transition_contract_witness:
  "OrderBook_activate 7 5 sample_book = (sample_book, Inl (InvalidTransition ''Active'' ''Active''))"
  using transition_contract [where f = OrderBook_activate and required = Pending and target = Active
      and i = 7 and book = sample_book and now = 5] sample_book_entry
  by (simp add: OrderBook_get_def)

theorem cleanup_expired_correct_witness:
  "snd (OrderBook_cleanup_expired (1801 * nanos_per_sec) sample_book) = 1
   \<and> OrderBook_active_count (fst (OrderBook_cleanup_expired (1801 * nanos_per_sec) sample_book)) = 0"
proof -
  have "OrderBook_active_count sample_book = 1"
    by (simp add: sample_book_def OrderBook_defs OrderBook_new_def OrderBook_active_count_def
        sample_order_def dm_get_def dm_insert_def dm_iter_def)
  moreover have "snd (OrderBook_cleanup_expired (1801 * nanos_per_sec) sample_book) = 1"
    by (simp add: sample_book_def OrderBook_defs OrderBook_new_def OrderBook_cleanup_expired_def
        sample_order_def dm_get_def dm_insert_def dm_iter_def DutchAuctionOrder_is_expired_def
        nanos_per_sec_def)
  ultimately show ?thesis
    using cleanup_expired_correct [of "1801 * nanos_per_sec" sample_book]
    by (simp add: Let_def case_prod_unfold)
qed

end
