(* ===== verification/Nonce_Manager.thy ===== *)
theory Nonce_Manager
  imports Types
begin

text \<open>
  The nonce manager (\<open>phantom-execution/src/nonce.rs\<close>).  Every operation of \<open>NonceManager\<close> is a
  function of its state; the answer of \<open>eth_getTransactionCount\<close> is an argument.  The slow path
  of \<open>get_next_nonce\<close> is several map accesses with an await point between them, so the theory
  also has a step relation in which any number of tasks run \<open>get_next_nonce\<close> interleaved, and
  shows that no two of them get the same nonce.
\<close>

section \<open>State and operations\<close>

record nonce_key =
  nk_address :: address
  nk_chain_id :: u64

record nonce_config =
  nc_max_pending_per_address :: u64

definition NonceConfig_default :: nonce_config where
  "NonceConfig_default = \<lparr>nc_max_pending_per_address = 16\<rparr>"

record nonce_manager =
  nm_nonces :: "(nonce_key, u64) dashmap"
  nm_confirmed :: "(nonce_key, u64) dashmap"
  nm_config :: nonce_config

definition NonceManager_new :: "nonce_config \<Rightarrow> nonce_manager" where
  "NonceManager_new config = \<lparr>nm_nonces = dm_empty, nm_confirmed = dm_empty, nm_config = config\<rparr>"

definition NonceManager_with_defaults :: nonce_manager where
  "NonceManager_with_defaults = NonceManager_new NonceConfig_default"

definition mk_nonce_key :: "address \<Rightarrow> u64 \<Rightarrow> nonce_key" where
  "mk_nonce_key address chain = \<lparr>nk_address = address, nk_chain_id = chain\<rparr>"

abbreviation unwrap_or_0 :: "u64 option \<Rightarrow> u64" where
  "unwrap_or_0 x \<equiv> case x of None \<Rightarrow> 0 | Some v \<Rightarrow> v"

text \<open>The fast path: the key is tracked with nonce \<open>nonce\<close>.\<close>

definition NonceManager_fast_path ::
    "nonce_key \<Rightarrow> u64 \<Rightarrow> nonce_manager \<Rightarrow> nonce_manager \<times> (execution_error + u64)" where
  "NonceManager_fast_path key nonce nm =
     (let confirmed = unwrap_or_0 (dm_get key (nm_confirmed nm));
          pending = sat_sub nonce confirmed
      in if nc_max_pending_per_address (nm_config nm) \<le> pending
         then (nm, Inl (NonceError (Fmt ''pending nonce limit reached ({pending}/{}) for {address} on chain {chain_id}''
                 [Num (uint pending), Num (uint (nc_max_pending_per_address (nm_config nm))),
                  Addr (nk_address key), Num (uint (nk_chain_id key))])))
         else (nm\<lparr>nm_nonces := dm_insert key (nonce + 1) (nm_nonces nm)\<rparr>, Inr nonce))"

text \<open>\<open>entry(key).and_modify(..).or_insert(on_chain)\<close>: the closure of \<open>and_modify\<close> only logs.\<close>

definition NonceManager_init_entry :: "nonce_key \<Rightarrow> u64 \<Rightarrow> nonce_manager \<Rightarrow> nonce_manager" where
  "NonceManager_init_entry key on_chain nm =
     (case dm_get key (nm_nonces nm) of
        Some _ \<Rightarrow> nm
      | None \<Rightarrow> nm\<lparr>nm_nonces := dm_insert key on_chain (nm_nonces nm)\<rparr>)"

definition NonceManager_assign ::
    "nonce_key \<Rightarrow> u64 \<Rightarrow> nonce_manager \<Rightarrow> nonce_manager \<times> (execution_error + u64)" where
  "NonceManager_assign key on_chain nm =
     (case dm_get key (nm_nonces nm) of
        Some assigned \<Rightarrow>
          (nm\<lparr>nm_nonces := dm_insert key (assigned + 1) (nm_nonces nm),
              nm_confirmed := (case dm_get key (nm_confirmed nm) of
                  Some _ \<Rightarrow> nm_confirmed nm
                | None \<Rightarrow> dm_insert key on_chain (nm_confirmed nm))\<rparr>, Inr assigned)
      | None \<Rightarrow> (nm, Inl (NonceError (lit ''unexpected nonce state after initialization''))))"

text \<open>\<open>tx_count\<close> is the provider's answer to \<open>get_transaction_count\<close>: an error text or a count.\<close>

definition NonceManager_fetch_nonce :: "string + u64 \<Rightarrow> execution_error + u64" where
  "NonceManager_fetch_nonce tx_count =
     (case tx_count of
        Inl e \<Rightarrow> Inl (NonceError (Fmt ''failed to fetch nonce: {e}'' [Str e]))
      | Inr n \<Rightarrow> Inr n)"

definition NonceManager_get_next_nonce ::
    "address \<Rightarrow> u64 \<Rightarrow> string + u64 \<Rightarrow> nonce_manager \<Rightarrow> nonce_manager \<times> (execution_error + u64)" where
  "NonceManager_get_next_nonce address chain tx_count nm =
     (let key = mk_nonce_key address chain in
      case dm_get key (nm_nonces nm) of
        Some nonce \<Rightarrow> NonceManager_fast_path key nonce nm
      | None \<Rightarrow>
          (case NonceManager_fetch_nonce tx_count of
             Inl e \<Rightarrow> (nm, Inl e)
           | Inr on_chain \<Rightarrow>
               NonceManager_assign key on_chain (NonceManager_init_entry key on_chain nm)))"

definition NonceManager_sync_nonce ::
    "address \<Rightarrow> u64 \<Rightarrow> string + u64 \<Rightarrow> nonce_manager \<Rightarrow> nonce_manager \<times> (execution_error + u64)" where
  "NonceManager_sync_nonce address chain tx_count nm =
     (case NonceManager_fetch_nonce tx_count of
        Inl e \<Rightarrow> (nm, Inl e)
      | Inr on_chain \<Rightarrow>
          (let key = mk_nonce_key address chain in
           (nm\<lparr>nm_nonces := dm_insert key on_chain (nm_nonces nm),
               nm_confirmed := dm_insert key on_chain (nm_confirmed nm)\<rparr>, Inr on_chain)))"

definition NonceManager_current_nonce :: "address \<Rightarrow> u64 \<Rightarrow> nonce_manager \<Rightarrow> u64 option" where
  "NonceManager_current_nonce address chain nm = dm_get (mk_nonce_key address chain) (nm_nonces nm)"

definition NonceManager_pending_count :: "address \<Rightarrow> u64 \<Rightarrow> nonce_manager \<Rightarrow> u64" where
  "NonceManager_pending_count address chain nm =
     (let key = mk_nonce_key address chain;
          current = unwrap_or_0 (dm_get key (nm_nonces nm));
          confirmed = unwrap_or_0 (dm_get key (nm_confirmed nm))
      in sat_sub current confirmed)"

definition NonceManager_confirm_nonce ::
    "address \<Rightarrow> u64 \<Rightarrow> u64 \<Rightarrow> nonce_manager \<Rightarrow> nonce_manager" where
  "NonceManager_confirm_nonce address chain nonce nm =
     (let key = mk_nonce_key address chain in
      nm\<lparr>nm_confirmed := (case dm_get key (nm_confirmed nm) of
            Some confirmed \<Rightarrow> if confirmed < nonce + 1 then dm_insert key (nonce + 1) (nm_confirmed nm)
                              else nm_confirmed nm
          | None \<Rightarrow> dm_insert key (nonce + 1) (nm_confirmed nm))\<rparr>)"

definition NonceManager_reset :: "address \<Rightarrow> u64 \<Rightarrow> nonce_manager \<Rightarrow> nonce_manager" where
  "NonceManager_reset address chain nm =
     (let key = mk_nonce_key address chain in
      nm\<lparr>nm_nonces := dm_remove key (nm_nonces nm), nm_confirmed := dm_remove key (nm_confirmed nm)\<rparr>)"

definition NonceManager_tracked_count :: "nonce_manager \<Rightarrow> nat" where
  "NonceManager_tracked_count nm = dm_len (nm_nonces nm)"

definition NonceManager_is_empty :: "nonce_manager \<Rightarrow> bool" where
  "NonceManager_is_empty nm \<longleftrightarrow> dm_iter (nm_nonces nm) = []"

lemmas NonceManager_defs =
  NonceManager_fast_path_def NonceManager_init_entry_def NonceManager_assign_def
  NonceManager_fetch_nonce_def NonceManager_get_next_nonce_def NonceManager_sync_nonce_def
  NonceManager_current_nonce_def NonceManager_pending_count_def NonceManager_confirm_nonce_def
  NonceManager_reset_def

lemma mk_nonce_key_eq [simp]: "mk_nonce_key a c = mk_nonce_key a' c' \<longleftrightarrow> a = a' \<and> c = c'"
  by (simp add: mk_nonce_key_def)

section \<open>Sequential contract\<close>

text \<open>
  The contract of \<open>get_next_nonce\<close> on a tracked address and chain: it does not consult the
  provider; it hands out the current nonce and advances it by one exactly when fewer than the
  configured number of nonces is pending, and otherwise fails without changing anything.  On an
  untracked pair it hands out the on-chain count and tracks the next one, and a provider failure
  changes nothing.
\<close>

theorem get_next_nonce_contract:
  "(case NonceManager_current_nonce a c nm of
      Some n \<Rightarrow>
        if NonceManager_pending_count a c nm < nc_max_pending_per_address (nm_config nm)
        then snd (NonceManager_get_next_nonce a c r nm) = Inr n
          \<and> NonceManager_current_nonce a c (fst (NonceManager_get_next_nonce a c r nm)) = Some (n + 1)
        else \<exists>e. NonceManager_get_next_nonce a c r nm = (nm, Inl (NonceError e))
    | None \<Rightarrow>
        (case r of
           Inl e \<Rightarrow> NonceManager_get_next_nonce a c r nm =
             (nm, Inl (NonceError (Fmt ''failed to fetch nonce: {e}'' [Str e])))
         | Inr n \<Rightarrow> snd (NonceManager_get_next_nonce a c r nm) = Inr n
             \<and> NonceManager_current_nonce a c (fst (NonceManager_get_next_nonce a c r nm)) = Some (n + 1)))"
  by (auto simp: NonceManager_defs Let_def not_le split: option.splits sum.splits)








lemma sat_sub_antimono: "c \<le> c' \<Longrightarrow> unat (sat_sub n c') \<le> unat (sat_sub n c)"
  by (simp add: unat_simps word_le_nat_alt)









text \<open>
  Confirming is monotone: the confirmed baseline of a pair never moves backwards, whatever
  order the confirmations arrive in, it ends at least one above the confirmed nonce (below the
  end of the 64-bit range), the current nonces are untouched, and so a confirmation never
  increases the pending count of any pair.
\<close>

theorem confirm_nonce_monotone:
  "(\<forall>key. nm_nonces (NonceManager_confirm_nonce a c n nm) = nm_nonces nm
     \<and> unwrap_or_0 (dm_get key (nm_confirmed nm))
         \<le> unwrap_or_0 (dm_get key (nm_confirmed (NonceManager_confirm_nonce a c n nm))))
   \<and> n + 1 \<le> unwrap_or_0 (dm_get (mk_nonce_key a c) (nm_confirmed (NonceManager_confirm_nonce a c n nm)))
   \<and> NonceManager_pending_count a' c' (NonceManager_confirm_nonce a c n nm)
       \<le> NonceManager_pending_count a' c' nm"
  by (auto simp: NonceManager_defs Let_def unat_simps word_le_nat_alt word_less_nat_alt split: option.splits)

section \<open>Concurrent callers\<close>

text \<open>
  Any number of tasks call \<open>get_next_nonce\<close>.  A task on the slow path goes through an await
  (\<open>Fetching\<close>), the atomic \<open>entry\<close> access (\<open>Initialising\<close>) and the atomic \<open>get_mut\<close> access
  (\<open>Assigning\<close>); the fast path is one atomic access.  Confirmations may happen at any moment.
  \<open>ns_issued\<close> records the nonces handed out, in order.
\<close>

datatype nonce_task = NIdle | Fetching nonce_key | Initialising nonce_key u64 | Assigning nonce_key u64

record nonce_sys =
  ns_manager :: nonce_manager
  ns_tasks :: "nat \<Rightarrow> nonce_task"
  ns_issued :: "(nonce_key \<times> u64) list"

definition nonce_sys_init :: "nonce_config \<Rightarrow> nonce_sys" where
  "nonce_sys_init config = \<lparr>ns_manager = NonceManager_new config, ns_tasks = (\<lambda>_. NIdle), ns_issued = []\<rparr>"

definition record_result :: "nonce_key \<Rightarrow> nonce_manager \<times> (execution_error + u64) \<Rightarrow> nonce_sys \<Rightarrow> nonce_sys" where
  "record_result key res s = s\<lparr>ns_manager := fst res,
     ns_issued := ns_issued s @ (case snd res of Inl _ \<Rightarrow> [] | Inr n \<Rightarrow> [(key, n)])\<rparr>"

inductive nonce_sys_step :: "nonce_sys \<Rightarrow> nonce_sys \<Rightarrow> bool" where
  fast: "ns_tasks s t = NIdle \<Longrightarrow> dm_get key (nm_nonces (ns_manager s)) = Some n \<Longrightarrow>
    nonce_sys_step s (record_result key (NonceManager_fast_path key n (ns_manager s)) s)"
| slow: "ns_tasks s t = NIdle \<Longrightarrow> dm_get key (nm_nonces (ns_manager s)) = None \<Longrightarrow>
    nonce_sys_step s (s\<lparr>ns_tasks := (ns_tasks s)(t := Fetching key)\<rparr>)"
| fetch_failed: "ns_tasks s t = Fetching key \<Longrightarrow>
    nonce_sys_step s (s\<lparr>ns_tasks := (ns_tasks s)(t := NIdle)\<rparr>)"
| fetched: "ns_tasks s t = Fetching key \<Longrightarrow>
    nonce_sys_step s (s\<lparr>ns_tasks := (ns_tasks s)(t := Initialising key on_chain)\<rparr>)"
| initialise: "ns_tasks s t = Initialising key on_chain \<Longrightarrow>
    nonce_sys_step s (s\<lparr>ns_tasks := (ns_tasks s)(t := Assigning key on_chain),
      ns_manager := NonceManager_init_entry key on_chain (ns_manager s)\<rparr>)"
| assign: "ns_tasks s t = Assigning key on_chain \<Longrightarrow>
    nonce_sys_step s (record_result key (NonceManager_assign key on_chain (ns_manager s))
      (s\<lparr>ns_tasks := (ns_tasks s)(t := NIdle)\<rparr>))"
| confirm: "nonce_sys_step s (s\<lparr>ns_manager := NonceManager_confirm_nonce a c n (ns_manager s)\<rparr>)"

definition issued_for :: "nonce_key \<Rightarrow> nonce_sys \<Rightarrow> u64 list" where
  "issued_for key s = map snd (filter (\<lambda>e. fst e = key) (ns_issued s))"

text \<open>The nonces \<open>start\<close>, \<open>start + 1\<close>, and so on, \<open>m\<close> of them.\<close>

definition consecutive :: "u64 \<Rightarrow> nat \<Rightarrow> u64 list" where
  "consecutive start m = map (\<lambda>i. start + of_nat i) [0..<m]"

lemma consecutive_Suc: "consecutive start (Suc m) = consecutive start m @ [start + of_nat m]"
  by (simp add: consecutive_def)

lemma length_consecutive [simp]: "length (consecutive start m) = m"
  by (simp add: consecutive_def)

lemma consecutive_Nil [simp]: "consecutive start m = [] \<longleftrightarrow> m = 0" "consecutive start 0 = []"
  by (simp_all add: consecutive_def)

lemma distinct_consecutive: "m \<le> 2 ^ 64 \<Longrightarrow> distinct (consecutive start m)"
  by (auto simp: consecutive_def distinct_map inj_on_def word_of_nat_eq_iff take_bit_eq_mod)

definition nonce_sys_inv :: "nonce_sys \<Rightarrow> bool" where
  "nonce_sys_inv s \<longleftrightarrow>
     (\<forall>key. (case dm_get key (nm_nonces (ns_manager s)) of
         None \<Rightarrow> issued_for key s = []
       | Some cur \<Rightarrow> \<exists>start m. issued_for key s = consecutive start m \<and> cur = start + of_nat m))
   \<and> (\<forall>t key n. ns_tasks s t = Assigning key n \<longrightarrow> dm_get key (nm_nonces (ns_manager s)) \<noteq> None)"

lemma nonce_sys_inv_init: "nonce_sys_inv (nonce_sys_init config)"
  by (simp add: nonce_sys_inv_def nonce_sys_init_def NonceManager_new_def issued_for_def)


lemma issued_for_record: "issued_for key' (record_result key res s) =
    issued_for key' s @ (case snd res of Inl _ \<Rightarrow> [] | Inr n \<Rightarrow> if key' = key then [n] else [])"
  by (auto simp: issued_for_def record_result_def split: sum.splits)

lemma issued_for_frame [simp]:
  "issued_for key (s\<lparr>ns_tasks := ts\<rparr>) = issued_for key s"
  "issued_for key (s\<lparr>ns_manager := nm\<rparr>) = issued_for key s"
  by (simp_all add: issued_for_def)

lemma record_result_fields [simp]:
  "ns_manager (record_result key res s) = fst res"
  "ns_tasks (record_result key res s) = ns_tasks s"
  by (simp_all add: record_result_def)

definition key_inv :: "nonce_sys \<Rightarrow> nonce_key \<Rightarrow> bool" where
  "key_inv s key \<longleftrightarrow> (case dm_get key (nm_nonces (ns_manager s)) of
      None \<Rightarrow> issued_for key s = []
    | Some cur \<Rightarrow> \<exists>start m. issued_for key s = consecutive start m \<and> cur = start + of_nat m)"

lemma nonce_sys_inv_alt: "nonce_sys_inv s \<longleftrightarrow> (\<forall>key. key_inv s key)
   \<and> (\<forall>t key n. ns_tasks s t = Assigning key n \<longrightarrow> dm_get key (nm_nonces (ns_manager s)) \<noteq> None)"
  by (simp add: nonce_sys_inv_def key_inv_def)

lemma key_inv_frame:
  "dm_get key (nm_nonces (ns_manager s')) = dm_get key (nm_nonces (ns_manager s)) \<Longrightarrow>
   issued_for key s' = issued_for key s \<Longrightarrow> key_inv s key \<Longrightarrow> key_inv s' key"
  by (simp only: key_inv_def)

lemma key_inv_issue:
  assumes "key_inv s key" "dm_get key (nm_nonces (ns_manager s)) = Some cur"
    and "dm_get key (nm_nonces (ns_manager s')) = Some (cur + 1)"
    and "issued_for key s' = issued_for key s @ [cur]"
  shows "key_inv s' key"
proof -
  from assms(1,2) obtain start m where "issued_for key s = consecutive start m" "cur = start + of_nat m"
    by (auto simp: key_inv_def)
  then have "issued_for key s' = consecutive start (Suc m)" "cur + 1 = start + of_nat (Suc m)"
    using assms(4) by (simp_all add: consecutive_Suc)
  then have "\<exists>start m. issued_for key s' = consecutive start m \<and> cur + 1 = start + of_nat m" by blast
  with assms(3) show ?thesis by (simp add: key_inv_def)
qed

lemma fast_path_cases:
  obtains (limit) e where "NonceManager_fast_path key n nm = (nm, Inl e)"
  | (issue) "NonceManager_fast_path key n nm =
      (nm\<lparr>nm_nonces := dm_insert key (n + 1) (nm_nonces nm)\<rparr>, Inr n)"
proof (cases "nc_max_pending_per_address (nm_config nm)
    \<le> sat_sub n (unwrap_or_0 (dm_get key (nm_confirmed nm)))")
  case True
  then show thesis by (intro limit) (simp add: NonceManager_fast_path_def Let_def)
next
  case False
  then show thesis by (intro issue) (simp add: NonceManager_fast_path_def Let_def)
qed

lemma nonce_sys_inv_key: "nonce_sys_inv s \<Longrightarrow> key_inv s key"
  by (simp add: nonce_sys_inv_alt)

lemma nonce_sys_inv_assigning: "nonce_sys_inv s \<Longrightarrow> ns_tasks s t = Assigning key n \<Longrightarrow>
    \<exists>cur. dm_get key (nm_nonces (ns_manager s)) = Some cur"
  unfolding nonce_sys_inv_alt by blast

text \<open>A step that hands out the tracked nonce of \<open>key\<close> keeps the run of every key.\<close>

lemma key_inv_record:
  assumes "key_inv s key'" "dm_get key (nm_nonces (ns_manager s)) = Some cur"
    and "snd res = Inr cur" "nm_nonces (fst res) = dm_insert key (cur + 1) (nm_nonces (ns_manager s))"
    and "issued_for key' s0 = issued_for key' s"
  shows "key_inv (record_result key res s0) key'"
proof (cases "key' = key")
  case True
  with assms show ?thesis
    by - (rule key_inv_issue [of s _ cur], simp_all add: issued_for_record)
next
  case False
  with assms show ?thesis
    by - (rule key_inv_frame [of _ _ s], simp_all add: issued_for_record)
qed

text \<open>Initialising an entry starts an empty run of its key at the on-chain count.\<close>

lemma key_inv_init:
  assumes "key_inv s key'" "ns_manager s' = NonceManager_init_entry key n (ns_manager s)"
    and "issued_for key' s' = issued_for key' s"
  shows "key_inv s' key'"
proof (cases "key' = key \<and> dm_get key (nm_nonces (ns_manager s)) = None")
  case True
  with assms have "issued_for key' s' = consecutive n 0" "dm_get key' (nm_nonces (ns_manager s')) = Some n"
    by (simp_all add: key_inv_def NonceManager_init_entry_def)
  moreover have "n = n + of_nat 0" by simp
  ultimately show ?thesis
    unfolding key_inv_def by (simp only: option.simps) blast
next
  case False
  with assms show ?thesis
    by - (rule key_inv_frame [of _ _ s], auto simp: NonceManager_init_entry_def split: option.splits)
qed

lemma nonce_sys_step_inv: "nonce_sys_step s s' \<Longrightarrow> nonce_sys_inv s \<Longrightarrow> nonce_sys_inv s'"
proof (induction rule: nonce_sys_step.induct)
  case (fast s t key n)
  show ?case
  proof (cases rule: fast_path_cases [of key n "ns_manager s"])
    case (limit e)
    then have "record_result key (NonceManager_fast_path key n (ns_manager s)) s = s"
      by (simp add: record_result_def)
    with fast show ?thesis by simp
  next
    case issue
    then have "key_inv (record_result key (NonceManager_fast_path key n (ns_manager s)) s) key'" for key'
      using fast.hyps nonce_sys_inv_key [OF fast.prems] by - (rule key_inv_record, simp_all)
    with fast issue show ?thesis
      by (auto simp: nonce_sys_inv_alt)
  qed
next
  case (initialise s t key n)
  let ?s' = "s\<lparr>ns_tasks := (ns_tasks s)(t := Assigning key n),
      ns_manager := NonceManager_init_entry key n (ns_manager s)\<rparr>"
  have "key_inv ?s' key'" for key'
    using nonce_sys_inv_key [OF initialise.prems, of key'] by (rule key_inv_init) simp_all
  moreover have "dm_get key' (nm_nonces (ns_manager s)) \<noteq> None \<Longrightarrow>
      dm_get key' (nm_nonces (ns_manager ?s')) \<noteq> None" for key'
    by (auto simp: NonceManager_init_entry_def split: option.splits)
  moreover have "dm_get key (nm_nonces (ns_manager ?s')) \<noteq> None"
    by (auto simp: NonceManager_init_entry_def split: option.splits)
  ultimately show ?case
    using initialise.prems by (auto simp: nonce_sys_inv_alt split: if_splits)
next
  case (assign s t key n)
  then obtain cur where cur: "dm_get key (nm_nonces (ns_manager s)) = Some cur"
    using nonce_sys_inv_assigning by blast
  then have "key_inv (record_result key (NonceManager_assign key n (ns_manager s))
      (s\<lparr>ns_tasks := (ns_tasks s)(t := NIdle)\<rparr>)) key'" for key'
    using nonce_sys_inv_key [OF assign.prems] by - (rule key_inv_record, simp_all add: NonceManager_assign_def)
  with assign cur show ?case
    by (auto simp: nonce_sys_inv_alt NonceManager_assign_def)
next
  case (confirm s a c n)
  then show ?case
    by (auto simp: nonce_sys_inv_alt NonceManager_confirm_nonce_def Let_def intro: key_inv_frame [of _ _ s])
qed (auto simp: nonce_sys_inv_alt intro: key_inv_frame split: if_splits)

lemma nonce_sys_reachable_inv: "nonce_sys_step\<^sup>*\<^sup>* (nonce_sys_init config) s \<Longrightarrow> nonce_sys_inv s"
  by (induction rule: rtranclp_induct) (auto intro: nonce_sys_inv_init nonce_sys_step_inv)

lemma distinct_by_key:
  "\<forall>k. distinct (map snd (filter (\<lambda>e. fst e = k) xs)) \<Longrightarrow> distinct xs"
proof (induction xs)
  case Nil
  then show ?case by simp
next
  case (Cons e xs)
  then have "\<forall>k. distinct (map snd (filter (\<lambda>e. fst e = k) xs))"
    by (metis (mono_tags, lifting) distinct.simps(2) filter.simps(2) list.simps(9))
  moreover have "e \<notin> set xs"
    using Cons.prems [rule_format, of "fst e"] by (auto simp: image_iff)
  ultimately show ?case using Cons.IH by simp
qed

text \<open>
  C4: No two concurrent callers of \<open>get_next_nonce\<close> receive the same nonce.  In every
  interleaving of any number of callers and confirmations, from a new manager, the nonces handed
  out for an address and chain are consecutive, without gaps or repetitions, up to the current
  nonce; so all assignments are different (the number of assignments being at most \<open>2 ^ 64\<close>, the
  size of the nonce range), and the error of the branch that "should never happen" is not returned.
\<close>

theorem concurrent_nonces_unique:
  assumes "nonce_sys_step\<^sup>*\<^sup>* (nonce_sys_init config) s"
    and "length (ns_issued s) \<le> 2 ^ 64"
  shows "distinct (ns_issued s)
    \<and> (\<forall>key. \<exists>start m. issued_for key s = consecutive start m
        \<and> (issued_for key s = [] \<or> dm_get key (nm_nonces (ns_manager s)) = Some (start + of_nat m)))
    \<and> (\<forall>t key n. ns_tasks s t = Assigning key n \<longrightarrow>
        snd (NonceManager_assign key n (ns_manager s)) \<noteq>
          Inl (NonceError (lit ''unexpected nonce state after initialization'')))"
proof -
  have inv: "nonce_sys_inv s" using assms(1) by (rule nonce_sys_reachable_inv)
  have run: "\<exists>start m. issued_for key s = consecutive start m
      \<and> (issued_for key s = [] \<or> dm_get key (nm_nonces (ns_manager s)) = Some (start + of_nat m))" for key
  proof (cases "dm_get key (nm_nonces (ns_manager s))")
    case None
    moreover have "key_inv s key" using inv by (rule nonce_sys_inv_key)
    ultimately have "issued_for key s = consecutive 0 0" by (simp add: key_inv_def)
    then show ?thesis by (intro exI [of _ 0]) simp
  next
    case (Some cur)
    moreover have "key_inv s key" using inv by (rule nonce_sys_inv_key)
    ultimately show ?thesis by (auto simp: key_inv_def)
  qed
  have "distinct (issued_for key s)" for key
  proof -
    from run [of key] obtain start m where m: "issued_for key s = consecutive start m" by blast
    then have "m = length (issued_for key s)" by simp
    also have "\<dots> \<le> length (ns_issued s)" by (simp add: issued_for_def)
    also have "\<dots> \<le> 2 ^ 64" by (rule assms(2))
    finally show ?thesis by (simp add: m distinct_consecutive)
  qed
  then have "distinct (ns_issued s)"
    by (intro distinct_by_key) (simp add: issued_for_def)
  moreover have "ns_tasks s t = Assigning key n \<Longrightarrow>
      snd (NonceManager_assign key n (ns_manager s)) \<noteq>
        Inl (NonceError (lit ''unexpected nonce state after initialization''))" for t key n
  proof -
    assume "ns_tasks s t = Assigning key n"
    then obtain cur where "dm_get key (nm_nonces (ns_manager s)) = Some cur"
      using nonce_sys_inv_assigning [OF inv] by blast
    then show ?thesis by (simp add: NonceManager_assign_def)
  qed
  ultimately show ?thesis using run by blast
qed


text \<open>Two tasks race on the slow path for the same fresh pair and get 40 and 41.\<close>

theorem concurrent_nonces_unique_witness:
  "\<exists>s. nonce_sys_step\<^sup>*\<^sup>* (nonce_sys_init NonceConfig_default) s
    \<and> ns_issued s = [(mk_nonce_key 5 1, 40), (mk_nonce_key 5 1, 41)] \<and> distinct (ns_issued s)"
proof -
  let ?k = "mk_nonce_key 5 1" and ?s0 = "nonce_sys_init NonceConfig_default"
  let ?s1 = "?s0\<lparr>ns_tasks := (ns_tasks ?s0)(0 := Fetching ?k)\<rparr>"
  let ?s2 = "?s1\<lparr>ns_tasks := (ns_tasks ?s1)(1 := Fetching ?k)\<rparr>"
  let ?s3 = "?s2\<lparr>ns_tasks := (ns_tasks ?s2)(0 := Initialising ?k 40)\<rparr>"
  let ?s4 = "?s3\<lparr>ns_tasks := (ns_tasks ?s3)(1 := Initialising ?k 40)\<rparr>"
  let ?s5 = "?s4\<lparr>ns_tasks := (ns_tasks ?s4)(0 := Assigning ?k 40),
    ns_manager := NonceManager_init_entry ?k 40 (ns_manager ?s4)\<rparr>"
  let ?s6 = "record_result ?k (NonceManager_assign ?k 40 (ns_manager ?s5)) (?s5\<lparr>ns_tasks := (ns_tasks ?s5)(0 := NIdle)\<rparr>)"
  let ?s7 = "?s6\<lparr>ns_tasks := (ns_tasks ?s6)(1 := Assigning ?k 40),
    ns_manager := NonceManager_init_entry ?k 40 (ns_manager ?s6)\<rparr>"
  let ?s8 = "record_result ?k (NonceManager_assign ?k 40 (ns_manager ?s7)) (?s7\<lparr>ns_tasks := (ns_tasks ?s7)(1 := NIdle)\<rparr>)"
  have "nonce_sys_step ?s0 ?s1" "nonce_sys_step ?s1 ?s2"
    by (rule nonce_sys_step.slow, simp add: nonce_sys_init_def,
        simp add: nonce_sys_init_def NonceManager_new_def)+
  moreover have "nonce_sys_step ?s2 ?s3" "nonce_sys_step ?s3 ?s4"
    by (rule nonce_sys_step.fetched [where key = ?k], simp)+
  moreover have "nonce_sys_step ?s4 ?s5"
    by (rule nonce_sys_step.initialise) simp
  moreover have "nonce_sys_step ?s5 ?s6"
    by (rule nonce_sys_step.assign) simp
  moreover have "nonce_sys_step ?s6 ?s7"
    by (rule nonce_sys_step.initialise) simp
  moreover have "nonce_sys_step ?s7 ?s8"
    by (rule nonce_sys_step.assign) simp
  ultimately have run: "nonce_sys_step\<^sup>*\<^sup>* ?s0 ?s8"
    by (meson converse_rtranclp_into_rtranclp rtranclp.rtrancl_refl)
  have issued: "ns_issued ?s8 = [(?k, 40), (?k, 41)]"
    by (simp add: record_result_def NonceManager_assign_def NonceManager_init_entry_def
        nonce_sys_init_def NonceManager_new_def)
  have "distinct (ns_issued ?s8)"
    using concurrent_nonces_unique [OF run] issued by simp
  with run issued show ?thesis by blast
qed

text \<open>
  The slow path does not check the pending limit, so tasks that race on it overshoot: with a
  limit of one, two of them leave two nonces pending.
\<close>

lemma slow_path_overshoots_limit:
  "(let k = mk_nonce_key 5 1;
        nm = NonceManager_init_entry k 40 (NonceManager_new \<lparr>nc_max_pending_per_address = 1\<rparr>);
        nm' = fst (NonceManager_assign k 40 (NonceManager_init_entry k 40 (fst (NonceManager_assign k 40 nm))))
    in NonceManager_pending_count 5 1 nm' = 2)"
  by (simp add: Let_def NonceManager_assign_def NonceManager_init_entry_def NonceManager_new_def
      NonceManager_pending_count_def sat_sub_def)

end
