(* ===== verification/Confirmation.thy ===== *)
theory Confirmation
  imports Types
begin

text \<open>
  The confirmation monitor (\<open>phantom-settlement/src/confirmation.rs\<close>): tracked transactions and
  their way from \<open>Pending\<close> through \<open>Included\<close> to one of the final statuses.  \<open>now\<close> is
  \<open>current_timestamp()\<close>; the answers of \<open>get_transaction_receipt\<close> and \<open>get_block_number\<close> are
  arguments, each an error text or a value.
\<close>

section \<open>State and operations\<close>

record confirmation_config =
  cc_required_confirmations :: u64
  cc_timeout_ms :: u64
  cc_max_tracked :: nat

definition ConfirmationConfig_default :: confirmation_config where
  "ConfirmationConfig_default =
     \<lparr>cc_required_confirmations = 2, cc_timeout_ms = 120000, cc_max_tracked = 1000\<rparr>"

datatype tx_status = TxPending | TxIncluded | TxConfirmed | TxReverted | TxDropped

record tx_record =
  tr_tx_hash :: b256
  tr_chain_id :: u64
  tr_from :: address
  tr_status :: tx_status
  tr_block_number :: "u64 option"
  tr_confirmations :: u64
  tr_submitted_at :: u64
  tr_updated_at :: u64
  tr_gas_used :: "u64 option"
  tr_execution_success :: "bool option"

definition TxRecord_is_final :: "tx_record \<Rightarrow> bool" where
  "TxRecord_is_final r \<longleftrightarrow> tr_status r \<in> {TxConfirmed, TxReverted, TxDropped}"

definition TxRecord_is_pending :: "tx_record \<Rightarrow> bool" where
  "TxRecord_is_pending r \<longleftrightarrow> tr_status r \<in> {TxPending, TxIncluded}"

record confirmation_monitor =
  cm_records :: "(b256, tx_record) dashmap"
  cm_config :: confirmation_config

text \<open>What the monitor reads of a transaction receipt.\<close>

record receipt =
  rc_block_number :: "u64 option"
  rc_status :: bool
  rc_gas_used :: u64

definition ConfirmationMonitor_new :: "confirmation_config \<Rightarrow> confirmation_monitor" where
  "ConfirmationMonitor_new config = \<lparr>cm_records = dm_empty, cm_config = config\<rparr>"

definition ConfirmationMonitor_with_defaults :: confirmation_monitor where
  "ConfirmationMonitor_with_defaults = ConfirmationMonitor_new ConfirmationConfig_default"

definition ConfirmationMonitor_track_transaction ::
    "b256 \<Rightarrow> u64 \<Rightarrow> address \<Rightarrow> u64 \<Rightarrow> confirmation_monitor
      \<Rightarrow> confirmation_monitor \<times> (settlement_error + unit)" where
  "ConfirmationMonitor_track_transaction tx_hash chain sender now cm =
     (if cc_max_tracked (cm_config cm) \<le> dm_len (cm_records cm)
      then (cm, Inl (ConfirmationFailed (Fmt ''tracking limit reached (max {})''
              [Num (int (cc_max_tracked (cm_config cm)))])))
      else (cm\<lparr>cm_records := dm_insert tx_hash
              \<lparr>tr_tx_hash = tx_hash, tr_chain_id = chain, tr_from = sender, tr_status = TxPending,
               tr_block_number = None, tr_confirmations = 0, tr_submitted_at = now,
               tr_updated_at = now, tr_gas_used = None, tr_execution_success = None\<rparr>
              (cm_records cm)\<rparr>, Inr ()))"

text \<open>
  \<open>check_status\<close> on a tracked, non-final record: the new record, and the error if one of the two
  provider calls failed.  The record is updated in place, so what was written before a failing
  call stays.
\<close>

definition check_record ::
    "confirmation_config \<Rightarrow> u64 \<Rightarrow> string + receipt option \<Rightarrow> string + u64 \<Rightarrow> tx_record
      \<Rightarrow> tx_record \<times> settlement_error option" where
  "check_record config now receipt_answer block_answer r =
     (let elapsed_ms = sat_sub now (tr_submitted_at r) * 1000 in
      if cc_timeout_ms config < elapsed_ms
      then (r\<lparr>tr_status := TxDropped, tr_updated_at := now\<rparr>, None)
      else case receipt_answer of
        Inl e \<Rightarrow> (r, Some (ConfirmationFailed (Fmt ''receipt fetch failed: {e}'' [Str e])))
      | Inr None \<Rightarrow> (r\<lparr>tr_updated_at := now\<rparr>, None)
      | Inr (Some receipt) \<Rightarrow>
          (let tx_block = (case rc_block_number receipt of None \<Rightarrow> 0 | Some b \<Rightarrow> b);
               r1 = r\<lparr>tr_block_number := Some tx_block, tr_gas_used := Some (rc_gas_used receipt),
                      tr_execution_success := Some (rc_status receipt), tr_updated_at := now\<rparr>
           in if \<not> rc_status receipt then (r1\<lparr>tr_status := TxReverted\<rparr>, None)
              else case block_answer of
                Inl e \<Rightarrow> (r1, Some (ConfirmationFailed (Fmt ''block number fetch: {e}'' [Str e])))
              | Inr current_block \<Rightarrow>
                  (let confirmations = sat_sub current_block tx_block;
                       r2 = r1\<lparr>tr_confirmations := confirmations\<rparr>
                   in if cc_required_confirmations config \<le> confirmations
                      then (r2\<lparr>tr_status := TxConfirmed\<rparr>, None)
                      else (r2\<lparr>tr_status := TxIncluded\<rparr>, None))))"

definition ConfirmationMonitor_check_status ::
    "b256 \<Rightarrow> u64 \<Rightarrow> string + receipt option \<Rightarrow> string + u64 \<Rightarrow> confirmation_monitor
      \<Rightarrow> confirmation_monitor \<times> (settlement_error + tx_record)" where
  "ConfirmationMonitor_check_status tx_hash now receipt_answer block_answer cm =
     (case dm_get tx_hash (cm_records cm) of
        None \<Rightarrow> (cm, Inl (ConfirmationFailed (Fmt ''transaction not tracked: {tx_hash}'' [Hash tx_hash])))
      | Some r \<Rightarrow>
          if TxRecord_is_final r then (cm, Inr r)
          else (let (r', e) = check_record (cm_config cm) now receipt_answer block_answer r in
                (cm\<lparr>cm_records := dm_insert tx_hash r' (cm_records cm)\<rparr>,
                 case e of None \<Rightarrow> Inr r' | Some err \<Rightarrow> Inl err)))"

definition ConfirmationMonitor_get_record :: "b256 \<Rightarrow> confirmation_monitor \<Rightarrow> tx_record option" where
  "ConfirmationMonitor_get_record tx_hash cm = dm_get tx_hash (cm_records cm)"

definition ConfirmationMonitor_pending_transactions :: "confirmation_monitor \<Rightarrow> tx_record list" where
  "ConfirmationMonitor_pending_transactions cm =
     map snd (filter (\<lambda>(h, r). TxRecord_is_pending r) (dm_iter (cm_records cm)))"

definition ConfirmationMonitor_final_transactions :: "confirmation_monitor \<Rightarrow> tx_record list" where
  "ConfirmationMonitor_final_transactions cm =
     map snd (filter (\<lambda>(h, r). TxRecord_is_final r) (dm_iter (cm_records cm)))"

definition ConfirmationMonitor_remove_finalized ::
    "b256 \<Rightarrow> confirmation_monitor \<Rightarrow> confirmation_monitor \<times> tx_record option" where
  "ConfirmationMonitor_remove_finalized tx_hash cm =
     (case dm_get tx_hash (cm_records cm) of
        Some r \<Rightarrow> if TxRecord_is_final r
                  then (cm\<lparr>cm_records := dm_remove tx_hash (cm_records cm)\<rparr>, Some r)
                  else (cm, None)
      | None \<Rightarrow> (cm, None))"

definition ConfirmationMonitor_prune_finalized ::
    "confirmation_monitor \<Rightarrow> confirmation_monitor \<times> nat" where
  "ConfirmationMonitor_prune_finalized cm =
     (let to_remove = map fst (filter (\<lambda>(h, r). TxRecord_is_final r) (dm_iter (cm_records cm)))
      in (cm\<lparr>cm_records := dm_remove_all to_remove (cm_records cm)\<rparr>, length to_remove))"

definition ConfirmationMonitor_tracked_count :: "confirmation_monitor \<Rightarrow> nat" where
  "ConfirmationMonitor_tracked_count cm = dm_len (cm_records cm)"

definition ConfirmationMonitor_pending_count :: "confirmation_monitor \<Rightarrow> nat" where
  "ConfirmationMonitor_pending_count cm =
     length (filter (\<lambda>(h, r). TxRecord_is_pending r) (dm_iter (cm_records cm)))"

definition ConfirmationMonitor_is_empty :: "confirmation_monitor \<Rightarrow> bool" where
  "ConfirmationMonitor_is_empty cm \<longleftrightarrow> dm_iter (cm_records cm) = []"

lemmas ConfirmationMonitor_defs =
  ConfirmationMonitor_track_transaction_def ConfirmationMonitor_check_status_def
  ConfirmationMonitor_get_record_def ConfirmationMonitor_remove_finalized_def
  ConfirmationMonitor_prune_finalized_def

lemma final_iff_not_pending: "TxRecord_is_final r \<longleftrightarrow> \<not> TxRecord_is_pending r"
  by (cases "tr_status r") (simp_all add: TxRecord_is_final_def TxRecord_is_pending_def)

section \<open>What a check does to one record\<close>

text \<open>The possible moves of the status.\<close>

inductive tx_trans :: "tx_status \<Rightarrow> tx_status \<Rightarrow> bool" where
  "tx_trans TxPending TxIncluded"
| "tx_trans TxPending TxConfirmed"
| "tx_trans TxPending TxReverted"
| "tx_trans TxPending TxDropped"
| "tx_trans TxIncluded TxConfirmed"
| "tx_trans TxIncluded TxReverted"
| "tx_trans TxIncluded TxDropped"

code_pred tx_trans .


lemma tx_trans_target: "a \<in> {TxPending, TxIncluded} \<Longrightarrow> b \<in> {TxConfirmed, TxReverted, TxDropped} \<Longrightarrow> tx_trans a b"
  by (auto intro: tx_trans.intros)

text \<open>What the fields of a record say about its status, for the given confirmation threshold.\<close>

definition tx_record_ok :: "confirmation_config \<Rightarrow> b256 \<Rightarrow> tx_record \<Rightarrow> bool" where
  "tx_record_ok config h r \<longleftrightarrow> tr_tx_hash r = h \<and>
     (case tr_status r of
        TxPending \<Rightarrow> tr_execution_success r \<noteq> Some False
      | TxIncluded \<Rightarrow> tr_execution_success r = Some True \<and> tr_block_number r \<noteq> None
          \<and> tr_confirmations r < cc_required_confirmations config
      | TxConfirmed \<Rightarrow> tr_execution_success r = Some True \<and> tr_block_number r \<noteq> None
          \<and> cc_required_confirmations config \<le> tr_confirmations r
      | TxReverted \<Rightarrow> tr_execution_success r = Some False \<and> tr_block_number r \<noteq> None
      | TxDropped \<Rightarrow> tr_execution_success r \<noteq> Some False)"

lemma tx_record_ok_new:
  "tx_record_ok config h \<lparr>tr_tx_hash = h, tr_chain_id = c, tr_from = a, tr_status = TxPending,
     tr_block_number = None, tr_confirmations = 0, tr_submitted_at = now, tr_updated_at = now,
     tr_gas_used = None, tr_execution_success = None\<rparr>"
  by (simp add: tx_record_ok_def)

lemma check_record_ok:
  "TxRecord_is_pending r \<Longrightarrow> tx_record_ok config h r \<Longrightarrow>
   tx_record_ok config h (fst (check_record config now ra ba r))"
  by (auto simp: check_record_def tx_record_ok_def TxRecord_is_pending_def Let_def not_le
      split: sum.splits option.splits)



section \<open>Invariants of the monitor\<close>

inductive confirmation_step :: "confirmation_monitor \<Rightarrow> confirmation_monitor \<Rightarrow> bool" where
  track: "confirmation_step cm (fst (ConfirmationMonitor_track_transaction h c a now cm))"
| check: "confirmation_step cm (fst (ConfirmationMonitor_check_status h now ra ba cm))"
| remove: "confirmation_step cm (fst (ConfirmationMonitor_remove_finalized h cm))"
| prune: "confirmation_step cm (fst (ConfirmationMonitor_prune_finalized cm))"

definition monitor_inv :: "confirmation_monitor \<Rightarrow> bool" where
  "monitor_inv cm \<longleftrightarrow> dm_wf (cm_records cm) \<and>
     (\<forall>h r. dm_get h (cm_records cm) = Some r \<longrightarrow> tx_record_ok (cm_config cm) h r)"

lemma monitor_inv_new: "monitor_inv (ConfirmationMonitor_new config)"
  by (simp add: monitor_inv_def ConfirmationMonitor_new_def)

lemma confirmation_step_config: "confirmation_step cm cm' \<Longrightarrow> cm_config cm' = cm_config cm"
  by (induction rule: confirmation_step.induct)
    (auto simp: ConfirmationMonitor_defs Let_def case_prod_unfold split: option.splits)

lemma check_status_cases:
  obtains (none) e where "ConfirmationMonitor_check_status h now ra ba cm = (cm, Inl e)"
      "dm_get h (cm_records cm) = None"
  | (final) r where "ConfirmationMonitor_check_status h now ra ba cm = (cm, Inr r)"
      "dm_get h (cm_records cm) = Some r" "TxRecord_is_final r"
  | (update) r where "dm_get h (cm_records cm) = Some r" "TxRecord_is_pending r"
      "fst (ConfirmationMonitor_check_status h now ra ba cm) =
        cm\<lparr>cm_records := dm_insert h (fst (check_record (cm_config cm) now ra ba r)) (cm_records cm)\<rparr>"
proof (cases "dm_get h (cm_records cm)")
  case None
  then show thesis by (intro none) (simp_all add: ConfirmationMonitor_check_status_def)
next
  case (Some r)
  show thesis
  proof (cases "TxRecord_is_final r")
    case True
    with Some show thesis by (intro final) (simp_all add: ConfirmationMonitor_check_status_def)
  next
    case False
    with Some show thesis
      by (intro update) (simp_all add: ConfirmationMonitor_check_status_def final_iff_not_pending
          case_prod_unfold Let_def)
  qed
qed

lemma confirmation_step_inv: "confirmation_step cm cm' \<Longrightarrow> monitor_inv cm \<Longrightarrow> monitor_inv cm'"
proof (induction rule: confirmation_step.induct)
  case (track cm h c a now)
  then show ?case
    by (auto simp: monitor_inv_def ConfirmationMonitor_track_transaction_def tx_record_ok_new
        intro!: wf_intros split: if_splits)
next
  case (check cm h now ra ba)
  then show ?case
    by (cases rule: check_status_cases [of h now ra ba cm])
      (auto simp: monitor_inv_def check_record_ok intro!: wf_intros)
next
  case (remove cm h)
  then show ?case
    by (auto simp: monitor_inv_def ConfirmationMonitor_remove_finalized_def
        intro!: wf_intros split: option.splits if_splits)
next
  case (prune cm)
  then show ?case
    by (auto simp: monitor_inv_def ConfirmationMonitor_prune_finalized_def Let_def
        dm.get_prune intro!: wf_intros split: option.splits if_splits)
qed

lemma confirmation_step_size:
  "confirmation_step cm cm' \<Longrightarrow> monitor_inv cm \<Longrightarrow>
   ConfirmationMonitor_tracked_count cm' \<le> ConfirmationMonitor_tracked_count cm
   \<or> ConfirmationMonitor_tracked_count cm' \<le> cc_max_tracked (cm_config cm)"
proof (induction rule: confirmation_step.induct)
  case (track cm h c a now)
  then show ?case
    by (auto simp: ConfirmationMonitor_tracked_count_def ConfirmationMonitor_track_transaction_def
        monitor_inv_def dm.length_put)
next
  case (check cm h now ra ba)
  then show ?case
    by (cases rule: check_status_cases [of h now ra ba cm])
      (simp_all add: ConfirmationMonitor_tracked_count_def monitor_inv_def dm.length_put)
next
  case (remove cm h)
  then show ?case
    by (auto simp: ConfirmationMonitor_tracked_count_def ConfirmationMonitor_remove_finalized_def
        monitor_inv_def dm.length_remove_le split: option.splits)
next
  case (prune cm)
  then show ?case
    using dm.length_prune [of "cm_records cm" "\<lambda>(h, r). TxRecord_is_final r"]
    by (simp add: ConfirmationMonitor_tracked_count_def ConfirmationMonitor_prune_finalized_def
        monitor_inv_def Let_def)
qed

interpretation tracked: capped_store confirmation_step ConfirmationMonitor_tracked_count
  "\<lambda>cm. cc_max_tracked (cm_config cm)" monitor_inv
  by unfold_locales
    (use confirmation_step_config confirmation_step_inv confirmation_step_size in simp_all)

lemma confirmation_reachable:
  assumes "confirmation_step\<^sup>*\<^sup>* (ConfirmationMonitor_new config) cm"
  shows "monitor_inv cm \<and> cm_config cm = config
    \<and> ConfirmationMonitor_tracked_count cm \<le> cc_max_tracked config"
proof -
  have "cm_config cm = config"
    using assms by (induction rule: rtranclp_induct)
      (auto simp: ConfirmationMonitor_new_def confirmation_step_config)
  moreover have "ConfirmationMonitor_tracked_count (ConfirmationMonitor_new config) \<le> x" for x
    by (simp add: ConfirmationMonitor_tracked_count_def ConfirmationMonitor_new_def)
  ultimately show ?thesis
    using tracked.run_inv [OF assms monitor_inv_new] tracked.run_within_cap [OF assms monitor_inv_new]
    by metis
qed

text \<open>
  C12: Settlement statuses are justified.  Whatever operations ran, in whatever order and with
  whatever answers of the provider, a record reported as \<open>Confirmed\<close> belongs to a transaction whose
  receipt reported success and that had at least the required number of confirmations, a
  \<open>Reverted\<close> one had a receipt that reported failure, and an \<open>Included\<close> one succeeded but is short
  of confirmations; and never are more than \<open>max_tracked\<close> transactions tracked.
\<close>

theorem settlement_status_justified:
  assumes "confirmation_step\<^sup>*\<^sup>* (ConfirmationMonitor_new config) cm"
    and "ConfirmationMonitor_get_record h cm = Some r"
  shows "tr_tx_hash r = h
    \<and> (tr_status r = TxConfirmed \<longrightarrow> tr_execution_success r = Some True \<and> tr_block_number r \<noteq> None
        \<and> cc_required_confirmations config \<le> tr_confirmations r)
    \<and> (tr_status r = TxIncluded \<longrightarrow> tr_execution_success r = Some True \<and> tr_block_number r \<noteq> None
        \<and> tr_confirmations r < cc_required_confirmations config)
    \<and> (tr_status r = TxReverted \<longleftrightarrow> tr_execution_success r = Some False)
    \<and> ConfirmationMonitor_tracked_count cm \<le> cc_max_tracked config"
proof -
  from confirmation_reachable [OF assms(1)] assms(2) have "tx_record_ok config h r"
    and "ConfirmationMonitor_tracked_count cm \<le> cc_max_tracked config"
    by (auto simp: monitor_inv_def ConfirmationMonitor_get_record_def)
  then show ?thesis
    by (cases "tr_status r") (auto simp: tx_record_ok_def)
qed

section \<open>The life cycle of a transaction\<close>


definition monitor_status :: "confirmation_monitor \<Rightarrow> b256 \<Rightarrow> tx_status option" where
  "monitor_status cm h = map_option tr_status (dm_get h (cm_records cm))"




section \<open>One check\<close>

text \<open>
  Functional correctness of \<open>check_status\<close> on a transaction that is tracked and not final.
  Past the timeout it is \<open>Dropped\<close> without asking the provider.  Otherwise it stays as it is
  without a receipt; with a failed receipt it is \<open>Reverted\<close>; with a successful one it is
  \<open>Confirmed\<close> exactly when the current block is at least the required number of blocks past the
  inclusion block, else \<open>Included\<close>.  A failing provider call is reported and leaves the status
  alone.
\<close>

theorem check_status_outcome:
  assumes "ConfirmationMonitor_get_record h cm = Some r" and "TxRecord_is_pending r"
  shows "(let (cm', result) = ConfirmationMonitor_check_status h now ra ba cm;
              status' = monitor_status cm' h
          in if cc_timeout_ms (cm_config cm) < sat_sub now (tr_submitted_at r) * 1000
             then status' = Some TxDropped \<and> result = Inr (r\<lparr>tr_status := TxDropped, tr_updated_at := now\<rparr>)
             else case ra of
               Inl e \<Rightarrow> cm' = cm\<lparr>cm_records := dm_insert h r (cm_records cm)\<rparr> \<and> isl result
             | Inr None \<Rightarrow> status' = Some (tr_status r) \<and> result = Inr (r\<lparr>tr_updated_at := now\<rparr>)
             | Inr (Some rc) \<Rightarrow>
                 if \<not> rc_status rc then status' = Some TxReverted \<and> \<not> isl result
                 else case ba of
                   Inl e \<Rightarrow> status' = Some (tr_status r) \<and> isl result
                 | Inr block \<Rightarrow> \<not> isl result \<and>
                     status' = Some (if unat (cc_required_confirmations (cm_config cm))
                        \<le> unat block - unat (case rc_block_number rc of None \<Rightarrow> 0 | Some b \<Rightarrow> b)
                        then TxConfirmed else TxIncluded))"
  using assms
  by (auto simp: ConfirmationMonitor_check_status_def ConfirmationMonitor_get_record_def
      monitor_status_def check_record_def final_iff_not_pending Let_def unat_simps word_le_nat_alt
      split: sum.splits option.splits)

text \<open>
  \<open>prune_finalized\<close> removes exactly the final records: afterwards every tracked record is
  pending, the records of pending transactions are untouched, the returned number is the number of
  final records, and the pending count is what it was.
\<close>

theorem prune_finalized_correct:
  assumes "monitor_inv cm"
  shows "(let (cm', n) = ConfirmationMonitor_prune_finalized cm in
    (\<forall>h. ConfirmationMonitor_get_record h cm' =
       (case ConfirmationMonitor_get_record h cm of
          Some r \<Rightarrow> if TxRecord_is_pending r then Some r else None | None \<Rightarrow> None))
    \<and> n = length (ConfirmationMonitor_final_transactions cm)
    \<and> ConfirmationMonitor_tracked_count cm' = ConfirmationMonitor_pending_count cm)"
proof -
  let ?F = "\<lambda>(h :: b256, r). TxRecord_is_final r"
  have wf: "dm_wf (cm_records cm)" using assms by (simp add: monitor_inv_def)
  have "filter (\<lambda>e. \<not> ?F e) (dm_iter (cm_records cm))
      = filter (\<lambda>(h, r). TxRecord_is_pending r) (dm_iter (cm_records cm))"
    by (simp add: final_iff_not_pending case_prod_unfold)
  then have "length (filter ?F (dm_iter (cm_records cm))) + ConfirmationMonitor_pending_count cm
      = dm_len (cm_records cm)"
    using length_filter_split [of ?F "dm_iter (cm_records cm)"]
    by (simp add: ConfirmationMonitor_pending_count_def)
  then show ?thesis
    using dm.length_prune [OF wf, of ?F]
    by (auto simp: ConfirmationMonitor_prune_finalized_def ConfirmationMonitor_get_record_def
        ConfirmationMonitor_final_transactions_def ConfirmationMonitor_tracked_count_def
        Let_def dm.get_prune [OF wf] final_iff_not_pending split: option.splits)
qed


section \<open>Examples\<close>

text \<open>Transaction 9 is tracked at time 1000 and checked at time 1010, included in block 100.\<close>

definition tracked_monitor :: confirmation_monitor where
  "tracked_monitor = fst (ConfirmationMonitor_track_transaction 9 1 5 1000 ConfirmationMonitor_with_defaults)"

definition checked_monitor :: "u64 \<Rightarrow> confirmation_monitor" where
  "checked_monitor block = fst (ConfirmationMonitor_check_status 9 1010
     (Inr (Some \<lparr>rc_block_number = Some 100, rc_status = True, rc_gas_used = 21000\<rparr>)) (Inr block)
     tracked_monitor)"

lemma tracked_record: "dm_get 9 (cm_records tracked_monitor) = Some
    \<lparr>tr_tx_hash = 9, tr_chain_id = 1, tr_from = 5, tr_status = TxPending, tr_block_number = None,
     tr_confirmations = 0, tr_submitted_at = 1000, tr_updated_at = 1000, tr_gas_used = None,
     tr_execution_success = None\<rparr>"
  by (simp add: tracked_monitor_def ConfirmationMonitor_with_defaults_def ConfirmationMonitor_new_def
      ConfirmationConfig_default_def ConfirmationMonitor_track_transaction_def)

lemma tracked_config [simp]: "cm_config tracked_monitor = ConfirmationConfig_default"
  by (simp add: tracked_monitor_def ConfirmationMonitor_with_defaults_def ConfirmationMonitor_new_def
      ConfirmationConfig_default_def ConfirmationMonitor_track_transaction_def)

lemma checked_record: "dm_get 9 (cm_records (checked_monitor block)) = Some
    \<lparr>tr_tx_hash = 9, tr_chain_id = 1, tr_from = 5,
     tr_status = (if 2 \<le> sat_sub block 100 then TxConfirmed else TxIncluded),
     tr_block_number = Some 100, tr_confirmations = sat_sub block 100, tr_submitted_at = 1000,
     tr_updated_at = 1010, tr_gas_used = Some 21000, tr_execution_success = Some True\<rparr>"
  using tracked_record
  by (simp add: checked_monitor_def ConfirmationMonitor_check_status_def TxRecord_is_final_def
      check_record_def Let_def ConfirmationConfig_default_def sat_sub_def)

lemma checked_reachable:
  "confirmation_step\<^sup>*\<^sup>* (ConfirmationMonitor_new ConfirmationConfig_default) (checked_monitor block)"
proof -
  have "confirmation_step (ConfirmationMonitor_new ConfirmationConfig_default) tracked_monitor"
    unfolding tracked_monitor_def ConfirmationMonitor_with_defaults_def by (rule confirmation_step.track)
  moreover have "confirmation_step tracked_monitor (checked_monitor block)"
    unfolding checked_monitor_def by (rule confirmation_step.check)
  ultimately show ?thesis by (blast intro: rtranclp.rtrancl_into_rtrancl)
qed

theorem settlement_status_justified_witness:
  "\<exists>r. ConfirmationMonitor_get_record 9 (checked_monitor 105) = Some r \<and> tr_status r = TxConfirmed
    \<and> cc_required_confirmations ConfirmationConfig_default \<le> tr_confirmations r"
  using settlement_status_justified [OF checked_reachable [of 105], of 9] checked_record [of 105]
  by (simp add: ConfirmationMonitor_get_record_def sat_sub_def)


theorem check_status_outcome_witness:
  "monitor_status (checked_monitor 101) 9 = Some TxIncluded"
  using check_status_outcome [of 9 tracked_monitor, OF _ _, where now = 1010 and ba = "Inr 101"
      and ra = "Inr (Some \<lparr>rc_block_number = Some 100, rc_status = True, rc_gas_used = 21000\<rparr>)"]
    tracked_record
  by (simp add: ConfirmationMonitor_get_record_def TxRecord_is_pending_def checked_monitor_def
      ConfirmationConfig_default_def case_prod_unfold Let_def sat_sub_def)

theorem prune_finalized_correct_witness:
  "ConfirmationMonitor_get_record 9 (fst (ConfirmationMonitor_prune_finalized (checked_monitor 105))) = None"
  using prune_finalized_correct [of "checked_monitor 105"] checked_record [of 105]
    confirmation_reachable [OF checked_reachable, of 105]
  by (simp add: ConfirmationMonitor_get_record_def TxRecord_is_pending_def case_prod_unfold Let_def sat_sub_def)

text \<open>
  The timeout is applied to included transactions too: a successful transaction that is one
  confirmation short after two minutes is reported as \<open>Dropped\<close>, which the code documents as "not
  included within the timeout window".
\<close>

lemma included_then_dropped:
  "monitor_status (checked_monitor 101) 9 = Some TxIncluded
   \<and> monitor_status (fst (ConfirmationMonitor_check_status 9 1121 ra ba (checked_monitor 101))) 9 = Some TxDropped"
proof -
  have "cm_config (checked_monitor 101) = ConfirmationConfig_default"
    using confirmation_reachable [OF checked_reachable, of 101] by simp
  then show ?thesis
    using checked_record [of 101]
    by (simp add: monitor_status_def ConfirmationMonitor_check_status_def TxRecord_is_final_def
        check_record_def ConfirmationConfig_default_def Let_def sat_sub_def word_le_nat_alt)
qed

text \<open>Tracking a hash again replaces its record, so a final status can be lost.\<close>

lemma retracking_loses_final_status:
  "dm_len (cm_records cm) < cc_max_tracked (cm_config cm) \<Longrightarrow>
   monitor_status (fst (ConfirmationMonitor_track_transaction h c a now cm)) h = Some TxPending"
  by (simp add: monitor_status_def ConfirmationMonitor_track_transaction_def)

text \<open>
  A block-number failure after a receipt leaves a half-updated record: still \<open>Pending\<close>, but with an
  inclusion block and a successful execution.
\<close>

lemma half_updated_record:
  "(let r = fst (check_record ConfirmationConfig_default 1010
       (Inr (Some \<lparr>rc_block_number = Some 100, rc_status = True, rc_gas_used = 21000\<rparr>)) (Inl e)
       (the (dm_get 9 (cm_records tracked_monitor))))
    in tr_status r = TxPending \<and> tr_block_number r = Some 100 \<and> tr_execution_success r = Some True)"
  using tracked_record by (simp add: check_record_def Let_def ConfirmationConfig_default_def sat_sub_def)

end
