(* ===== verification/Float64.thy ===== *)
theory Float64
  imports Prelude Complex_Main "HOL-Library.Log_Nat"
begin

text \<open>
  The part of \<open>f64\<close> arithmetic the program uses: conversion from \<open>u64\<close>, multiplication and the
  saturating cast back.  A value is a rational number that binary64 can represent, an infinity or
  not-a-number (the sign of zero is not distinguished: no operation here depends on it).
  Rounding is to nearest, ties to even, with 53 significant bits and gradual underflow.
\<close>

datatype f64 = NaN | Infinite bool \<comment> \<open>True for negative\<close> | Finite rat

definition pow2 :: "int \<Rightarrow> rat" where
  "pow2 e = (if 0 \<le> e then 2 ^ nat e else 1 / 2 ^ nat (- e))"

text \<open>\<open>2 ^ floor_log2 q \<le> q < 2 ^ (floor_log2 q + 1)\<close> for a positive \<open>q\<close>.\<close>

definition floor_log2 :: "rat \<Rightarrow> int" where
  "floor_log2 q = (if 1 \<le> q then bitlen \<lfloor>q\<rfloor> - 1 else - bitlen (\<lceil>1 / q\<rceil> - 1))"

definition round_half_even :: "rat \<Rightarrow> int" where
  "round_half_even x =
     (let f = \<lfloor>x\<rfloor>; r = x - of_int f in
      if r < 1 / 2 then f else if 1 / 2 < r then f + 1 else if even f then f else f + 1)"

definition round_positive :: "rat \<Rightarrow> rat" where
  "round_positive q = (let e = max (floor_log2 q - 52) (- 1074)
     in of_int (round_half_even (q / pow2 e)) * pow2 e)"

definition f64_round :: "rat \<Rightarrow> f64" where
  "f64_round q =
     (if q = 0 then Finite 0
      else let m = round_positive \<bar>q\<bar> in
        if 2 ^ 1024 \<le> m then Infinite (q < 0) else Finite (if q < 0 then - m else m))"

definition f64_of_u64 :: "u64 \<Rightarrow> f64" where
  "f64_of_u64 x = f64_round (of_nat (unat x))"

fun f64_mul :: "f64 \<Rightarrow> f64 \<Rightarrow> f64" where
  "f64_mul NaN _ = NaN"
| "f64_mul _ NaN = NaN"
| "f64_mul (Finite a) (Finite b) = f64_round (a * b)"
| "f64_mul (Finite a) (Infinite s) = (if a = 0 then NaN else Infinite (s \<noteq> (a < 0)))"
| "f64_mul (Infinite s) (Finite a) = (if a = 0 then NaN else Infinite (s \<noteq> (a < 0)))"
| "f64_mul (Infinite s) (Infinite t) = Infinite (s \<noteq> t)"

text \<open>\<open>x as u64\<close>: truncation, saturating at both ends of the range, with \<open>NaN\<close> going to zero.\<close>

fun f64_to_u64 :: "f64 \<Rightarrow> u64" where
  "f64_to_u64 NaN = 0"
| "f64_to_u64 (Infinite s) = (if s then 0 else - 1)"
| "f64_to_u64 (Finite q) = (if q < 0 then 0 else if 2 ^ 64 \<le> q then - 1 else of_int \<lfloor>q\<rfloor>)"

lemma pow2_pos: "0 < pow2 e"
  by (simp add: pow2_def)

lemma round_half_even_of_int [simp]: "round_half_even (of_int i) = i"
  by (simp add: round_half_even_def)

lemma round_positive_exact:
  assumes "q / pow2 (max (floor_log2 q - 52) (- 1074)) = of_int i"
  shows "round_positive q = q"
proof -
  let ?p = "pow2 (max (floor_log2 q - 52) (- 1074))"
  have "round_positive q = of_int i * ?p"
    by (simp add: round_positive_def assms)
  also have "\<dots> = q / ?p * ?p" by (simp add: assms)
  also have "\<dots> = q" using pow2_pos [of "max (floor_log2 q - 52) (- 1074)"] by simp
  finally show ?thesis .
qed

lemma div_pow2:
  assumes "e \<le> int k"
  shows "of_nat n * 2 ^ k / pow2 e = of_int (int n * 2 ^ nat (int k - e))"
proof (cases "0 \<le> e")
  case True
  then have "k = nat e + nat (int k - e)" using assms by simp
  then have "(2::rat) ^ k = 2 ^ nat e * 2 ^ nat (int k - e)" by (metis power_add)
  with True show ?thesis by (simp add: pow2_def)
next
  case False
  then have "nat (int k - e) = k + nat (- e)" by simp
  with False show ?thesis by (simp add: pow2_def power_add)
qed

text \<open>A 53-bit integer times a power of two is represented exactly.\<close>

lemma round_positive_integer:
  fixes n k :: nat
  assumes "n < 2 ^ 53" "0 < n"
  shows "round_positive (of_nat n * 2 ^ k) = of_nat n * 2 ^ k"
proof -
  let ?q = "of_nat n * 2 ^ k :: rat"
  let ?e = "max (floor_log2 ?q - 52) (- 1074)"
  have q: "?q = of_int (int (n * 2 ^ k))" by simp
  have fl: "\<lfloor>?q\<rfloor> = int (n * 2 ^ k)" by (subst q) (rule floor_of_int)
  have "n * 2 ^ k < 2 ^ (53 + k)"
    using assms by (simp add: power_add)
  then have "int (n * 2 ^ k) < 2 ^ (53 + k)"
    using of_nat_less_iff [of "n * 2 ^ k" "2 ^ (53 + k)", where ?'a = int] by simp
  then have "bitlen (int (n * 2 ^ k)) \<le> int (53 + k)"
    using assms by (subst bitlen_le_iff_power) (auto simp: nat_add_distrib)
  moreover have "1 \<le> n * 2 ^ k" using assms(2) by simp
  then have "1 \<le> ?q" using of_nat_le_iff [of 1 "n * 2 ^ k", where ?'a = rat] by simp
  ultimately have "floor_log2 ?q \<le> int (53 + k) - 1"
    unfolding floor_log2_def fl by simp
  then have e: "?e \<le> int k" by simp
  from div_pow2 [OF this] have "?q / pow2 ?e = of_int (int n * 2 ^ nat (int k - ?e))" .
  then show ?thesis by (rule round_positive_exact)
qed

lemma f64_round_integer:
  fixes n k :: nat
  assumes "n < 2 ^ 53" "k \<le> 960"
  shows "f64_round (of_nat n * 2 ^ k) = Finite (of_nat n * 2 ^ k)"
proof (cases "n = 0")
  case True
  then show ?thesis by (simp add: f64_round_def)
next
  case False
  have "(2::nat) ^ k \<le> 2 ^ 960"
    using assms(2) by (rule power_increasing) simp
  with assms(1) have "n * 2 ^ k < 2 ^ 53 * 2 ^ 960"
    by (rule mult_less_le_imp_less) simp_all
  then have "(of_nat (n * 2 ^ k) :: rat) < of_nat (2 ^ 53 * 2 ^ 960)"
    by (simp only: of_nat_less_iff)
  also have "\<dots> < 2 ^ 1024" by simp
  finally have "\<not> 2 ^ 1024 \<le> (of_nat n * 2 ^ k :: rat)" by simp
  moreover have nonneg: "0 \<le> (of_nat n * 2 ^ k :: rat)" by simp
  then have "\<not> (of_nat n * 2 ^ k :: rat) < 0" by (simp only: not_less)
  ultimately show ?thesis
    using False assms(1) nonneg
    by (simp only: f64_round_def Let_def abs_of_nonneg round_positive_integer if_False) simp
qed

lemma f64_of_u64_exact: "unat x < 2 ^ 53 \<Longrightarrow> f64_of_u64 x = Finite (of_nat (unat x))"
  using f64_round_integer [of "unat x" 0] by (simp add: f64_of_u64_def)

lemma f64_to_u64_nat: "unat (f64_to_u64 (Finite (of_nat n))) = min n (2 ^ 64 - 1)"
proof (cases "n < 2 ^ 64")
  case True
  then have "\<not> (2 ^ 64 :: rat) \<le> of_nat n"
    using of_nat_less_iff [of n "2 ^ 64", where ?'a = rat] by simp
  with True show ?thesis
    by (simp add: unsigned_of_nat take_bit_nat_eq_self)
next
  case False
  then have "(2 ^ 64 :: rat) \<le> of_nat n"
    using of_nat_le_iff [of "2 ^ 64" n, where ?'a = rat] by simp
  with False show ?thesis by (simp add: unat_max_word)
qed

end
