(* ===== verification/Retry.thy ===== *)
theory Retry
  imports Types Float64 Dash_Map
begin

text \<open>
  Revert handling and retries (\<open>phantom-settlement/src/retry.rs\<close>): the classification of revert
  messages, the retry decision with its exponential backoff, and the global retry budget kept in
  an atomic counter.  Messages are byte strings; lower-casing is modelled on ASCII letters.  The
  precision of \<open>f64::powi\<close> is unspecified, so it is a parameter \<open>pow_i\<close> of the definitions that
  use it.
\<close>

section \<open>Configuration and classification\<close>

record retry_config =
  yc_max_retries :: u32
  yc_initial_delay_ms :: u64
  yc_max_delay_ms :: u64
  yc_backoff_multiplier :: f64
  yc_global_retry_budget :: u32

definition RetryConfig_default :: retry_config where
  "RetryConfig_default =
     \<lparr>yc_max_retries = 3, yc_initial_delay_ms = 1000, yc_max_delay_ms = 30000,
      yc_backoff_multiplier = Finite 2, yc_global_retry_budget = 10\<rparr>"

datatype revert_reason =
    OutOfGas
  | NonceTooLow
  | NonceTooHigh
  | InsufficientFunds
  | AlreadyFilled
  | OrderExpired
  | SlippageExceeded
  | ExecutionReverted string
  | Unknown string

fun RevertReason_is_retryable :: "revert_reason \<Rightarrow> bool" where
  "RevertReason_is_retryable OutOfGas = True"
| "RevertReason_is_retryable NonceTooLow = True"
| "RevertReason_is_retryable NonceTooHigh = True"
| "RevertReason_is_retryable InsufficientFunds = False"
| "RevertReason_is_retryable AlreadyFilled = False"
| "RevertReason_is_retryable OrderExpired = False"
| "RevertReason_is_retryable SlippageExceeded = True"
| "RevertReason_is_retryable (ExecutionReverted _) = True"
| "RevertReason_is_retryable (Unknown _) = True"

fun RevertReason_category :: "revert_reason \<Rightarrow> string" where
  "RevertReason_category OutOfGas = ''out_of_gas''"
| "RevertReason_category NonceTooLow = ''nonce_too_low''"
| "RevertReason_category NonceTooHigh = ''nonce_too_high''"
| "RevertReason_category InsufficientFunds = ''insufficient_funds''"
| "RevertReason_category AlreadyFilled = ''already_filled''"
| "RevertReason_category OrderExpired = ''order_expired''"
| "RevertReason_category SlippageExceeded = ''slippage_exceeded''"
| "RevertReason_category (ExecutionReverted _) = ''execution_reverted''"
| "RevertReason_category (Unknown _) = ''unknown''"

fun str_contains :: "string \<Rightarrow> string \<Rightarrow> bool" where
  "str_contains [] p = (p = [])"
| "str_contains (c # s) p = (take (length p) (c # s) = p \<or> str_contains s p)"

definition classify_revert :: "string \<Rightarrow> revert_reason" where
  "classify_revert error_message =
     (let lower = to_lowercase error_message in
      if str_contains lower ''out of gas'' \<or> str_contains lower ''gas required exceeds'' then OutOfGas
      else if str_contains lower ''nonce too low'' then NonceTooLow
      else if str_contains lower ''nonce too high'' then NonceTooHigh
      else if str_contains lower ''insufficient funds'' \<or> str_contains lower ''insufficient balance''
        then InsufficientFunds
      else if str_contains lower ''already filled'' \<or> str_contains lower ''order already'' then AlreadyFilled
      else if str_contains lower ''expired'' \<or> str_contains lower ''deadline'' then OrderExpired
      else if str_contains lower ''slippage'' \<or> str_contains lower ''price moved'' then SlippageExceeded
      else if str_contains lower ''revert'' \<or> str_contains lower ''execution reverted''
        then ExecutionReverted error_message
      else Unknown error_message)"

section \<open>The retry manager\<close>

datatype retry_decision = Retry | Abandon

text \<open>Delays are numbers of milliseconds.\<close>

record retry_evaluation =
  ye_decision :: retry_decision
  ye_delay :: u64
  ye_attempt :: u32
  ye_max_attempts :: u32
  ye_reason :: revert_reason

definition RetryEvaluation_should_retry :: "retry_evaluation \<Rightarrow> bool" where
  "RetryEvaluation_should_retry e \<longleftrightarrow> ye_decision e = Retry"

record retry_manager =
  ym_config :: retry_config
  ym_active_retries :: u32

definition RetryManager_new :: "retry_config \<Rightarrow> retry_manager" where
  "RetryManager_new config = \<lparr>ym_config = config, ym_active_retries = 0\<rparr>"

definition RetryManager_with_defaults :: retry_manager where
  "RetryManager_with_defaults = RetryManager_new RetryConfig_default"

definition RetryManager_compute_delay ::
    "(f64 \<Rightarrow> int \<Rightarrow> f64) \<Rightarrow> retry_config \<Rightarrow> u32 \<Rightarrow> u64" where
  "RetryManager_compute_delay pow_i config attempt =
     (let base = f64_of_u64 (yc_initial_delay_ms config);
          multiplier = pow_i (yc_backoff_multiplier config) (wrap_signed 32 (uint attempt));
          delay_ms = f64_to_u64 (f64_mul base multiplier)
      in min delay_ms (yc_max_delay_ms config))"

definition RetryManager_evaluate_retry ::
    "(f64 \<Rightarrow> int \<Rightarrow> f64) \<Rightarrow> string \<Rightarrow> u32 \<Rightarrow> retry_manager \<Rightarrow> retry_evaluation" where
  "RetryManager_evaluate_retry pow_i error_message attempt ym =
     (let reason = classify_revert error_message;
          config = ym_config ym;
          abandon = \<lparr>ye_decision = Abandon, ye_delay = 0, ye_attempt = attempt,
                     ye_max_attempts = yc_max_retries config, ye_reason = reason\<rparr>
      in if \<not> RevertReason_is_retryable reason then abandon
         else if yc_max_retries config \<le> attempt then abandon
         else if yc_global_retry_budget config \<le> ym_active_retries ym then abandon
         else \<lparr>ye_decision = Retry, ye_delay = RetryManager_compute_delay pow_i config attempt,
               ye_attempt = attempt, ye_max_attempts = yc_max_retries config, ye_reason = reason\<rparr>)"

text \<open>
  \<open>acquire_retry_slot\<close> loads the counter and, in a second atomic operation, increments it.
\<close>

definition retry_slot_error :: settlement_error where
  "retry_slot_error = ConfirmationFailed (lit ''global retry budget exhausted'')"

definition RetryManager_acquire_check :: "retry_manager \<Rightarrow> bool" where
  "RetryManager_acquire_check ym \<longleftrightarrow> \<not> yc_global_retry_budget (ym_config ym) \<le> ym_active_retries ym"

definition RetryManager_acquire_increment :: "retry_manager \<Rightarrow> retry_manager" where
  "RetryManager_acquire_increment ym = ym\<lparr>ym_active_retries := ym_active_retries ym + 1\<rparr>"

definition RetryManager_acquire_retry_slot ::
    "retry_manager \<Rightarrow> retry_manager \<times> (settlement_error + unit)" where
  "RetryManager_acquire_retry_slot ym =
     (if RetryManager_acquire_check ym
      then (RetryManager_acquire_increment ym, Inr ())
      else (ym, Inl retry_slot_error))"

definition RetryManager_release_retry_slot :: "retry_manager \<Rightarrow> retry_manager" where
  "RetryManager_release_retry_slot ym =
     ym\<lparr>ym_active_retries := sat_sub (ym_active_retries ym) 1\<rparr>"

text \<open>\<open>RetryManager::active_retries\<close> is the field \<open>ym_active_retries\<close>.\<close>

section \<open>Classification and decision\<close>


text \<open>The keywords that make a revert permanent, and those that are looked for before them.\<close>

definition permanent_keywords :: "string list" where
  "permanent_keywords = [''insufficient funds'', ''insufficient balance'', ''already filled'',
     ''order already'', ''expired'', ''deadline'']"

definition transient_keywords :: "string list" where
  "transient_keywords = [''out of gas'', ''gas required exceeds'', ''nonce too low'', ''nonce too high'']"

lemma is_retryable_classify:
  "RevertReason_is_retryable (classify_revert msg) \<longleftrightarrow>
     list_ex (str_contains (to_lowercase msg)) transient_keywords
     \<or> \<not> list_ex (str_contains (to_lowercase msg)) permanent_keywords"
proof -
  obtain P where P: "P = str_contains (to_lowercase msg)" by blast
  show ?thesis
    unfolding classify_revert_def Let_def permanent_keywords_def transient_keywords_def P [symmetric]
    by simp
qed

lemma compute_delay_le_max: "RetryManager_compute_delay pow_i config attempt \<le> yc_max_delay_ms config"
  by (simp add: RetryManager_compute_delay_def Let_def)

text \<open>
  C28: \<open>evaluate_retry\<close> retries exactly when the message does not name a permanent failure (none
  of the six permanent phrases occurs in any letter case, or one of the four transient phrases
  that are looked for first does), the attempt number is below the configured maximum and
  the global budget is not used up.  The delay never exceeds the configured maximum and is zero
  when the transaction is abandoned, and the evaluation reports the attempt it was asked about.
\<close>

theorem retry_decision_exact:
  "(let e = RetryManager_evaluate_retry pow_i msg attempt ym; phrase = str_contains (to_lowercase msg) in
      (RetryEvaluation_should_retry e \<longleftrightarrow>
         (list_ex phrase transient_keywords \<or> \<not> list_ex phrase permanent_keywords)
         \<and> attempt < yc_max_retries (ym_config ym)
         \<and> ym_active_retries ym < yc_global_retry_budget (ym_config ym))
      \<and> ye_delay e \<le> (if RetryEvaluation_should_retry e then yc_max_delay_ms (ym_config ym) else 0)
      \<and> ye_attempt e = attempt \<and> ye_max_attempts e = yc_max_retries (ym_config ym)
      \<and> ye_reason e = classify_revert msg)"
  by (simp add: RetryManager_evaluate_retry_def RetryEvaluation_should_retry_def Let_def
      compute_delay_le_max flip: is_retryable_classify) (auto simp: not_le)

theorem retry_decision_exact_witness:
  "RetryEvaluation_should_retry
     (RetryManager_evaluate_retry (\<lambda>x _. x) ''Nonce too LOW'' 0 RetryManager_with_defaults)
   \<and> \<not> RetryEvaluation_should_retry
     (RetryManager_evaluate_retry (\<lambda>x _. x) ''Deadline passed'' 0 RetryManager_with_defaults)"
proof -
  define ym where "ym = RetryManager_with_defaults"
  have ym: "0 < yc_max_retries (ym_config ym)" "ym_active_retries ym < yc_global_retry_budget (ym_config ym)"
    by (simp_all add: ym_def RetryManager_with_defaults_def RetryManager_new_def RetryConfig_default_def)
  have "list_ex (str_contains (to_lowercase ''Nonce too LOW'')) transient_keywords"
    "list_ex (str_contains (to_lowercase ''Deadline passed'')) permanent_keywords"
    "\<not> list_ex (str_contains (to_lowercase ''Deadline passed'')) transient_keywords"
    by code_simp+
  then show ?thesis
    using retry_decision_exact [of "\<lambda>x _. x" "''Nonce too LOW''" 0 ym]
      retry_decision_exact [of "\<lambda>x _. x" "''Deadline passed''" 0 ym] ym
    unfolding Let_def ym_def by blast
qed

section \<open>Backoff\<close>





section \<open>The retry budget\<close>

text \<open>
  The tasks that run \<open>acquire_retry_slot\<close> interleave at its two atomic operations.  A state is
  the manager with the number of tasks that have passed the check and not yet incremented; at
  most \<open>n\<close> tasks are inside the call at once.
\<close>

inductive slot_step :: "nat \<Rightarrow> retry_manager \<times> nat \<Rightarrow> retry_manager \<times> nat \<Rightarrow> bool" for n where
  check: "RetryManager_acquire_check ym \<Longrightarrow> w < n \<Longrightarrow> slot_step n (ym, w) (ym, Suc w)"
| increment: "slot_step n (ym, Suc w) (RetryManager_acquire_increment ym, w)"
| release: "slot_step n (ym, w) (RetryManager_release_retry_slot ym, w)"

lemma increment_config [simp]: "ym_config (RetryManager_acquire_increment ym) = ym_config ym"
  by (simp add: RetryManager_acquire_increment_def)

lemma release_config [simp]: "ym_config (RetryManager_release_retry_slot ym) = ym_config ym"
  by (simp add: RetryManager_release_retry_slot_def)

definition slot_size :: "retry_manager \<times> nat \<Rightarrow> nat" where
  "slot_size s = unat (ym_active_retries (fst s)) + snd s"

definition slot_cap :: "nat \<Rightarrow> retry_manager \<times> nat \<Rightarrow> nat" where
  "slot_cap n s = unat (yc_global_retry_budget (ym_config (fst s))) + n - 1"

lemma unat_increment: "unat (ym_active_retries (RetryManager_acquire_increment ym))
    \<le> Suc (unat (ym_active_retries ym))"
  by (simp add: RetryManager_acquire_increment_def unat_word_ariths)

interpretation slots: capped_store "slot_step n" slot_size "slot_cap n" "\<lambda>_. True" for n
proof unfold_locales
  fix s s' assume step: "slot_step n s s'"
  then show "slot_cap n s' = slot_cap n s"
    by cases (simp_all add: slot_cap_def)
  show "slot_size s' \<le> slot_size s \<or> slot_size s' \<le> slot_cap n s"
    using step
  proof cases
    case (check ym w)
    then show ?thesis
      by (auto simp: slot_size_def slot_cap_def RetryManager_acquire_check_def word_le_nat_alt)
  next
    case (increment ym w)
    then show ?thesis using unat_increment [of ym] by (simp add: slot_size_def)
  next
    case (release ym w)
    then show ?thesis by (simp add: slot_size_def RetryManager_release_retry_slot_def unat_simps)
  qed
qed simp

text \<open>
  C26: However \<open>n\<close> tasks interleave their calls of \<open>acquire_retry_slot\<close> and
  \<open>release_retry_slot\<close>, the number of active retries exceeds the global budget by at most
  \<open>n - 1\<close>; a single task never exceeds it.
\<close>

theorem retry_budget_overshoot_bounded:
  assumes "(slot_step (Suc n))\<^sup>*\<^sup>* (RetryManager_new config, 0) (ym, w)"
  shows "unat (ym_active_retries ym) \<le> unat (yc_global_retry_budget config) + n"
  using slots.run_bounded [OF assms] slots.run_inv [OF assms]
  by (simp add: slot_size_def slot_cap_def RetryManager_new_def)

text \<open>
  The bound is tight: two tasks that both load the counter before either increments it take two
  slots of a budget of one.
\<close>

lemma retry_budget_race:
  "\<exists>ym. (slot_step 2)\<^sup>*\<^sup>* (RetryManager_new (RetryConfig_default\<lparr>yc_global_retry_budget := 1\<rparr>), 0) (ym, 0)
        \<and> yc_global_retry_budget (ym_config ym) = 1 \<and> ym_active_retries ym = 2"
proof -
  let ?ym = "RetryManager_new (RetryConfig_default\<lparr>yc_global_retry_budget := 1\<rparr>)"
  let ?inc = RetryManager_acquire_increment
  have c: "RetryManager_acquire_check ?ym"
    by (simp add: RetryManager_acquire_check_def RetryManager_new_def)
  have "slot_step 2 (?ym, 0) (?ym, Suc 0)" using c by (rule slot_step.check) simp
  moreover have "slot_step 2 (?ym, Suc 0) (?ym, Suc (Suc 0))" using c by (rule slot_step.check) simp
  moreover have "slot_step 2 (?ym, Suc (Suc 0)) (?inc ?ym, Suc 0)" by (rule slot_step.increment)
  moreover have "slot_step 2 (?inc ?ym, Suc 0) (?inc (?inc ?ym), 0)" by (rule slot_step.increment)
  ultimately have "(slot_step 2)\<^sup>*\<^sup>* (?ym, 0) (?inc (?inc ?ym), 0)"
    by (meson converse_rtranclp_into_rtranclp rtranclp.rtrancl_refl)
  then show ?thesis
    by (intro exI [of _ "?inc (?inc ?ym)"])
       (simp add: RetryManager_acquire_increment_def RetryManager_new_def)
qed

theorem retry_budget_overshoot_bounded_witness:
  "\<exists>ym w. (slot_step (Suc 0))\<^sup>*\<^sup>* (RetryManager_with_defaults, 0) (ym, w)
          \<and> unat (ym_active_retries ym) \<le> 10 \<and> ym_active_retries ym = 1"
proof -
  let ?ym = "RetryManager_new RetryConfig_default"
  have "slot_step (Suc 0) (?ym, 0) (?ym, Suc 0)"
    by (rule slot_step.check)
       (simp_all add: RetryManager_acquire_check_def RetryManager_new_def RetryConfig_default_def)
  moreover have "slot_step (Suc 0) (?ym, Suc 0) (RetryManager_acquire_increment ?ym, 0)"
    by (rule slot_step.increment)
  ultimately have run: "(slot_step (Suc 0))\<^sup>*\<^sup>* (?ym, 0) (RetryManager_acquire_increment ?ym, 0)"
    by (meson converse_rtranclp_into_rtranclp rtranclp.rtrancl_refl)
  from retry_budget_overshoot_bounded [OF run] have
    "unat (ym_active_retries (RetryManager_acquire_increment ?ym)) \<le> 10"
    by (simp add: RetryConfig_default_def)
  with run show ?thesis
    unfolding RetryManager_with_defaults_def
    by (intro exI [of _ "RetryManager_acquire_increment ?ym"] exI [of _ 0])
       (simp add: RetryManager_acquire_increment_def RetryManager_new_def)
qed

text \<open>
  A task that acquires a slot and later releases it leaves the counter as it found it, a
  refused acquisition changes nothing, and a slot is refused exactly at the budget.
\<close>

theorem acquire_release_balanced:
  "case RetryManager_acquire_retry_slot ym of
     (ym', Inr _) \<Rightarrow> ym_active_retries ym < yc_global_retry_budget (ym_config ym)
       \<and> unat (ym_active_retries ym') = unat (ym_active_retries ym) + 1
       \<and> RetryManager_release_retry_slot ym' = ym
   | (ym', Inl e) \<Rightarrow> yc_global_retry_budget (ym_config ym) \<le> ym_active_retries ym
       \<and> ym' = ym \<and> e = retry_slot_error"
proof (cases "RetryManager_acquire_check ym")
  case True
  then have lt: "ym_active_retries ym < yc_global_retry_budget (ym_config ym)"
    by (simp add: RetryManager_acquire_check_def not_le)
  then have "unat (ym_active_retries ym) + 1 < 2 ^ 32"
    using unat_lt2p [of "yc_global_retry_budget (ym_config ym)"]
    by (simp add: word_less_nat_alt)
  then have i: "unat (ym_active_retries ym + 1) = unat (ym_active_retries ym) + 1"
    by (subst unat_add_lt) simp_all
  then have "sat_sub (ym_active_retries ym + 1) 1 = ym_active_retries ym"
    by (simp add: word_unat_eq_iff unat_simps)
  with True lt i show ?thesis
    by (simp add: RetryManager_acquire_retry_slot_def RetryManager_acquire_increment_def
        RetryManager_release_retry_slot_def)
next
  case False
  then show ?thesis
    by (simp add: RetryManager_acquire_retry_slot_def RetryManager_acquire_check_def)
qed

end
