(* ===== verification/Risk.thy ===== *)
theory Risk
  imports Types Dash_Map
begin

text \<open>
  Risk limits (\<open>phantom-inventory/src/risk.rs\<close>): the ordered checks of a proposed fill and the
  two atomic counters they read, the daily result and the number of pending fills.  Atomic
  additions and subtractions wrap.
\<close>

section \<open>Configuration, outcome and state\<close>

record risk_config =
  rc_max_position_per_token :: u256
  rc_max_single_fill_value :: u256
  rc_daily_loss_limit_wei :: u64
  rc_max_pending_fills :: u32
  rc_enabled :: bool

definition RiskConfig_default :: risk_config where
  "RiskConfig_default =
     \<lparr>rc_max_position_per_token = 1000000000000000000000,
      rc_max_single_fill_value = 10000000000000000000,
      rc_daily_loss_limit_wei = 1000000000000000000, rc_max_pending_fills = 16, rc_enabled = True\<rparr>"

datatype risk_check_outcome = Passed | Rejected

record risk_check_result =
  rr_outcome :: risk_check_outcome
  rr_reason :: message
  rr_daily_loss_wei :: u64
  rr_pending_fills :: u32

definition RiskCheckResult_is_passed :: "risk_check_result \<Rightarrow> bool" where
  "RiskCheckResult_is_passed r \<longleftrightarrow> rr_outcome r = Passed"

definition RiskCheckResult_is_rejected :: "risk_check_result \<Rightarrow> bool" where
  "RiskCheckResult_is_rejected r \<longleftrightarrow> rr_outcome r = Rejected"

text \<open>A positive \<open>rm_daily_pnl_wei\<close> is a loss, a negative one a profit.\<close>

record risk_manager =
  rm_config :: risk_config
  rm_daily_pnl_wei :: i64
  rm_pending_fills :: u32

definition RiskManager_new :: "risk_config \<Rightarrow> risk_manager" where
  "RiskManager_new config = \<lparr>rm_config = config, rm_daily_pnl_wei = 0, rm_pending_fills = 0\<rparr>"

definition RiskManager_with_defaults :: risk_manager where
  "RiskManager_with_defaults = RiskManager_new RiskConfig_default"

section \<open>Operations\<close>

definition RiskManager_daily_loss_wei :: "risk_manager \<Rightarrow> u64" where
  "RiskManager_daily_loss_wei rm =
     (if 0 < rm_daily_pnl_wei rm then word_of_int (rm_daily_pnl_wei rm) else 0)"

definition RiskManager_daily_pnl_raw :: "risk_manager \<Rightarrow> i64" where
  "RiskManager_daily_pnl_raw rm = rm_daily_pnl_wei rm"

definition RiskManager_pending_count :: "risk_manager \<Rightarrow> u32" where
  "RiskManager_pending_count rm = rm_pending_fills rm"

definition RiskManager_check_fill :: "u256 \<Rightarrow> u256 \<Rightarrow> risk_manager \<Rightarrow> risk_check_result" where
  "RiskManager_check_fill fill_value current_position rm =
     (let config = rm_config rm;
          daily_loss = RiskManager_daily_loss_wei rm;
          pending = RiskManager_pending_count rm;
          result = (\<lambda>outcome reason. \<lparr>rr_outcome = outcome, rr_reason = reason,
            rr_daily_loss_wei = daily_loss, rr_pending_fills = pending\<rparr>);
          projected = sat_add current_position fill_value
      in if \<not> rc_enabled config then result Passed (lit ''risk checks disabled'')
         else if rc_max_single_fill_value config < fill_value then
           result Rejected (Fmt ''fill value {fill_value} exceeds max single fill {}''
             [Num (uint fill_value), Num (uint (rc_max_single_fill_value config))])
         else if rc_max_position_per_token config < projected then
           result Rejected (Fmt ''projected position {projected} exceeds per-token limit {}''
             [Num (uint projected), Num (uint (rc_max_position_per_token config))])
         else if rc_daily_loss_limit_wei config < daily_loss then
           result Rejected (Fmt ''daily loss {daily_loss} exceeds limit {}''
             [Num (uint daily_loss), Num (uint (rc_daily_loss_limit_wei config))])
         else if rc_max_pending_fills config \<le> pending then
           result Rejected (Fmt ''pending fills {pending} at limit {}''
             [Num (uint pending), Num (uint (rc_max_pending_fills config))])
         else result Passed (lit ''all risk checks passed''))"

definition RiskManager_record_fill_start :: "risk_manager \<Rightarrow> risk_manager \<times> (inventory_error + unit)" where
  "RiskManager_record_fill_start rm = (rm\<lparr>rm_pending_fills := rm_pending_fills rm + 1\<rparr>, Inr ())"

definition RiskManager_record_fill_complete :: "i64 \<Rightarrow> risk_manager \<Rightarrow> risk_manager" where
  "RiskManager_record_fill_complete pnl_wei rm =
     rm\<lparr>rm_pending_fills := rm_pending_fills rm - 1,
        rm_daily_pnl_wei := wrap_signed 64 (rm_daily_pnl_wei rm - pnl_wei)\<rparr>"

definition RiskManager_reset_daily :: "risk_manager \<Rightarrow> risk_manager" where
  "RiskManager_reset_daily rm = rm\<lparr>rm_daily_pnl_wei := 0\<rparr>"

record risk_snapshot =
  rs_daily_loss_wei :: u64
  rs_daily_pnl_raw :: i64
  rs_pending_fills :: u32
  rs_max_pending_fills :: u32
  rs_daily_loss_limit_wei :: u64
  rs_risk_enabled :: bool

definition RiskManager_risk_snapshot :: "risk_manager \<Rightarrow> risk_snapshot" where
  "RiskManager_risk_snapshot rm =
     \<lparr>rs_daily_loss_wei = RiskManager_daily_loss_wei rm,
      rs_daily_pnl_raw = RiskManager_daily_pnl_raw rm,
      rs_pending_fills = RiskManager_pending_count rm,
      rs_max_pending_fills = rc_max_pending_fills (rm_config rm),
      rs_daily_loss_limit_wei = rc_daily_loss_limit_wei (rm_config rm),
      rs_risk_enabled = rc_enabled (rm_config rm)\<rparr>"

section \<open>What a passed check guarantees\<close>

lemma daily_loss_value:
  "in_signed 64 (rm_daily_pnl_wei rm) \<Longrightarrow>
     int (unat (RiskManager_daily_loss_wei rm)) = max 0 (rm_daily_pnl_wei rm)"
  by (simp add: RiskManager_daily_loss_wei_def in_signed_def take_bit_int_eq_self
      uint_word_of_int_eq)

lemma check_fill_passed_iff:
  "RiskCheckResult_is_passed (RiskManager_check_fill v p rm) \<longleftrightarrow>
     \<not> rc_enabled (rm_config rm)
     \<or> v \<le> rc_max_single_fill_value (rm_config rm)
       \<and> sat_add p v \<le> rc_max_position_per_token (rm_config rm)
       \<and> RiskManager_daily_loss_wei rm \<le> rc_daily_loss_limit_wei (rm_config rm)
       \<and> RiskManager_pending_count rm < rc_max_pending_fills (rm_config rm)"
  by (auto simp: RiskManager_check_fill_def RiskCheckResult_is_passed_def Let_def)

text \<open>
  C7: With the controls enabled a fill passes exactly when its value, the resulting position
  (as a natural number: the saturating addition hides no overflow below the largest limit), the
  net loss of the day and the number of pending fills are within the limits; with the
  controls disabled everything passes.
\<close>

theorem check_fill_exact:
  assumes "in_signed 64 (rm_daily_pnl_wei rm)"
    and "rc_max_position_per_token (rm_config rm) \<noteq> - 1"
  shows "RiskCheckResult_is_passed (RiskManager_check_fill v p rm) \<longleftrightarrow>
     (rc_enabled (rm_config rm) \<longrightarrow>
        unat v \<le> unat (rc_max_single_fill_value (rm_config rm))
        \<and> unat p + unat v \<le> unat (rc_max_position_per_token (rm_config rm))
        \<and> rm_daily_pnl_wei rm \<le> int (unat (rc_daily_loss_limit_wei (rm_config rm)))
        \<and> unat (RiskManager_pending_count rm) < unat (rc_max_pending_fills (rm_config rm)))"
proof -
  let ?lim = "rc_max_position_per_token (rm_config rm)"
  let ?max = "2 ^ 256 - 1 :: nat"
  have "unat ?lim \<noteq> ?max"
    using assms(2) unat_max_word [where ?'a = 256] by (auto simp: word_unat_eq_iff)
  then have lim: "unat ?lim < ?max"
    using unat_le_max [of ?lim] by simp
  have "unat (sat_add p v) = min (unat p + unat v) ?max" by (simp add: unat_simps)
  then have pos: "sat_add p v \<le> ?lim \<longleftrightarrow> unat p + unat v \<le> unat ?lim"
    using lim unfolding word_le_nat_alt by (simp only: min_le_iff_disj) auto
  have "RiskManager_daily_loss_wei rm \<le> rc_daily_loss_limit_wei (rm_config rm) \<longleftrightarrow>
      int (unat (RiskManager_daily_loss_wei rm)) \<le> int (unat (rc_daily_loss_limit_wei (rm_config rm)))"
    by (simp only: word_le_nat_alt of_nat_le_iff)
  also have "\<dots> \<longleftrightarrow> rm_daily_pnl_wei rm \<le> int (unat (rc_daily_loss_limit_wei (rm_config rm)))"
    by (simp only: daily_loss_value [OF assms(1)]) simp
  finally show ?thesis
    by (auto simp only: check_fill_passed_iff pos word_le_nat_alt [of v] word_less_nat_alt)
qed

definition sample_risk :: risk_manager where
  "sample_risk = RiskManager_record_fill_complete (- 400) (fst (RiskManager_record_fill_start
     (RiskManager_new \<lparr>rc_max_position_per_token = 1000, rc_max_single_fill_value = 100,
        rc_daily_loss_limit_wei = 500, rc_max_pending_fills = 3, rc_enabled = True\<rparr>)))"

lemmas sample_risk_simps = sample_risk_def RiskManager_record_fill_complete_def
  RiskManager_record_fill_start_def RiskManager_new_def

theorem check_fill_exact_witness:
  "RiskCheckResult_is_passed (RiskManager_check_fill 100 900 sample_risk)
   \<and> \<not> RiskCheckResult_is_passed (RiskManager_check_fill 100 901 sample_risk)
   \<and> \<not> RiskCheckResult_is_passed
        (RiskManager_check_fill 1 1 (RiskManager_record_fill_complete (- 101) sample_risk))"
proof -
  let ?later = "RiskManager_record_fill_complete (- 101) sample_risk"
  have now: "in_signed 64 (rm_daily_pnl_wei sample_risk)"
    "rc_max_position_per_token (rm_config sample_risk) \<noteq> - 1"
    by (simp_all add: sample_risk_simps in_signed_def wrap_signed_def)
  have later: "in_signed 64 (rm_daily_pnl_wei ?later)"
    "rc_max_position_per_token (rm_config ?later) \<noteq> - 1"
    by (simp_all add: sample_risk_simps in_signed_def wrap_signed_def)
  show ?thesis
    using check_fill_exact [OF now, of 100 900] check_fill_exact [OF now, of 100 901]
      check_fill_exact [OF later, of 1 1]
    by (simp add: sample_risk_simps RiskManager_pending_count_def wrap_signed_def)
qed

text \<open>
  The checks run in the documented order, and the first that fails gives the reason: fill
  value, position, daily loss, pending fills.  Every result carries the counters it was based on.
\<close>

definition reason_format :: "message \<Rightarrow> string" where
  "reason_format m = (case m of Fmt f _ \<Rightarrow> f)"

theorem check_fill_reason:
  "(let c = rm_config rm; r = RiskManager_check_fill v p rm in
      rr_daily_loss_wei r = RiskManager_daily_loss_wei rm
      \<and> rr_pending_fills r = rm_pending_fills rm
      \<and> reason_format (rr_reason r) =
         (if \<not> rc_enabled c then ''risk checks disabled''
          else if RiskCheckResult_is_passed r then ''all risk checks passed''
          else if unat (rc_max_single_fill_value c) < unat v
            then ''fill value {fill_value} exceeds max single fill {}''
          else if unat (rc_max_position_per_token c) < min (unat p + unat v) (2 ^ 256 - 1)
            then ''projected position {projected} exceeds per-token limit {}''
          else if unat (rc_daily_loss_limit_wei c) < unat (RiskManager_daily_loss_wei rm)
            then ''daily loss {daily_loss} exceeds limit {}''
          else ''pending fills {pending} at limit {}''))"
proof -
  have "unat (sat_add p v) = min (unat p + unat v) (2 ^ 256 - 1)"
    by (simp add: unat_simps)
  note pos = this [symmetric]
  show ?thesis
    unfolding pos word_less_nat_alt [symmetric]
    by (simp add: RiskManager_check_fill_def RiskCheckResult_is_passed_def reason_format_def
        RiskManager_pending_count_def Let_def)
qed

section \<open>The counters\<close>

text \<open>
  The event history of a day: a fill is submitted, a fill completes with a signed result, the
  day ends.
\<close>

datatype risk_event = Fill_Start | Fill_Complete i64 | Day_End

fun risk_apply :: "risk_event \<Rightarrow> risk_manager \<Rightarrow> risk_manager" where
  "risk_apply Fill_Start rm = fst (RiskManager_record_fill_start rm)"
| "risk_apply (Fill_Complete pnl) rm = RiskManager_record_fill_complete pnl rm"
| "risk_apply Day_End rm = RiskManager_reset_daily rm"

definition risk_run :: "risk_event list \<Rightarrow> risk_manager \<Rightarrow> risk_manager" where
  "risk_run es rm = fold risk_apply es rm"

text \<open>The specification of the counters: submissions minus completions, and the sum since the last day end.\<close>

fun open_fills :: "risk_event list \<Rightarrow> int" where
  "open_fills [] = 0"
| "open_fills (Fill_Start # es) = open_fills es + 1"
| "open_fills (Fill_Complete _ # es) = open_fills es - 1"
| "open_fills (Day_End # es) = open_fills es"

fun day_loss_from :: "int \<Rightarrow> risk_event list \<Rightarrow> int" where
  "day_loss_from l [] = l"
| "day_loss_from l (Fill_Start # es) = day_loss_from l es"
| "day_loss_from l (Fill_Complete pnl # es) = day_loss_from (l - pnl) es"
| "day_loss_from l (Day_End # es) = day_loss_from 0 es"

lemma risk_run_Cons [simp]: "risk_run (e # es) rm = risk_run es (risk_apply e rm)"
  by (simp add: risk_run_def)

lemma risk_run_Nil [simp]: "risk_run [] rm = rm"
  by (simp add: risk_run_def)

lemmas risk_op_simps = RiskManager_record_fill_start_def RiskManager_record_fill_complete_def
  RiskManager_reset_daily_def

lemma risk_run_pending:
  "rm_pending_fills (risk_run es rm) = rm_pending_fills rm + word_of_int (open_fills es)"
  by (induction es arbitrary: rm rule: open_fills.induct)
     (simp_all add: risk_op_simps algebra_simps)

lemma risk_run_daily:
  "rm_daily_pnl_wei rm = wrap_signed 64 l \<Longrightarrow>
     rm_daily_pnl_wei (risk_run es rm) = wrap_signed 64 (day_loss_from l es)"
proof (induction es arbitrary: rm l)
  case Nil
  then show ?case by simp
next
  case (Cons e es)
  show ?case
  proof (cases e)
    case Fill_Start
    with Cons.prems show ?thesis
      by (simp add: Cons.IH risk_op_simps)
  next
    case (Fill_Complete pnl)
    have "wrap_signed 64 (wrap_signed 64 l - pnl) = wrap_signed 64 (l - pnl)"
      using wrap_signed_cong [of 64 l "- pnl"] by simp
    with Fill_Complete Cons.prems show ?thesis
      by (simp add: Cons.IH risk_op_simps)
  next
    case Day_End
    have "wrap_signed 64 0 = 0" by (simp add: wrap_signed_def)
    with Day_End show ?thesis
      by (simp add: Cons.IH risk_op_simps)
  qed
qed

text \<open>
  C14: The atomic counters refine the event history.  As long as the number of open fills
  of a history fits in 32 bits and its net loss since the last day end in 64 bits, the pending
  count is the number of fills started and not completed, the raw daily result is that loss, and
  the reported daily loss is its positive part.
\<close>

theorem counters_refine_history:
  assumes "0 \<le> open_fills es" "open_fills es < 2 ^ 32" "in_signed 64 (day_loss_from 0 es)"
  shows "int (unat (RiskManager_pending_count (risk_run es (RiskManager_new config)))) = open_fills es
    \<and> RiskManager_daily_pnl_raw (risk_run es (RiskManager_new config)) = day_loss_from 0 es
    \<and> int (unat (RiskManager_daily_loss_wei (risk_run es (RiskManager_new config))))
        = max 0 (day_loss_from 0 es)"
proof -
  let ?rm = "risk_run es (RiskManager_new config)"
  have "RiskManager_pending_count ?rm = word_of_int (open_fills es)"
    by (simp add: RiskManager_pending_count_def risk_run_pending RiskManager_new_def)
  then have 1: "int (unat (RiskManager_pending_count ?rm)) = open_fills es"
    using assms(1,2) by (simp add: take_bit_int_eq_self uint_word_of_int_eq)
  have "rm_daily_pnl_wei ?rm = wrap_signed 64 (day_loss_from 0 es)"
    by (rule risk_run_daily) (simp add: RiskManager_new_def wrap_signed_def)
  then have 2: "rm_daily_pnl_wei ?rm = day_loss_from 0 es"
    using assms(3) by (simp add: wrap_signed_id)
  then have 3: "int (unat (RiskManager_daily_loss_wei ?rm)) = max 0 (day_loss_from 0 es)"
    using daily_loss_value [of ?rm] assms(3) by simp
  show ?thesis
    using 1 2 3 by (simp add: RiskManager_daily_pnl_raw_def)
qed

theorem counters_refine_history_witness:
  "int (unat (RiskManager_pending_count (risk_run
      [Fill_Start, Fill_Start, Fill_Complete 7, Day_End, Fill_Start, Fill_Complete (- 40), Fill_Complete 15]
      RiskManager_with_defaults))) = 0
   \<and> RiskManager_daily_pnl_raw (risk_run
      [Fill_Start, Fill_Start, Fill_Complete 7, Day_End, Fill_Start, Fill_Complete (- 40), Fill_Complete 15]
      RiskManager_with_defaults) = 25"
  using counters_refine_history [of
      "[Fill_Start, Fill_Start, Fill_Complete 7, Day_End, Fill_Start, Fill_Complete (- 40), Fill_Complete 15]"
      RiskConfig_default]
  by (simp add: RiskManager_with_defaults_def in_signed_def del: risk_run_Cons)

text \<open>
  The hypothesis on the open fills is needed: a completion that was never started wraps the
  counter to its maximum, and with the controls enabled every later fill is rejected.
\<close>

lemma unmatched_completion_blocks_fills:
  "rc_enabled config \<Longrightarrow> rr_outcome (RiskManager_check_fill v p
      (RiskManager_record_fill_complete 0 (RiskManager_new config))) = Rejected"
  by (simp add: RiskManager_check_fill_def Let_def RiskManager_record_fill_complete_def
      RiskManager_new_def RiskManager_pending_count_def)

section \<open>Submission discipline\<close>

text \<open>
  A caller that starts a fill only after it passed the check, one at a time.  The pending count
  is then capped.
\<close>

inductive risk_step :: "risk_manager \<Rightarrow> risk_manager \<Rightarrow> bool" where
  submit: "RiskCheckResult_is_passed (RiskManager_check_fill v p rm) \<Longrightarrow>
     risk_step rm (fst (RiskManager_record_fill_start rm))"
| complete: "0 < rm_pending_fills rm \<Longrightarrow> risk_step rm (RiskManager_record_fill_complete pnl rm)"
| reset: "risk_step rm (RiskManager_reset_daily rm)"

definition risk_size :: "risk_manager \<Rightarrow> nat" where
  "risk_size rm = unat (rm_pending_fills rm)"

definition risk_cap :: "risk_manager \<Rightarrow> nat" where
  "risk_cap rm = unat (rc_max_pending_fills (rm_config rm))"

interpretation risk_fills: capped_store risk_step risk_size risk_cap "\<lambda>rm. rc_enabled (rm_config rm)"
proof unfold_locales
  fix s s' assume step: "risk_step s s'"
  then show "risk_cap s' = risk_cap s"
    by cases (simp_all add: risk_cap_def risk_op_simps)
  show "rc_enabled (rm_config s) \<Longrightarrow> rc_enabled (rm_config s')"
    using step by cases (simp_all add: risk_op_simps)
  show "rc_enabled (rm_config s) \<Longrightarrow> risk_size s' \<le> risk_size s \<or> risk_size s' \<le> risk_cap s"
    using step
  proof cases
    case (submit v p)
    assume "rc_enabled (rm_config s)"
    with submit have "unat (rm_pending_fills s) < unat (rc_max_pending_fills (rm_config s))"
      by (simp add: check_fill_passed_iff RiskManager_pending_count_def word_less_nat_alt)
    then show ?thesis
      using submit unat_lt2p [of "rc_max_pending_fills (rm_config s)"]
      by (simp add: risk_size_def risk_cap_def risk_op_simps unat_word_ariths)
  next
    case (complete pnl)
    then have "1 \<le> rm_pending_fills s"
      by (simp add: word_le_nat_alt word_less_nat_alt)
    with complete show ?thesis
      by (simp add: risk_size_def risk_op_simps unat_sub_le)
  next
    case reset
    then show ?thesis by (simp add: risk_size_def risk_op_simps)
  qed
qed

text \<open>
  When every submission follows a passed check, no two tasks checking at once, the number of
  pending fills never exceeds the configured maximum.
\<close>

theorem pending_fills_capped:
  assumes "risk_step\<^sup>*\<^sup>* (RiskManager_new config) rm" "rc_enabled config"
  shows "unat (RiskManager_pending_count rm) \<le> unat (rc_max_pending_fills config)"
  using risk_fills.run_within_cap [OF assms(1)] risk_fills.run_inv [OF assms(1)] assms(2)
  by (simp add: risk_size_def risk_cap_def RiskManager_new_def RiskManager_pending_count_def)

theorem pending_fills_capped_witness:
  "\<exists>rm. risk_step\<^sup>*\<^sup>* RiskManager_with_defaults rm \<and> unat (RiskManager_pending_count rm) \<le> 16
        \<and> RiskManager_pending_count rm = 1"
proof -
  let ?rm = "fst (RiskManager_record_fill_start (RiskManager_new RiskConfig_default))"
  have "risk_step (RiskManager_new RiskConfig_default) ?rm"
    by (rule risk_step.submit [of 1 1])
       (simp add: check_fill_passed_iff RiskManager_new_def RiskConfig_default_def sat_add_def
         RiskManager_daily_loss_wei_def RiskManager_pending_count_def word_le_nat_alt)
  then have run: "risk_step\<^sup>*\<^sup>* (RiskManager_new RiskConfig_default) ?rm" by simp
  from pending_fills_capped [OF run] have "unat (RiskManager_pending_count ?rm) \<le> 16"
    by (simp add: RiskConfig_default_def)
  with run show ?thesis
    by (intro exI [of _ ?rm])
       (simp add: RiskManager_with_defaults_def RiskManager_pending_count_def risk_op_simps
         RiskManager_new_def)
qed

text \<open>
  Two tasks that both pass the check before either records its start exceed the limit: check and
  record are separate operations.
\<close>

lemma check_then_start_race:
  "(let rm = RiskManager_new (RiskConfig_default\<lparr>rc_max_pending_fills := 1\<rparr>) in
      RiskCheckResult_is_passed (RiskManager_check_fill 1 1 rm)
      \<and> RiskManager_pending_count (risk_run [Fill_Start, Fill_Start] rm) = 2)"
  by (simp add: Let_def check_fill_passed_iff RiskManager_new_def RiskConfig_default_def sat_add_def
      RiskManager_daily_loss_wei_def RiskManager_pending_count_def word_le_nat_alt risk_op_simps)

end
