(* ===== verification/Pnl.thy ===== *)
theory Pnl
  imports Types Dash_Map "HOL-Library.List_Lexorder" "HOL-Library.Char_ord"
begin

text \<open>
  Fill accounting (\<open>phantom-inventory/src/pnl.rs\<close>): the fill records with their bounded history,
  the daily and the per-token aggregation and the running totals.  A calendar date is its
  number of days since the epoch.  \<open>chrono_date\<close> stands for \<open>DateTime::from_timestamp\<close> followed
  by \<open>date_naive\<close>, \<open>format_date\<close> for the rendering of a date, and \<open>today\<close> is the date of the
  clock at the call.
\<close>

section \<open>Records\<close>

record pnl_config =
  pc_max_fill_history :: nat
  pc_track_per_token :: bool

definition PnlConfig_default :: pnl_config where
  "PnlConfig_default = \<lparr>pc_max_fill_history = 10000, pc_track_per_token = True\<rparr>"

datatype fill_status = Fill_Pending | Fill_Confirmed | Fill_Reverted

record fill_record =
  fr_fill_id :: string
  fr_chain_id :: u64
  fr_token_in :: address
  fr_token_out :: address
  fr_amount_in :: u256
  fr_amount_out :: u256
  fr_gas_cost_wei :: u128
  fr_pnl_wei :: i128
  fr_tx_hash :: b256
  fr_timestamp :: u64
  fr_status :: fill_status

type_synonym token_pnl_key = "address \<times> u64"

record token_pnl =
  tp_token :: address
  tp_chain_id :: u64
  tp_total_bought :: u256
  tp_total_sold :: u256
  tp_total_gas_wei :: u128
  tp_net_pnl_wei :: i128
  tp_fill_count :: u32

record daily_pnl =
  dp_date :: string
  dp_realized_pnl_wei :: i128
  dp_gas_spent_wei :: u128
  dp_fill_count :: u32
  dp_reverted_count :: u32

record pnl_summary =
  ps_total_realized_pnl_wei :: i64
  ps_total_fills :: u64
  ps_today :: "daily_pnl option"
  ps_tracked_tokens :: nat
  ps_active_days :: nat

record pnl_tracker =
  pt_config :: pnl_config
  pt_fills :: "(string, fill_record) dashmap"
  pt_daily :: "(int, daily_pnl) dashmap"
  pt_tokens :: "(token_pnl_key, token_pnl) dashmap"
  pt_total_realized_wei :: i64
  pt_total_fills :: u64
  pt_fill_order :: "(u64, string) dashmap"
  pt_next_seq :: u64

definition PnlTracker_new :: "pnl_config \<Rightarrow> pnl_tracker" where
  "PnlTracker_new config =
     \<lparr>pt_config = config, pt_fills = dm_empty, pt_daily = dm_empty, pt_tokens = dm_empty,
      pt_total_realized_wei = 0, pt_total_fills = 0, pt_fill_order = dm_empty, pt_next_seq = 0\<rparr>"

definition PnlTracker_with_defaults :: pnl_tracker where
  "PnlTracker_with_defaults = PnlTracker_new PnlConfig_default"

section \<open>Recording a fill\<close>

text \<open>Rust's \<open>/\<close> on a signed integer, here by two: it truncates towards zero.\<close>

definition half_signed :: "i128 \<Rightarrow> i128" where
  "half_signed p = (if 0 \<le> p then p div 2 else - ((- p) div 2))"

text \<open>\<open>pnl.clamp(i64::MIN as i128, i64::MAX as i128) as i64\<close>, then an atomic \<open>fetch_add\<close>.\<close>

definition add_realized :: "i128 \<Rightarrow> pnl_tracker \<Rightarrow> pnl_tracker" where
  "add_realized pnl pt =
     pt\<lparr>pt_total_realized_wei := wrap_signed 64 (pt_total_realized_wei pt + sat_signed 64 pnl)\<rparr>"

definition fill_date :: "(i64 \<Rightarrow> int option) \<Rightarrow> int \<Rightarrow> u64 \<Rightarrow> int" where
  "fill_date chrono_date today timestamp =
     (case chrono_date (wrap_signed 64 (uint timestamp)) of Some d \<Rightarrow> d | None \<Rightarrow> today)"

definition record_daily ::
    "(int \<Rightarrow> string) \<Rightarrow> int \<Rightarrow> fill_record \<Rightarrow> pnl_tracker \<Rightarrow> pnl_tracker" where
  "record_daily format_date date record pt =
     (let daily = (case dm_get date (pt_daily pt) of Some d \<Rightarrow> d
            | None \<Rightarrow> \<lparr>dp_date = format_date date, dp_realized_pnl_wei = 0, dp_gas_spent_wei = 0,
                       dp_fill_count = 0, dp_reverted_count = 0\<rparr>);
          daily = daily\<lparr>dp_gas_spent_wei := sat_add (dp_gas_spent_wei daily) (fr_gas_cost_wei record)\<rparr>;
          daily = (case fr_status record of
              Fill_Confirmed \<Rightarrow> daily\<lparr>
                dp_realized_pnl_wei := sat_signed 128 (dp_realized_pnl_wei daily + fr_pnl_wei record),
                dp_fill_count := sat_add (dp_fill_count daily) 1\<rparr>
            | Fill_Reverted \<Rightarrow> daily\<lparr>dp_reverted_count := sat_add (dp_reverted_count daily) 1\<rparr>
            | Fill_Pending \<Rightarrow> daily\<lparr>dp_fill_count := sat_add (dp_fill_count daily) 1\<rparr>)
      in pt\<lparr>pt_daily := dm_insert date daily (pt_daily pt)\<rparr>)"

definition PnlTracker_update_token_pnl ::
    "address \<Rightarrow> u64 \<Rightarrow> u256 \<Rightarrow> u256 \<Rightarrow> u128 \<Rightarrow> i128 \<Rightarrow> fill_status \<Rightarrow> pnl_tracker \<Rightarrow> pnl_tracker" where
  "PnlTracker_update_token_pnl token chain_id bought sold gas_wei pnl_share status pt =
     (let key = (token, chain_id);
          entry = (case dm_get key (pt_tokens pt) of Some e \<Rightarrow> e
            | None \<Rightarrow> \<lparr>tp_token = token, tp_chain_id = chain_id, tp_total_bought = 0, tp_total_sold = 0,
                       tp_total_gas_wei = 0, tp_net_pnl_wei = 0, tp_fill_count = 0\<rparr>);
          entry = entry\<lparr>tp_total_bought := sat_add (tp_total_bought entry) bought,
                        tp_total_sold := sat_add (tp_total_sold entry) sold,
                        tp_total_gas_wei := sat_add (tp_total_gas_wei entry) gas_wei,
                        tp_fill_count := sat_add (tp_fill_count entry) 1\<rparr>;
          entry = (if status = Fill_Confirmed
            then entry\<lparr>tp_net_pnl_wei := sat_signed 128 (tp_net_pnl_wei entry + pnl_share)\<rparr>
            else entry)
      in pt\<lparr>pt_tokens := dm_insert key entry (pt_tokens pt)\<rparr>)"

text \<open>The loop of \<open>prune_if_needed\<close>: the sequence numbers from 0 are visited in order.\<close>

definition prune_seq :: "u64 \<Rightarrow> pnl_tracker \<Rightarrow> pnl_tracker" where
  "prune_seq seq pt = (case dm_get seq (pt_fill_order pt) of
       Some fill_id \<Rightarrow> pt\<lparr>pt_fill_order := dm_remove seq (pt_fill_order pt),
                          pt_fills := dm_remove fill_id (pt_fills pt)\<rparr>
     | None \<Rightarrow> pt)"

definition PnlTracker_prune_if_needed :: "pnl_tracker \<Rightarrow> pnl_tracker" where
  "PnlTracker_prune_if_needed pt =
     (let recorded = unat (pt_next_seq pt); limit = pc_max_fill_history (pt_config pt) in
      if recorded \<le> limit then pt
      else fold prune_seq (map of_nat [0..<recorded - limit]) pt)"

definition store_fill :: "fill_record \<Rightarrow> pnl_tracker \<Rightarrow> pnl_tracker" where
  "store_fill record pt =
     pt\<lparr>pt_fills := dm_insert (fr_fill_id record) record (pt_fills pt),
        pt_fill_order := dm_insert (pt_next_seq pt) (fr_fill_id record) (pt_fill_order pt),
        pt_next_seq := pt_next_seq pt + 1,
        pt_total_fills := pt_total_fills pt + 1\<rparr>"

definition record_tokens :: "fill_record \<Rightarrow> pnl_tracker \<Rightarrow> pnl_tracker" where
  "record_tokens record pt =
     (if pc_track_per_token (pt_config pt) then
        PnlTracker_update_token_pnl (fr_token_out record) (fr_chain_id record) (fr_amount_out record) 0
            (fr_gas_cost_wei record div 2) (half_signed (fr_pnl_wei record)) (fr_status record)
          (PnlTracker_update_token_pnl (fr_token_in record) (fr_chain_id record) 0 (fr_amount_in record)
            (fr_gas_cost_wei record div 2) (half_signed (fr_pnl_wei record)) (fr_status record) pt)
      else pt)"

definition PnlTracker_record_fill ::
    "(i64 \<Rightarrow> int option) \<Rightarrow> (int \<Rightarrow> string) \<Rightarrow> int \<Rightarrow> fill_record \<Rightarrow> pnl_tracker \<Rightarrow> pnl_tracker" where
  "PnlTracker_record_fill chrono_date format_date today record pt =
     (let pt = store_fill record pt;
          pt = (if fr_status record = Fill_Confirmed then add_realized (fr_pnl_wei record) pt else pt);
          date = fill_date chrono_date today (fr_timestamp record);
          pt = record_daily format_date date record pt;
          pt = record_tokens record pt
      in PnlTracker_prune_if_needed pt)"

section \<open>Status updates and queries\<close>

definition settle_daily :: "int \<Rightarrow> i128 \<Rightarrow> fill_status \<Rightarrow> fill_status \<Rightarrow> pnl_tracker \<Rightarrow> pnl_tracker" where
  "settle_daily date pnl old_status new_status pt =
     (case dm_get date (pt_daily pt) of
        None \<Rightarrow> pt
      | Some daily \<Rightarrow>
          pt\<lparr>pt_daily := dm_insert date
            (case new_status of
               Fill_Confirmed \<Rightarrow>
                 if old_status = Fill_Pending
                 then daily\<lparr>dp_realized_pnl_wei := sat_signed 128 (dp_realized_pnl_wei daily + pnl)\<rparr>
                 else daily
             | Fill_Reverted \<Rightarrow>
                 let daily = daily\<lparr>dp_reverted_count := sat_add (dp_reverted_count daily) 1\<rparr> in
                 if old_status = Fill_Pending
                 then daily\<lparr>dp_fill_count := sat_sub (dp_fill_count daily) 1\<rparr> else daily
             | Fill_Pending \<Rightarrow> daily) (pt_daily pt)\<rparr>)"

definition PnlTracker_update_fill_status ::
    "(i64 \<Rightarrow> int option) \<Rightarrow> int \<Rightarrow> string \<Rightarrow> fill_status \<Rightarrow> pnl_tracker \<Rightarrow> pnl_tracker \<times> bool" where
  "PnlTracker_update_fill_status chrono_date today fill_id new_status pt =
     (case dm_get fill_id (pt_fills pt) of
        None \<Rightarrow> (pt, False)
      | Some entry \<Rightarrow>
          let old_status = fr_status entry in
          if old_status = new_status then (pt, True)
          else
            let pnl = fr_pnl_wei entry;
                pt = pt\<lparr>pt_fills := dm_insert fill_id (entry\<lparr>fr_status := new_status\<rparr>) (pt_fills pt)\<rparr>;
                pt = (if old_status = Fill_Pending \<and> new_status = Fill_Confirmed
                      then add_realized pnl pt else pt);
                date = fill_date chrono_date today (fr_timestamp entry)
            in (settle_daily date pnl old_status new_status pt, True))"

definition PnlTracker_get_fill :: "string \<Rightarrow> pnl_tracker \<Rightarrow> fill_record option" where
  "PnlTracker_get_fill fill_id pt = dm_get fill_id (pt_fills pt)"

definition PnlTracker_get_daily_pnl :: "int \<Rightarrow> pnl_tracker \<Rightarrow> daily_pnl option" where
  "PnlTracker_get_daily_pnl date pt = dm_get date (pt_daily pt)"

definition PnlTracker_get_today_pnl :: "int \<Rightarrow> pnl_tracker \<Rightarrow> daily_pnl option" where
  "PnlTracker_get_today_pnl today pt = PnlTracker_get_daily_pnl today pt"

definition PnlTracker_get_token_pnl :: "address \<Rightarrow> u64 \<Rightarrow> pnl_tracker \<Rightarrow> token_pnl option" where
  "PnlTracker_get_token_pnl token chain_id pt = dm_get (token, chain_id) (pt_tokens pt)"

definition PnlTracker_all_token_pnl :: "pnl_tracker \<Rightarrow> token_pnl list" where
  "PnlTracker_all_token_pnl pt = map snd (dm_iter (pt_tokens pt))"

text \<open>A stable sort by date, descending.\<close>

definition PnlTracker_all_daily_pnl :: "pnl_tracker \<Rightarrow> daily_pnl list" where
  "PnlTracker_all_daily_pnl pt = rev (sort_key dp_date (rev (map snd (dm_iter (pt_daily pt)))))"

text \<open>
  The loop of \<open>recent_fills\<close> over the sequence numbers, newest first; it stops once \<open>limit\<close>
  records are collected, which it tests after each step.
\<close>

fun recent_loop :: "nat \<Rightarrow> pnl_tracker \<Rightarrow> u64 list \<Rightarrow> fill_record list \<Rightarrow> fill_record list" where
  "recent_loop limit pt [] fills = fills"
| "recent_loop limit pt (seq # seqs) fills =
     (let fills = (case dm_get seq (pt_fill_order pt) of
              None \<Rightarrow> fills
            | Some fill_id \<Rightarrow> (case dm_get fill_id (pt_fills pt) of
                None \<Rightarrow> fills | Some record \<Rightarrow> fills @ [record]))
      in if limit \<le> length fills then fills else recent_loop limit pt seqs fills)"

definition PnlTracker_recent_fills :: "nat \<Rightarrow> pnl_tracker \<Rightarrow> fill_record list" where
  "PnlTracker_recent_fills limit pt =
     (let recorded = pt_next_seq pt; start = sat_sub recorded (of_nat limit) in
      recent_loop limit pt (map of_nat (rev [unat start..<unat recorded])) [])"

definition PnlTracker_summary :: "int \<Rightarrow> pnl_tracker \<Rightarrow> pnl_summary" where
  "PnlTracker_summary today pt =
     \<lparr>ps_total_realized_pnl_wei = pt_total_realized_wei pt, ps_total_fills = pt_total_fills pt,
      ps_today = PnlTracker_get_today_pnl today pt, ps_tracked_tokens = dm_len (pt_tokens pt),
      ps_active_days = dm_len (pt_daily pt)\<rparr>"

definition PnlTracker_fill_count :: "pnl_tracker \<Rightarrow> u64" where
  "PnlTracker_fill_count pt = pt_total_fills pt"

definition PnlTracker_total_realized_pnl :: "pnl_tracker \<Rightarrow> i64" where
  "PnlTracker_total_realized_pnl pt = pt_total_realized_wei pt"

section \<open>The history of records\<close>

text \<open>The aggregation steps leave the records, their order and the configuration alone.\<close>

definition history_view ::
    "pnl_tracker \<Rightarrow> pnl_config \<times> (string, fill_record) dashmap \<times> (u64, string) dashmap \<times> u64" where
  "history_view pt = (pt_config pt, pt_fills pt, pt_fill_order pt, pt_next_seq pt)"

lemma view_add_realized [simp]: "history_view (add_realized p pt) = history_view pt"
  by (simp add: history_view_def add_realized_def)

lemma view_record_daily [simp]: "history_view (record_daily f d r pt) = history_view pt"
  by (simp add: history_view_def record_daily_def Let_def)

lemma view_record_tokens [simp]: "history_view (record_tokens r pt) = history_view pt"
  by (simp add: history_view_def record_tokens_def PnlTracker_update_token_pnl_def Let_def)

lemma view_prune_seq_cong:
  "history_view pt = history_view pt' \<Longrightarrow> history_view (prune_seq s pt) = history_view (prune_seq s pt')"
  by (auto simp: history_view_def prune_seq_def split: option.split)

lemma view_prune_fold_cong:
  "history_view pt = history_view pt' \<Longrightarrow>
     history_view (fold prune_seq ss pt) = history_view (fold prune_seq ss pt')"
proof (induction ss arbitrary: pt pt')
  case (Cons s ss)
  show ?case
    unfolding fold.simps comp_def by (rule Cons.IH [OF view_prune_seq_cong [OF Cons.prems]])
qed simp

lemma view_prune_cong:
  assumes "history_view pt = history_view pt'"
  shows "history_view (PnlTracker_prune_if_needed pt) = history_view (PnlTracker_prune_if_needed pt')"
proof -
  have "pt_next_seq pt = pt_next_seq pt'" "pt_config pt = pt_config pt'"
    using assms by (simp_all add: history_view_def)
  moreover have "history_view (fold prune_seq ss pt) = history_view (fold prune_seq ss pt')" for ss
    using assms by (rule view_prune_fold_cong)
  ultimately show ?thesis
    using assms by (simp add: PnlTracker_prune_if_needed_def Let_def)
qed

lemma view_record_fill:
  "history_view (PnlTracker_record_fill c f t r pt) =
     history_view (PnlTracker_prune_if_needed (store_fill r pt))"
  unfolding PnlTracker_record_fill_def Let_def by (rule view_prune_cong) simp

lemma prune_fold_simps [simp]:
  "pt_config (fold prune_seq ss pt) = pt_config pt"
  "pt_next_seq (fold prune_seq ss pt) = pt_next_seq pt"
  by (induction ss arbitrary: pt) (simp_all add: prune_seq_def split: option.split)

lemma prune_seq_order:
  "dm_get s (pt_fill_order (prune_seq a pt)) = (if s = a then None else dm_get s (pt_fill_order pt))"
  by (auto simp: prune_seq_def split: option.split)

lemma prune_seq_fills:
  "dm_get i (pt_fills (prune_seq a pt)) =
     (if dm_get a (pt_fill_order pt) = Some i then None else dm_get i (pt_fills pt))"
  by (auto simp: prune_seq_def split: option.split)

lemma prune_fold_order:
  "dm_get s (pt_fill_order (fold prune_seq ss pt)) =
     (if s \<in> set ss then None else dm_get s (pt_fill_order pt))"
  by (induction ss arbitrary: pt) (auto simp: prune_seq_order)

lemma prune_fold_fills:
  "dm_get i (pt_fills (fold prune_seq ss pt)) =
     (if \<exists>s \<in> set ss. dm_get s (pt_fill_order pt) = Some i then None else dm_get i (pt_fills pt))"
  by (induction ss arbitrary: pt) (auto simp: prune_seq_order prune_seq_fills)

lemma prune_fold_wf:
  "dm_wf (pt_fills pt) \<Longrightarrow> dm_wf (pt_fills (fold prune_seq ss pt))"
  "dm_wf (pt_fill_order pt) \<Longrightarrow> dm_wf (pt_fill_order (fold prune_seq ss pt))"
  by (induction ss arbitrary: pt) (auto simp: prune_seq_def wf_intros split: option.split)

text \<open>What a pruned tracker retains, by sequence number.\<close>

lemma in_pruned: "n \<le> 2 ^ 64 \<Longrightarrow> (s :: u64) \<in> set (map of_nat [0..<n]) \<longleftrightarrow> unat s < n"
proof
  assume "unat s < n"
  moreover have "s = of_nat (unat s)" by simp
  ultimately show "s \<in> set (map of_nat [0..<n])" by (metis atLeastLessThan_iff image_eqI le0 set_map set_upt)
next
  assume "n \<le> 2 ^ 64" "s \<in> set (map of_nat [0..<n])"
  then obtain i where "i < n" "s = of_nat i" by auto
  with \<open>n \<le> 2 ^ 64\<close> show "unat s < n" by (simp add: unat_of_nat take_bit_nat_eq_self)
qed

lemma prune_order:
  "dm_get s (pt_fill_order (PnlTracker_prune_if_needed pt)) =
     (if unat s < unat (pt_next_seq pt) - pc_max_fill_history (pt_config pt) then None
      else dm_get s (pt_fill_order pt))"
proof -
  have "unat (pt_next_seq pt) - pc_max_fill_history (pt_config pt) \<le> 2 ^ 64"
    using unat_lt2p [of "pt_next_seq pt"] by simp
  then show ?thesis
    by (simp add: PnlTracker_prune_if_needed_def Let_def prune_fold_order in_pruned del: set_map)
qed

lemma prune_fills:
  "dm_get i (pt_fills (PnlTracker_prune_if_needed pt)) =
     (if \<exists>s. unat s < unat (pt_next_seq pt) - pc_max_fill_history (pt_config pt)
             \<and> dm_get s (pt_fill_order pt) = Some i
      then None else dm_get i (pt_fills pt))"
proof -
  have "unat (pt_next_seq pt) - pc_max_fill_history (pt_config pt) \<le> 2 ^ 64"
    using unat_lt2p [of "pt_next_seq pt"] by simp
  then show ?thesis
    by (simp add: PnlTracker_prune_if_needed_def Let_def prune_fold_fills Bex_def in_pruned del: set_map)
qed

lemma prune_other [simp]:
  "pt_config (PnlTracker_prune_if_needed pt) = pt_config pt"
  "pt_next_seq (PnlTracker_prune_if_needed pt) = pt_next_seq pt"
  by (simp_all add: PnlTracker_prune_if_needed_def Let_def)

lemma prune_wf:
  "dm_wf (pt_fills pt) \<Longrightarrow> dm_wf (pt_fills (PnlTracker_prune_if_needed pt))"
  "dm_wf (pt_fill_order pt) \<Longrightarrow> dm_wf (pt_fill_order (PnlTracker_prune_if_needed pt))"
  by (simp_all add: PnlTracker_prune_if_needed_def Let_def prune_fold_wf)

lemma record_fill_view_simps:
  "pt_config (PnlTracker_record_fill c f t r pt) = pt_config pt"
  "pt_next_seq (PnlTracker_record_fill c f t r pt) = pt_next_seq pt + 1"
  "pt_fills (PnlTracker_record_fill c f t r pt) = pt_fills (PnlTracker_prune_if_needed (store_fill r pt))"
  "pt_fill_order (PnlTracker_record_fill c f t r pt)
     = pt_fill_order (PnlTracker_prune_if_needed (store_fill r pt))"
  using view_record_fill [of c f t r pt] by (simp_all add: history_view_def store_fill_def)

section \<open>Recent fills\<close>

text \<open>
  The abstract history is the list of the records, oldest first.  A tracker represents it when
  the last \<open>max_fill_history\<close> of them are the ones it can find.
\<close>

definition represents :: "pnl_tracker \<Rightarrow> fill_record list \<Rightarrow> bool" where
  "represents pt recs \<longleftrightarrow>
     (let n = length recs; k = n - pc_max_fill_history (pt_config pt) in
        pt_next_seq pt = of_nat n
        \<and> (\<forall>s. dm_get s (pt_fill_order pt) =
               (if k \<le> unat s \<and> unat s < n then Some (fr_fill_id (recs ! unat s)) else None))
        \<and> (\<forall>i r. dm_get i (pt_fills pt) = Some r \<longleftrightarrow> r \<in> set (drop k recs) \<and> fr_fill_id r = i))"

lemma represents_new: "represents (PnlTracker_new config) []"
  by (simp add: represents_def PnlTracker_new_def)

lemma in_set_drop_iff: "x \<in> set (drop k xs) \<longleftrightarrow> (\<exists>i. k \<le> i \<and> i < length xs \<and> xs ! i = x)"
proof
  assume "x \<in> set (drop k xs)"
  then obtain j where "j < length (drop k xs)" "drop k xs ! j = x" by (auto simp: in_set_conv_nth)
  then show "\<exists>i. k \<le> i \<and> i < length xs \<and> xs ! i = x" by (intro exI [of _ "k + j"]) simp
next
  assume "\<exists>i. k \<le> i \<and> i < length xs \<and> xs ! i = x"
  then obtain i where "k \<le> i" "i < length xs" "xs ! i = x" by blast
  then have "i - k < length (drop k xs)" "drop k xs ! (i - k) = x" by simp_all
  then show "x \<in> set (drop k xs)" by (metis nth_mem)
qed

lemma represents_record:
  assumes rep: "represents pt recs"
    and fresh: "fr_fill_id r \<notin> fr_fill_id ` set recs"
    and dist: "distinct (map fr_fill_id recs)"
    and len: "Suc (length recs) < 2 ^ 64"
  shows "represents (PnlTracker_record_fill c f t r pt) (recs @ [r])"
proof -
  let ?n = "length recs" and ?h = "pc_max_fill_history (pt_config pt)" and ?xs = "recs @ [r]"
  let ?k = "?n - ?h" and ?k' = "Suc ?n - ?h"
  have n: "pt_next_seq pt = of_nat ?n" "unat (of_nat ?n :: u64) = ?n"
    using rep len by (simp_all add: represents_def Let_def unat_of_nat take_bit_nat_eq_self)
  have n': "unat (of_nat ?n + 1 :: u64) = Suc ?n"
    using n(2) len by (subst unat_add_lt) simp_all
  have "dm_get s (pt_fill_order pt) =
      (if ?k \<le> unat s \<and> unat s < ?n then Some (fr_fill_id (recs ! unat s)) else None)" for s
    using rep by (simp add: represents_def Let_def)
  moreover have "s = of_nat ?n \<longleftrightarrow> unat s = ?n" for s :: u64
    using n(2) by (metis word_unat_eq_iff)
  ultimately have order: "dm_get s (pt_fill_order (store_fill r pt)) =
      (if ?k \<le> unat s \<and> unat s < Suc ?n then Some (fr_fill_id (?xs ! unat s)) else None)" for s
    by (auto simp: store_fill_def n(1) nth_append)
  have "drop ?k ?xs = drop ?k recs @ [r]" by simp
  moreover have "dm_get i (pt_fills pt) = Some x \<longleftrightarrow> x \<in> set (drop ?k recs) \<and> fr_fill_id x = i" for i x
    using rep by (simp add: represents_def Let_def)
  ultimately have fills: "dm_get i (pt_fills (store_fill r pt)) = Some x \<longleftrightarrow>
      x \<in> set (drop ?k ?xs) \<and> fr_fill_id x = i" for i x
    using fresh by (auto simp: store_fill_def dest: in_set_dropD) (metis image_eqI in_set_dropD)
  have other: "pt_next_seq (store_fill r pt) = of_nat ?n + 1" "pt_config (store_fill r pt) = pt_config pt"
    by (simp_all add: store_fill_def n(1))
  have "distinct (map fr_fill_id ?xs)" using dist fresh by simp
  then have inj: "fr_fill_id (?xs ! i) = fr_fill_id (?xs ! j) \<longleftrightarrow> i = j" if "i < Suc ?n" "j < Suc ?n" for i j
    using nth_eq_iff_index_eq [of "map fr_fill_id ?xs" i j] that by (simp del: map_append)
  have gone: "(\<exists>s. unat s < ?k' \<and> dm_get s (pt_fill_order (store_fill r pt)) = Some i) \<longleftrightarrow>
      (\<exists>j. ?k \<le> j \<and> j < ?k' \<and> fr_fill_id (?xs ! j) = i)" for i
  proof
    assume "\<exists>s. unat s < ?k' \<and> dm_get s (pt_fill_order (store_fill r pt)) = Some i"
    then obtain s where "unat s < ?k'" "dm_get s (pt_fill_order (store_fill r pt)) = Some i" by blast
    then show "\<exists>j. ?k \<le> j \<and> j < ?k' \<and> fr_fill_id (?xs ! j) = i"
      unfolding order by (intro exI [of _ "unat s"]) (simp split: if_splits)
  next
    assume "\<exists>j. ?k \<le> j \<and> j < ?k' \<and> fr_fill_id (?xs ! j) = i"
    then obtain j where j: "?k \<le> j" "j < ?k'" "fr_fill_id (?xs ! j) = i" by blast
    then have "j < 2 ^ 64" "j < Suc ?n" using len by linarith+
    then have "unat (of_nat j :: u64) = j" by (simp add: unat_of_nat take_bit_nat_eq_self)
    with j \<open>j < Suc ?n\<close> show "\<exists>s. unat s < ?k' \<and> dm_get s (pt_fill_order (store_fill r pt)) = Some i"
      unfolding order by (intro exI [of _ "of_nat j"]) simp
  qed
  have order': "dm_get s (pt_fill_order (PnlTracker_record_fill c f t r pt)) =
      (if ?k' \<le> unat s \<and> unat s < Suc ?n then Some (fr_fill_id (?xs ! unat s)) else None)" for s
    by (auto simp: record_fill_view_simps prune_order other n' order)
  have recorded: "dm_get i (pt_fills (PnlTracker_record_fill c f t r pt)) =
      (if \<exists>j. ?k \<le> j \<and> j < ?k' \<and> fr_fill_id (?xs ! j) = i then None
       else dm_get i (pt_fills (store_fill r pt)))" for i
    by (simp only: record_fill_view_simps prune_fills other n' gone)
  have fills': "dm_get i (pt_fills (PnlTracker_record_fill c f t r pt)) = Some x \<longleftrightarrow>
      x \<in> set (drop ?k' ?xs) \<and> fr_fill_id x = i" (is "?L \<longleftrightarrow> ?R") for i x
  proof
    assume L: ?L
    then have "dm_get i (pt_fills (store_fill r pt)) = Some x"
      and old: "\<not> (\<exists>j. ?k \<le> j \<and> j < ?k' \<and> fr_fill_id (?xs ! j) = i)"
      unfolding recorded by (metis option.distinct(1))+
    then obtain m where "?k \<le> m" "m < length ?xs" "?xs ! m = x" "fr_fill_id x = i"
      unfolding fills in_set_drop_iff by blast
    with old show ?R unfolding in_set_drop_iff by (metis not_less)
  next
    assume ?R
    then obtain m where m: "?k' \<le> m" "m < Suc ?n" "?xs ! m = x" "fr_fill_id x = i"
      unfolding in_set_drop_iff by auto
    then have "dm_get i (pt_fills (store_fill r pt)) = Some x"
      unfolding fills in_set_drop_iff by (intro conjI exI [of _ m]) simp_all
    moreover have "\<not> (\<exists>j. ?k \<le> j \<and> j < ?k' \<and> fr_fill_id (?xs ! j) = i)"
      using m inj by (metis less_le_trans less_trans not_less_iff_gr_or_eq)
    ultimately show ?L
      unfolding recorded by (simp only: if_False)
  qed
  show ?thesis
    using order' fills' n by (simp add: represents_def Let_def record_fill_view_simps)
qed

text \<open>A run that records the given fills, each on the given day of the clock.\<close>

fun record_all ::
    "(i64 \<Rightarrow> int option) \<Rightarrow> (int \<Rightarrow> string) \<Rightarrow> (int \<times> fill_record) list \<Rightarrow> pnl_tracker \<Rightarrow> pnl_tracker" where
  "record_all c f [] pt = pt"
| "record_all c f ((today, r) # rs) pt = record_all c f rs (PnlTracker_record_fill c f today r pt)"

lemma represents_record_all:
  assumes "represents pt recs" "distinct (map fr_fill_id (recs @ map snd rs))"
    and "length recs + length rs < 2 ^ 64"
  shows "represents (record_all c f rs pt) (recs @ map snd rs)
    \<and> pt_config (record_all c f rs pt) = pt_config pt"
  using assms
proof (induction rs arbitrary: pt recs)
  case Nil
  then show ?case by simp
next
  case (Cons e rs)
  obtain today r where e: "e = (today, r)" by (cases e)
  have "represents (PnlTracker_record_fill c f today r pt) (recs @ [r])"
    using Cons.prems e by (intro represents_record) auto
  then show ?case
    using Cons.prems e Cons.IH [of "PnlTracker_record_fill c f today r pt" "recs @ [r]"]
    by (simp add: record_fill_view_simps)
qed

definition recent_lookup :: "pnl_tracker \<Rightarrow> u64 \<Rightarrow> fill_record option" where
  "recent_lookup pt s = Option.bind (dm_get s (pt_fill_order pt)) (\<lambda>i. dm_get i (pt_fills pt))"

lemma recent_loop_conv:
  "length acc < limit \<Longrightarrow> recent_loop limit pt seqs acc =
     acc @ take (limit - length acc) (List.map_filter (recent_lookup pt) seqs)"
proof (induction seqs arbitrary: acc)
  case Nil
  then show ?case by (simp add: map_filter_simps)
next
  case (Cons s seqs)
  show ?case
  proof (cases "recent_lookup pt s")
    case None
    then have "recent_loop limit pt (s # seqs) acc = recent_loop limit pt seqs acc"
      using Cons.prems by (auto simp: recent_lookup_def Let_def split: option.splits Option.bind_splits)
    with None Cons show ?thesis by (simp add: map_filter_simps)
  next
    case (Some r)
    then have "recent_loop limit pt (s # seqs) acc =
        (if limit \<le> length (acc @ [r]) then acc @ [r] else recent_loop limit pt seqs (acc @ [r]))"
      by (auto simp: recent_lookup_def Let_def split: option.splits Option.bind_splits)
    moreover have "limit - length acc = Suc (limit - length (acc @ [r]))" using Cons.prems by simp
    ultimately show ?thesis
      using Some Cons.prems Cons.IH [of "acc @ [r]"] by (auto simp: map_filter_simps not_le)
  qed
qed

lemma map_filter_rev: "List.map_filter g (rev xs) = rev (List.map_filter g xs)"
  by (simp add: List.map_filter_def rev_map rev_filter)

lemma map_filter_append: "List.map_filter g (xs @ ys) = List.map_filter g xs @ List.map_filter g ys"
  by (simp add: List.map_filter_def)

lemma map_filter_None: "\<forall>x \<in> set xs. g x = None \<Longrightarrow> List.map_filter g xs = []"
  by (induction xs) (simp_all add: map_filter_simps)

lemma map_filter_Some: "\<forall>x \<in> set xs. g x = Some (h x) \<Longrightarrow> List.map_filter g xs = map h xs"
  by (induction xs) (simp_all add: map_filter_simps)

lemma recent_lookup_represents:
  assumes "represents pt recs" "i < length recs" "length recs < 2 ^ 64"
  shows "recent_lookup pt (of_nat i) =
    (if length recs - pc_max_fill_history (pt_config pt) \<le> i then Some (recs ! i) else None)"
proof -
  let ?k = "length recs - pc_max_fill_history (pt_config pt)"
  have i: "unat (of_nat i :: u64) = i"
    using assms by (simp add: unat_of_nat take_bit_nat_eq_self)
  show ?thesis
  proof (cases "?k \<le> i")
    case True
    then have "recs ! i \<in> set (drop ?k recs)" using assms(2) by (auto simp: in_set_drop_iff)
    with assms i True show ?thesis by (simp add: represents_def Let_def recent_lookup_def)
  next
    case False
    with assms i show ?thesis by (simp add: represents_def Let_def recent_lookup_def)
  qed
qed

lemma recent_fills_of_recorded:
  assumes "distinct (map (fr_fill_id \<circ> snd) rs)" "length rs < 2 ^ 64" "limit < 2 ^ 64"
  shows "PnlTracker_recent_fills limit (record_all chrono_date format_date rs (PnlTracker_new config)) =
    take (min limit (pc_max_fill_history config)) (rev (map snd rs))"
proof -
  let ?pt = "record_all chrono_date format_date rs (PnlTracker_new config)" and ?recs = "map snd rs"
  let ?n = "length rs" and ?h = "pc_max_fill_history config"
  let ?m = "?n - limit" and ?k = "?n - ?h"
  have rep: "represents ?pt ?recs" and "pt_config ?pt = pt_config (PnlTracker_new config)"
    using represents_record_all [OF represents_new [of config], of rs chrono_date format_date] assms
    by simp_all
  then have cfg: "pt_config ?pt = config" by (simp add: PnlTracker_new_def)
  have n: "pt_next_seq ?pt = of_nat ?n" "unat (of_nat ?n :: u64) = ?n" "unat (of_nat limit :: u64) = limit"
    using rep assms by (simp_all add: represents_def Let_def unat_of_nat take_bit_nat_eq_self)
  show ?thesis
  proof (cases "limit = 0")
    case True
    then show ?thesis by (simp add: PnlTracker_recent_fills_def Let_def n)
  next
    case False
    let ?look = "\<lambda>i. recent_lookup ?pt (of_nat i)"
    have split: "[?m..<?n] = [?m..<max ?m ?k] @ [max ?m ?k..<?n]"
      using upt_add_eq_append [of ?m "max ?m ?k" "?n - max ?m ?k"] by simp
    have look: "?look i = (if ?k \<le> i then Some (?recs ! i) else None)" if "i < ?n" for i
      using recent_lookup_represents [OF rep, of i] that assms by (simp add: cfg)
    have "List.map_filter ?look [?m..<max ?m ?k] = []"
      using look by (intro map_filter_None) auto
    moreover have "List.map_filter ?look [max ?m ?k..<?n] = map ((!) ?recs) [max ?m ?k..<?n]"
      using look by (intro map_filter_Some) auto
    moreover have "\<dots> = drop (max ?m ?k) ?recs"
      by (metis drop_map drop_upt length_map map_nth add_0)
    ultimately have mf: "List.map_filter ?look [?m..<?n] = drop (max ?m ?k) ?recs"
      by (subst split) (simp only: map_filter_append, simp)
    have "PnlTracker_recent_fills limit ?pt =
        take limit (List.map_filter (recent_lookup ?pt) (map of_nat (rev [?m..<?n])))"
      using False by (simp add: PnlTracker_recent_fills_def Let_def n unat_simps recent_loop_conv)
    also have "List.map_filter (recent_lookup ?pt) (map of_nat (rev [?m..<?n])) =
        rev (List.map_filter ?look [?m..<?n])"
      by (simp add: List.map_filter_def filter_map comp_def flip: rev_map rev_filter)
    also have "\<dots> = take (?n - max ?m ?k) (rev ?recs)"
      by (simp only: mf rev_drop length_map)
    also have "take limit \<dots> = take (min limit ?h) (rev ?recs)"
    proof -
      have "min limit (?n - max ?m ?k) = min (min limit ?h) ?n" by arith
      then have "take limit (take (?n - max ?m ?k) (rev ?recs)) = take (min (min limit ?h) ?n) (rev ?recs)"
        by (simp only: take_take)
      also have "\<dots> = take (min limit ?h) (take ?n (rev ?recs))"
        by (simp only: take_take)
      also have "take ?n (rev ?recs) = rev ?recs" by simp
      finally show ?thesis .
    qed
    finally show ?thesis .
  qed
qed

text \<open>
  After recording fills with different ids, \<open>recent_fills\<close> returns the newest of them first:
  as many as were asked for, but at most the configured history.
\<close>

theorem recent_fills_newest_first:
  assumes "distinct (map (fr_fill_id \<circ> snd) rs)" "length rs < 2 ^ 64" "limit < 2 ^ 64"
  shows "PnlTracker_recent_fills limit (record_all chrono_date format_date rs (PnlTracker_new config)) =
    take (min limit (pc_max_fill_history config)) (rev (map snd rs))"
  by (rule recent_fills_of_recorded [OF assms])

definition sample_fill :: "string \<Rightarrow> i128 \<Rightarrow> fill_status \<Rightarrow> fill_record" where
  "sample_fill fill_id pnl status =
     \<lparr>fr_fill_id = fill_id, fr_chain_id = 1, fr_token_in = 17, fr_token_out = 34,
      fr_amount_in = 1000, fr_amount_out = 1100, fr_gas_cost_wei = 21, fr_pnl_wei = pnl,
      fr_tx_hash = 7, fr_timestamp = 1700000000, fr_status = status\<rparr>"

lemma sample_fill_simps [simp]:
  "fr_fill_id (sample_fill i p st) = i" "fr_pnl_wei (sample_fill i p st) = p"
  "fr_status (sample_fill i p st) = st" "fr_timestamp (sample_fill i p st) = 1700000000"
  "(sample_fill i p st)\<lparr>fr_status := st'\<rparr> = sample_fill i p st'"
  by (simp_all add: sample_fill_def)

text \<open>Witnesses use the exact calendar: a day has 86400 seconds.\<close>

definition exact_date :: "i64 \<Rightarrow> int option" where
  "exact_date s = Some (s div 86400)"

definition no_format :: "int \<Rightarrow> string" where
  "no_format d = []"

theorem recent_fills_newest_first_witness:
  "map fr_fill_id (PnlTracker_recent_fills 5
     (record_all exact_date no_format
       [(0, sample_fill ''a'' 1 Fill_Confirmed), (0, sample_fill ''b'' 2 Fill_Pending),
        (1, sample_fill ''c'' 3 Fill_Confirmed)]
       (PnlTracker_new \<lparr>pc_max_fill_history = 2, pc_track_per_token = True\<rparr>))) = [''c'', ''b'']"
  by (subst recent_fills_newest_first) (simp_all add: sample_fill_def)

section \<open>The history is bounded\<close>

text \<open>
  Any mix of recorded fills, repeated ids included, and status updates.  The sequence counter
  does not wrap before 2^64 - 1 records.
\<close>

inductive pnl_step :: "(i64 \<Rightarrow> int option) \<Rightarrow> (int \<Rightarrow> string) \<Rightarrow> pnl_tracker \<Rightarrow> pnl_tracker \<Rightarrow> bool"
  for chrono_date format_date where
  store: "unat (pt_next_seq pt) < 2 ^ 64 - 1 \<Longrightarrow>
    pnl_step chrono_date format_date pt (PnlTracker_record_fill chrono_date format_date today r pt)"
| update: "pnl_step chrono_date format_date pt
    (fst (PnlTracker_update_fill_status chrono_date today fill_id new_status pt))"

definition fills_size :: "pnl_tracker \<Rightarrow> nat" where
  "fills_size pt = dm_len (pt_fills pt)"

definition fills_cap :: "pnl_tracker \<Rightarrow> nat" where
  "fills_cap pt = pc_max_fill_history (pt_config pt)"

text \<open>
  Every stored record is found through some live sequence number, and the live sequence numbers
  are among the last ones of the configured history.
\<close>

definition history_inv :: "pnl_tracker \<Rightarrow> bool" where
  "history_inv pt \<longleftrightarrow> dm_wf (pt_fills pt)
     \<and> (\<forall>s. dm_get s (pt_fill_order pt) \<noteq> None \<longrightarrow>
          unat (pt_next_seq pt) - fills_cap pt \<le> unat s \<and> unat s < unat (pt_next_seq pt))
     \<and> (\<forall>i. dm_get i (pt_fills pt) \<noteq> None \<longrightarrow> (\<exists>s. dm_get s (pt_fill_order pt) = Some i))"

lemma history_inv_size:
  assumes "history_inv pt"
  shows "fills_size pt \<le> fills_cap pt"
proof -
  let ?n = "unat (pt_next_seq pt)"
  let ?S = "{s. dm_get s (pt_fill_order pt) \<noteq> None}"
  have "{i. dm_get i (pt_fills pt) \<noteq> None} \<subseteq> (\<lambda>s. the (dm_get s (pt_fill_order pt))) ` ?S"
    using assms by (force simp: history_inv_def)
  then have "card {i. dm_get i (pt_fills pt) \<noteq> None} \<le> card ?S"
    by (intro surj_card_le dm.finite_keys)
  also have "card ?S = card (unat ` ?S)"
    by (rule card_image [symmetric]) (simp add: inj_on_def word_unat_eq_iff)
  also have "\<dots> \<le> card {?n - fills_cap pt..<?n}"
    using assms by (intro card_mono) (auto simp: history_inv_def)
  finally show ?thesis
    using assms by (simp add: fills_size_def history_inv_def dm.length_iter)
qed

lemma update_fill_status_view:
  "pt_config (fst (PnlTracker_update_fill_status c t i st pt)) = pt_config pt"
  "pt_next_seq (fst (PnlTracker_update_fill_status c t i st pt)) = pt_next_seq pt"
  "pt_fill_order (fst (PnlTracker_update_fill_status c t i st pt)) = pt_fill_order pt"
  "pt_fills (fst (PnlTracker_update_fill_status c t i st pt)) =
     (case dm_get i (pt_fills pt) of None \<Rightarrow> pt_fills pt
      | Some r \<Rightarrow> if fr_status r = st then pt_fills pt
                  else dm_insert i (r\<lparr>fr_status := st\<rparr>) (pt_fills pt))"
  by (simp_all add: PnlTracker_update_fill_status_def settle_daily_def add_realized_def Let_def
      split: option.split)

lemma history_inv_update:
  "history_inv pt \<Longrightarrow> history_inv (fst (PnlTracker_update_fill_status c t i st pt))"
  by (auto simp: history_inv_def fills_cap_def update_fill_status_view wf_intros split: option.split)

lemma history_inv_record:
  assumes inv: "history_inv pt" and n: "unat (pt_next_seq pt) < 2 ^ 64 - 1"
  shows "history_inv (PnlTracker_record_fill c f t r pt)"
proof -
  let ?n = "unat (pt_next_seq pt)"
  have n': "unat (pt_next_seq pt + 1) = Suc ?n"
    using n by (subst unat_add_lt) simp_all
  have wf: "dm_wf (pt_fills (PnlTracker_record_fill c f t r pt))"
    using inv by (simp add: record_fill_view_simps prune_wf store_fill_def history_inv_def wf_intros)
  have order: "dm_get s (pt_fill_order (PnlTracker_record_fill c f t r pt)) =
      (if unat s < Suc ?n - fills_cap pt then None
       else if s = pt_next_seq pt then Some (fr_fill_id r) else dm_get s (pt_fill_order pt))" for s
    by (simp add: record_fill_view_simps prune_order store_fill_def n' fills_cap_def)
  have live: "dm_get s (pt_fill_order pt) \<noteq> None \<Longrightarrow> unat s < ?n" for s
    using inv by (simp add: history_inv_def)
  have range: "dm_get s (pt_fill_order (PnlTracker_record_fill c f t r pt)) \<noteq> None \<Longrightarrow>
      Suc ?n - fills_cap pt \<le> unat s \<and> unat s < Suc ?n" for s
    using live [of s] by (auto simp: order split: if_splits)
  have found: "\<exists>s. dm_get s (pt_fill_order (PnlTracker_record_fill c f t r pt)) = Some i"
    if i: "dm_get i (pt_fills (PnlTracker_record_fill c f t r pt)) \<noteq> None" for i
  proof -
    let ?st = "store_fill r pt"
    from i have kept: "\<And>s. unat s < Suc ?n - fills_cap pt \<Longrightarrow> dm_get s (pt_fill_order ?st) \<noteq> Some i"
      and stored: "dm_get i (pt_fills ?st) \<noteq> None"
      by (auto simp: record_fill_view_simps prune_fills store_fill_def n' fills_cap_def split: if_splits)
    have "\<exists>s. dm_get s (pt_fill_order ?st) = Some i"
    proof (cases "i = fr_fill_id r")
      case True
      then show ?thesis by (auto simp: store_fill_def)
    next
      case False
      with stored inv obtain s where s: "dm_get s (pt_fill_order pt) = Some i"
        by (auto simp: store_fill_def history_inv_def)
      with live [of s] have "s \<noteq> pt_next_seq pt" by auto
      with s show ?thesis by (intro exI [of _ s]) (simp add: store_fill_def)
    qed
    then obtain s where "dm_get s (pt_fill_order ?st) = Some i" by blast
    with kept [of s] show ?thesis
      by (intro exI [of _ s]) (auto simp: order store_fill_def)
  qed
  show ?thesis
    unfolding history_inv_def record_fill_view_simps(1,2) n' fills_cap_def
    using wf range found unfolding fills_cap_def record_fill_view_simps(1,2) n' by blast
qed

interpretation pnl_history: capped_store "pnl_step c f" fills_size fills_cap history_inv for c f
proof unfold_locales
  fix s s' assume step: "pnl_step c f s s'"
  then show cap: "fills_cap s' = fills_cap s"
    by cases (simp_all add: fills_cap_def record_fill_view_simps update_fill_status_view)
  show inv: "history_inv s'" if "history_inv s"
    using step that by cases (simp_all add: history_inv_update history_inv_record)
  show "fills_size s' \<le> fills_size s \<or> fills_size s' \<le> fills_cap s" if "history_inv s"
    using history_inv_size [OF inv [OF that]] cap by simp
qed

text \<open>
  No sequence of recorded fills (repeated ids included) and status updates makes the tracker
  hold more fill records than the configured history.
\<close>

theorem fill_history_bounded:
  assumes "(pnl_step chrono_date format_date)\<^sup>*\<^sup>* (PnlTracker_new config) pt"
  shows "dm_len (pt_fills pt) \<le> pc_max_fill_history config"
proof -
  have "history_inv (PnlTracker_new config)"
    by (simp add: history_inv_def PnlTracker_new_def)
  from pnl_history.run_within_cap [OF assms this] pnl_history.run_inv [OF assms this] show ?thesis
    by (simp add: fills_size_def fills_cap_def PnlTracker_new_def)
qed

theorem fill_history_bounded_witness:
  "\<exists>pt. (pnl_step exact_date no_format)\<^sup>*\<^sup>* PnlTracker_with_defaults pt
        \<and> dm_len (pt_fills pt) \<le> 10000 \<and> dm_len (pt_fills pt) = 1"
proof -
  let ?r = "sample_fill ''a'' 1 Fill_Confirmed"
  let ?pt = "PnlTracker_record_fill exact_date no_format 0 ?r (PnlTracker_new PnlConfig_default)"
  have "pnl_step exact_date no_format (PnlTracker_new PnlConfig_default) ?pt"
    by (rule pnl_step.store) (simp add: PnlTracker_new_def)
  then have run: "(pnl_step exact_date no_format)\<^sup>*\<^sup>* (PnlTracker_new PnlConfig_default) ?pt" by simp
  have "dm_len (pt_fills ?pt) = 1"
    by (simp add: record_fill_view_simps PnlTracker_prune_if_needed_def Let_def store_fill_def
        PnlTracker_new_def PnlConfig_default_def dm.length_put)
  with fill_history_bounded [OF run] run show ?thesis
    unfolding PnlTracker_with_defaults_def
    by (intro exI [of _ ?pt]) (simp add: PnlConfig_default_def)
qed

section \<open>The books balance\<close>

text \<open>
  The discipline of the callers: a fill is recorded under a new id, with a timestamp the calendar
  covers and before the history is full, and the status of a fill is updated only once, from
  \<open>Pending\<close>.
\<close>

definition record_date :: "(i64 \<Rightarrow> int option) \<Rightarrow> fill_record \<Rightarrow> int option" where
  "record_date chrono_date r = chrono_date (wrap_signed 64 (uint (fr_timestamp r)))"

inductive ledger_step :: "(i64 \<Rightarrow> int option) \<Rightarrow> (int \<Rightarrow> string) \<Rightarrow> pnl_tracker \<Rightarrow> pnl_tracker \<Rightarrow> bool"
  for c f where
  store: "dm_get (fr_fill_id r) (pt_fills pt) = None \<Longrightarrow> record_date c r \<noteq> None \<Longrightarrow>
    unat (pt_next_seq pt) < pc_max_fill_history (pt_config pt) \<Longrightarrow>
    ledger_step c f pt (PnlTracker_record_fill c f today r pt)"
| settle: "dm_get i (pt_fills pt) = Some r \<Longrightarrow> fr_status r = Fill_Pending \<Longrightarrow>
    ledger_step c f pt (fst (PnlTracker_update_fill_status c today i st pt))"

text \<open>What the counters should show: sums over the stored records.\<close>

definition fill_sum :: "(fill_record \<Rightarrow> int) \<Rightarrow> (string, fill_record) dashmap \<Rightarrow> int" where
  "fill_sum g fills = (\<Sum>e\<leftarrow>dm_iter fills. g (snd e))"

definition realized_pnl :: "fill_record \<Rightarrow> int" where
  "realized_pnl r = (if fr_status r = Fill_Confirmed then sat_signed 64 (fr_pnl_wei r) else 0)"

definition counted_on :: "(i64 \<Rightarrow> int option) \<Rightarrow> int \<Rightarrow> fill_record \<Rightarrow> int" where
  "counted_on c d r = of_bool (record_date c r = Some d \<and> fr_status r \<noteq> Fill_Reverted)"

definition reverted_on :: "(i64 \<Rightarrow> int option) \<Rightarrow> int \<Rightarrow> fill_record \<Rightarrow> int" where
  "reverted_on c d r = of_bool (record_date c r = Some d \<and> fr_status r = Fill_Reverted)"

lemma fill_sum_put: "dm_wf m \<Longrightarrow> fill_sum g (dm_insert k v m) =
    fill_sum g m + g v - (case dm_get k m of None \<Rightarrow> 0 | Some u \<Rightarrow> g u)"
  unfolding fill_sum_def by (rule dm.sum_put)

lemma fill_sum_bounds:
  assumes "\<And>r. 0 \<le> g r \<and> g r \<le> 1"
  shows "0 \<le> fill_sum g m" "fill_sum g m \<le> int (dm_len m)"
  unfolding fill_sum_def dm_iter_def using assms by (induction m) (auto simp: add_mono)

lemma fill_sum_pos: "(\<And>r. 0 \<le> g r \<and> g r \<le> 1) \<Longrightarrow> dm_wf m \<Longrightarrow> dm_get i m = Some r \<Longrightarrow> g r \<le> fill_sum g m"
  using fill_sum_bounds(1) [of g "dm_remove i m"] fill_sum_put [of "dm_remove i m" g i r]
    dm.sum_iter [of m "g"] dm.sum_iter [of "dm_insert i r m" g]
proof -
  assume g: "\<And>r. 0 \<le> g r \<and> g r \<le> 1" and m: "dm_wf m" "dm_get i m = Some r"
  have "(i, r) \<in> set (dm_iter m)" using m by (simp add: dm.iter_get)
  then have "g r \<in> set (map (\<lambda>e. g (snd e)) (dm_iter m))" by force
  then show ?thesis
    unfolding fill_sum_def using g by (intro member_le_sum_list) auto
qed

lemma fill_sum_compl: "fill_sum (\<lambda>r. 1 - g r) m = int (dm_len m) - fill_sum g m"
  unfolding fill_sum_def dm_iter_def by (induction m) simp_all

definition day_counts :: "(int, daily_pnl) dashmap \<Rightarrow> int \<Rightarrow> int \<times> int" where
  "day_counts daily d = (case dm_get d daily of None \<Rightarrow> (0, 0)
     | Some dp \<Rightarrow> (int (unat (dp_fill_count dp)), int (unat (dp_reverted_count dp))))"

definition ledger_inv :: "(i64 \<Rightarrow> int option) \<Rightarrow> pnl_tracker \<Rightarrow> bool" where
  "ledger_inv c pt \<longleftrightarrow>
     pc_max_fill_history (pt_config pt) < 2 ^ 32 \<and> dm_wf (pt_fills pt)
     \<and> dm_len (pt_fills pt) = unat (pt_next_seq pt)
     \<and> unat (pt_next_seq pt) \<le> pc_max_fill_history (pt_config pt)
     \<and> (\<forall>i r. dm_get i (pt_fills pt) = Some r \<longrightarrow> record_date c r \<noteq> None)
     \<and> pt_total_realized_wei pt = wrap_signed 64 (fill_sum realized_pnl (pt_fills pt))
     \<and> (\<forall>d. day_counts (pt_daily pt) d =
              (fill_sum (counted_on c d) (pt_fills pt), fill_sum (reverted_on c d) (pt_fills pt)))"

lemma fill_date_known: "record_date c r = Some d \<Longrightarrow> fill_date c today (fr_timestamp r) = d"
  by (simp add: record_date_def fill_date_def)

lemma pt_daily_store_fill: "pt_daily (store_fill r pt) = pt_daily pt"
  by (simp add: store_fill_def)

lemma pt_daily_add_realized: "pt_daily (add_realized p pt) = pt_daily pt"
  by (simp add: add_realized_def)

lemma record_fill_fields:
  assumes "unat (pt_next_seq pt) < pc_max_fill_history (pt_config pt)"
    and "pc_max_fill_history (pt_config pt) < 2 ^ 32" and d: "record_date c r = Some d"
  shows "pt_fills (PnlTracker_record_fill c f t r pt) = dm_insert (fr_fill_id r) r (pt_fills pt)"
    and "unat (pt_next_seq (PnlTracker_record_fill c f t r pt)) = Suc (unat (pt_next_seq pt))"
    and "pt_total_realized_wei (PnlTracker_record_fill c f t r pt) =
      (if fr_status r = Fill_Confirmed
       then wrap_signed 64 (pt_total_realized_wei pt + sat_signed 64 (fr_pnl_wei r))
       else pt_total_realized_wei pt)"
    and "pt_daily (PnlTracker_record_fill c f t r pt) = pt_daily (record_daily f d r pt)"
proof -
  have n: "unat (pt_next_seq pt + 1) = Suc (unat (pt_next_seq pt))"
    using assms(1,2) by (subst unat_add_lt) simp_all
  show "unat (pt_next_seq (PnlTracker_record_fill c f t r pt)) = Suc (unat (pt_next_seq pt))"
    by (simp add: record_fill_view_simps n)
  have noprune: "PnlTracker_prune_if_needed x = x"
    if "pt_next_seq x = pt_next_seq pt + 1" "pt_config x = pt_config pt" for x
    using assms(1) by (simp add: PnlTracker_prune_if_needed_def Let_def that n)
  show "pt_fills (PnlTracker_record_fill c f t r pt) = dm_insert (fr_fill_id r) r (pt_fills pt)"
    by (simp add: record_fill_view_simps noprune store_fill_def)
  have date: "fill_date c t (fr_timestamp r) = d" using d by (rule fill_date_known)
  let ?x = "record_tokens r (record_daily f d r (if fr_status r = Fill_Confirmed
      then add_realized (fr_pnl_wei r) (store_fill r pt) else store_fill r pt))"
  have "PnlTracker_prune_if_needed ?x = ?x"
    by (rule noprune) (simp_all add: record_tokens_def PnlTracker_update_token_pnl_def record_daily_def
        add_realized_def store_fill_def Let_def)
  then have rec: "PnlTracker_record_fill c f t r pt = ?x"
    by (simp add: PnlTracker_record_fill_def Let_def date)
  show "pt_total_realized_wei (PnlTracker_record_fill c f t r pt) =
      (if fr_status r = Fill_Confirmed
       then wrap_signed 64 (pt_total_realized_wei pt + sat_signed 64 (fr_pnl_wei r))
       else pt_total_realized_wei pt)"
    unfolding rec by (simp add: record_tokens_def PnlTracker_update_token_pnl_def record_daily_def
        add_realized_def store_fill_def Let_def)
  have tokens: "pt_daily (record_tokens r x) = pt_daily x" for x
    by (simp add: record_tokens_def PnlTracker_update_token_pnl_def Let_def)
  have cong: "pt_daily (record_daily f d r x) = pt_daily (record_daily f d r y)"
    if "pt_daily x = pt_daily y" for x y
    using that by (simp add: record_daily_def Let_def)
  show "pt_daily (PnlTracker_record_fill c f t r pt) = pt_daily (record_daily f d r pt)"
    unfolding rec tokens by (rule cong) (simp add: pt_daily_store_fill pt_daily_add_realized)
qed

lemma wrap_add_realized: "tot = wrap_signed 64 s \<Longrightarrow>
    (if fr_status r = Fill_Confirmed then wrap_signed 64 (tot + sat_signed 64 (fr_pnl_wei r)) else tot)
      = wrap_signed 64 (s + realized_pnl r)"
  by (simp add: realized_pnl_def wrap_signed_cong)

lemma sat_inc_exact: "uint x + 1 < 2 ^ 32 \<Longrightarrow> uint (sat_add x 1) = uint x + 1" for x :: u32
proof -
  assume "uint x + 1 < 2 ^ 32"
  then have "int (unat x + 1) < int (2 ^ 32)" by simp
  then have "unat x + 1 < 2 ^ 32" by (simp only: of_nat_less_iff)
  then have "unat (sat_add x 1) = unat x + 1" by (simp add: unat_simps)
  then have "int (unat (sat_add x 1)) = int (unat x + 1)" by (simp only:)
  then show ?thesis by simp
qed

lemma sat_dec_exact: "0 < uint x \<Longrightarrow> uint (sat_sub x 1) = uint x - 1" for x :: u32
proof -
  assume "0 < uint x"
  then have "int 0 < int (unat x)" by simp
  then have "0 < unat x" by (simp only: of_nat_less_iff)
  then have "unat (sat_sub x 1) + 1 = unat x" by (simp add: unat_simps)
  then have "int (unat (sat_sub x 1) + 1) = int (unat x)" by (simp only:)
  then show ?thesis by simp
qed

lemma count_range: "0 \<le> counted_on c d r \<and> counted_on c d r \<le> 1" "0 \<le> reverted_on c d r \<and> reverted_on c d r \<le> 1"
  by (simp_all add: counted_on_def reverted_on_def)

lemma day_counts_record:
  assumes "\<And>d. fst (day_counts (pt_daily pt) d) < 2 ^ 32 - 1 \<and> snd (day_counts (pt_daily pt) d) < 2 ^ 32 - 1"
    and "record_date c r = Some d"
  shows "day_counts (pt_daily (record_daily f d r pt)) d' =
    (fst (day_counts (pt_daily pt) d') + counted_on c d' r,
     snd (day_counts (pt_daily pt) d') + reverted_on c d' r)"
  using assms(1) [of d] assms(2)
  by (cases "fr_status r"; cases "dm_get d (pt_daily pt)")
     (auto simp: record_daily_def Let_def day_counts_def counted_on_def reverted_on_def sat_inc_exact)

lemma ledger_inv_store:
  assumes inv: "ledger_inv c pt" and new: "dm_get (fr_fill_id r) (pt_fills pt) = None"
    and d: "record_date c r \<noteq> None" and n: "unat (pt_next_seq pt) < pc_max_fill_history (pt_config pt)"
  shows "ledger_inv c (PnlTracker_record_fill c f t r pt)"
proof -
  from d obtain d where d: "record_date c r = Some d" by blast
  have lim: "pc_max_fill_history (pt_config pt) < 2 ^ 32" and wf: "dm_wf (pt_fills pt)"
    and len: "dm_len (pt_fills pt) = unat (pt_next_seq pt)"
    and tot: "pt_total_realized_wei pt = wrap_signed 64 (fill_sum realized_pnl (pt_fills pt))"
    and days: "\<And>d. day_counts (pt_daily pt) d =
        (fill_sum (counted_on c d) (pt_fills pt), fill_sum (reverted_on c d) (pt_fills pt))"
    using inv by (simp_all add: ledger_inv_def)
  note rec = record_fill_fields [OF n lim d, where f = f and t = t]
  have "dm_len (pt_fills pt) < 4294967295" using n lim len by simp
  then have small: "fill_sum g (pt_fills pt) < 2 ^ 32 - 1" if "\<And>r. 0 \<le> g r \<and> g r \<le> 1" for g
    using fill_sum_bounds(2) [of g "pt_fills pt", OF that] by simp
  have cnt: "day_counts (pt_daily (record_daily f d r pt)) d' =
    (fst (day_counts (pt_daily pt) d') + counted_on c d' r,
     snd (day_counts (pt_daily pt) d') + reverted_on c d' r)" for d'
    by (rule day_counts_record [OF _ d]) (simp only: days fst_conv snd_conv small count_range simp_thms)
  have put: "fill_sum g (dm_insert (fr_fill_id r) r (pt_fills pt)) = fill_sum g (pt_fills pt) + g r" for g
    by (simp add: fill_sum_put [OF wf] new)
  show ?thesis
    unfolding ledger_inv_def rec record_fill_view_simps(1) wrap_add_realized [OF tot] put cnt
    using inv wf n new d
    by (auto simp: ledger_inv_def wf_intros dm.length_put days)
qed

lemma settle_totals:
  assumes "dm_get i (pt_fills pt) = Some r" "fr_status r = Fill_Pending" "record_date c r = Some d"
    and "st \<noteq> Fill_Pending"
  shows "pt_total_realized_wei (fst (PnlTracker_update_fill_status c t i st pt)) =
      (if st = Fill_Confirmed
       then wrap_signed 64 (pt_total_realized_wei pt + sat_signed 64 (fr_pnl_wei r))
       else pt_total_realized_wei pt)"
    and "pt_daily (fst (PnlTracker_update_fill_status c t i st pt)) =
      pt_daily (settle_daily d (fr_pnl_wei r) Fill_Pending st pt)"
  using assms
  by (auto simp: PnlTracker_update_fill_status_def settle_daily_def add_realized_def Let_def
      fill_date_known split: option.split)

lemma day_counts_settle:
  assumes "\<And>d. snd (day_counts (pt_daily pt) d) < 2 ^ 32 - 1"
    and "0 < fst (day_counts (pt_daily pt) d)" and "st \<noteq> Fill_Pending"
  shows "day_counts (pt_daily (settle_daily d p Fill_Pending st pt)) d' =
    (fst (day_counts (pt_daily pt) d') - of_bool (d' = d \<and> st = Fill_Reverted),
     snd (day_counts (pt_daily pt) d') + of_bool (d' = d \<and> st = Fill_Reverted))"
  using assms(1) [of d] assms(2,3)
  by (cases st; cases "dm_get d (pt_daily pt)")
     (auto simp: settle_daily_def Let_def day_counts_def sat_inc_exact sat_dec_exact)

lemma ledger_inv_settle:
  assumes inv: "ledger_inv c pt" and i: "dm_get i (pt_fills pt) = Some r"
    and pending: "fr_status r = Fill_Pending"
  shows "ledger_inv c (fst (PnlTracker_update_fill_status c t i st pt))"
proof (cases "st = Fill_Pending")
  case True
  with i pending inv show ?thesis by (simp add: PnlTracker_update_fill_status_def)
next
  case False
  have lim: "pc_max_fill_history (pt_config pt) < 2 ^ 32" and wf: "dm_wf (pt_fills pt)"
    and len: "dm_len (pt_fills pt) = unat (pt_next_seq pt)"
    and le: "unat (pt_next_seq pt) \<le> pc_max_fill_history (pt_config pt)"
    and tot: "pt_total_realized_wei pt = wrap_signed 64 (fill_sum realized_pnl (pt_fills pt))"
    and days: "\<And>d. day_counts (pt_daily pt) d =
        (fill_sum (counted_on c d) (pt_fills pt), fill_sum (reverted_on c d) (pt_fills pt))"
    using inv by (simp_all add: ledger_inv_def)
  from inv i have "record_date c r \<noteq> None" unfolding ledger_inv_def by blast
  then obtain d where d: "record_date c r = Some d" by blast
  let ?r = "r\<lparr>fr_status := st\<rparr>"
  have date: "record_date c ?r = Some d" using d by (simp add: record_date_def)
  have put: "fill_sum g (dm_insert i ?r (pt_fills pt)) = fill_sum g (pt_fills pt) + g ?r - g r" for g
    by (simp add: fill_sum_put [OF wf] i)
  have pos: "0 < fill_sum (counted_on c d) (pt_fills pt)"
    using fill_sum_pos [of "counted_on c d", OF count_range(1) wf i] d pending
    by (simp add: counted_on_def)
  have rev: "fill_sum (reverted_on c d') (pt_fills pt) < 2 ^ 32 - 1" for d'
  proof -
    have "0 < fill_sum (\<lambda>x. 1 - reverted_on c d' x) (pt_fills pt)"
      using fill_sum_pos [of "\<lambda>x. 1 - reverted_on c d' x", OF _ wf i] count_range(2) [of c d'] pending
      by (simp add: reverted_on_def)
    also have "\<dots> = int (dm_len (pt_fills pt)) - fill_sum (reverted_on c d') (pt_fills pt)"
      by (rule fill_sum_compl)
    finally have "fill_sum (reverted_on c d') (pt_fills pt) < int (dm_len (pt_fills pt))" by simp
    moreover have "dm_len (pt_fills pt) \<le> 4294967295" using le lim len by simp
    ultimately show ?thesis by simp
  qed
  have cnt: "day_counts (pt_daily (settle_daily d (fr_pnl_wei r) Fill_Pending st pt)) d' =
    (fst (day_counts (pt_daily pt) d') - of_bool (d' = d \<and> st = Fill_Reverted),
     snd (day_counts (pt_daily pt) d') + of_bool (d' = d \<and> st = Fill_Reverted))" for d'
    by (rule day_counts_settle)
       (simp_all only: days fst_conv snd_conv rev pos False not_False_eq_True)
  have fills: "pt_fills (fst (PnlTracker_update_fill_status c t i st pt)) = dm_insert i ?r (pt_fills pt)"
    using False pending by (simp add: update_fill_status_view i)
  have real: "(if st = Fill_Confirmed
       then wrap_signed 64 (pt_total_realized_wei pt + sat_signed 64 (fr_pnl_wei r))
       else pt_total_realized_wei pt)
     = wrap_signed 64 (fill_sum realized_pnl (pt_fills pt) + realized_pnl ?r - realized_pnl r)"
    using wrap_add_realized [OF tot, of ?r] pending
    by (cases "st = Fill_Confirmed") (simp_all add: realized_pnl_def)
  show ?thesis
    unfolding ledger_inv_def fills put update_fill_status_view(1,2)
      settle_totals [OF i pending d False] cnt real
    using inv wf date d False pending i
    by (auto simp: ledger_inv_def wf_intros dm.length_put days counted_on_def reverted_on_def)
qed

lemma ledger_run:
  assumes "(ledger_step c f)\<^sup>*\<^sup>* (PnlTracker_new config) pt" "pc_max_fill_history config < 2 ^ 32"
  shows "ledger_inv c pt"
  using assms(1)
proof (induction rule: rtranclp_induct)
  case base
  show ?case
    using assms(2)
    by (simp add: ledger_inv_def PnlTracker_new_def fill_sum_def day_counts_def wrap_signed_def)
next
  case (step pt pt')
  then show ?case by (auto elim!: ledger_step.cases intro: ledger_inv_store ledger_inv_settle)
qed


text \<open>
  The daily counters agree with the stored records: \<open>fill_count\<close> of a day is the number of
  its fills that are not reverted, pending ones included, and \<open>reverted_count\<close> the number of its
  reverted ones; a day without an entry has neither.
\<close>

theorem daily_counts_match_records:
  assumes "(ledger_step chrono_date format_date)\<^sup>*\<^sup>* (PnlTracker_new config) pt"
    and "pc_max_fill_history config < 2 ^ 32"
  shows "(case PnlTracker_get_daily_pnl d pt of None \<Rightarrow> (0, 0)
       | Some dp \<Rightarrow> (unat (dp_fill_count dp), unat (dp_reverted_count dp))) =
    (length (filter (\<lambda>e. record_date chrono_date (snd e) = Some d \<and> fr_status (snd e) \<noteq> Fill_Reverted)
        (dm_iter (pt_fills pt))),
     length (filter (\<lambda>e. record_date chrono_date (snd e) = Some d \<and> fr_status (snd e) = Fill_Reverted)
        (dm_iter (pt_fills pt))))"
proof -
  have sum: "(\<Sum>e\<leftarrow>xs. of_bool (P e)) = int (length (filter P xs))"
    for P :: "string \<times> fill_record \<Rightarrow> bool" and xs :: "(string \<times> fill_record) list"
    by (induction xs) simp_all
  define m n where
    "m = length (filter (\<lambda>e. record_date chrono_date (snd e) = Some d \<and> fr_status (snd e) \<noteq> Fill_Reverted)
        (dm_iter (pt_fills pt)))" and
    "n = length (filter (\<lambda>e. record_date chrono_date (snd e) = Some d \<and> fr_status (snd e) = Fill_Reverted)
        (dm_iter (pt_fills pt)))"
  have "day_counts (pt_daily pt) d =
      (fill_sum (counted_on chrono_date d) (pt_fills pt), fill_sum (reverted_on chrono_date d) (pt_fills pt))"
    using ledger_run [OF assms] by (simp add: ledger_inv_def)
  then have days: "day_counts (pt_daily pt) d = (int m, int n)"
    unfolding m_def n_def by (simp only: fill_sum_def counted_on_def reverted_on_def sum)
  show ?thesis
  proof (cases "dm_get d (pt_daily pt)")
    case None
    with days show ?thesis
      unfolding m_def [symmetric] n_def [symmetric]
      by (simp add: day_counts_def PnlTracker_get_daily_pnl_def)
  next
    case (Some dp)
    with days have "int (unat (dp_fill_count dp)) = int m" "int (unat (dp_reverted_count dp)) = int n"
      by (simp_all add: day_counts_def)
    then have "unat (dp_fill_count dp) = m" "unat (dp_reverted_count dp) = n"
      by (simp_all only: of_nat_eq_iff)
    with Some show ?thesis
      unfolding m_def [symmetric] n_def [symmetric] by (simp add: PnlTracker_get_daily_pnl_def)
  qed
qed

text \<open>A run with a confirmed, a confirmed-later and a reverted fill.\<close>

definition sample_record :: "string \<Rightarrow> i128 \<Rightarrow> fill_status \<Rightarrow> pnl_tracker \<Rightarrow> pnl_tracker" where
  "sample_record i p st = PnlTracker_record_fill exact_date no_format 0 (sample_fill i p st)"

definition sample_settle :: "string \<Rightarrow> fill_status \<Rightarrow> pnl_tracker \<Rightarrow> pnl_tracker" where
  "sample_settle i st pt = fst (PnlTracker_update_fill_status exact_date 0 i st pt)"

definition sample_open :: pnl_tracker where
  "sample_open = sample_record ''c'' 500 Fill_Pending (sample_record ''b'' (- 30) Fill_Pending
     (sample_record ''a'' 100 Fill_Confirmed PnlTracker_with_defaults))"

definition sample_ledger :: pnl_tracker where
  "sample_ledger = sample_settle ''c'' Fill_Reverted (sample_settle ''b'' Fill_Confirmed sample_open)"

lemma exact_record_date [simp]: "record_date exact_date (sample_fill i p st) = Some 19675"
  by (simp add: record_date_def exact_date_def wrap_signed_def)

lemma sample_record_simps [simp]:
  "pt_config (sample_record i p st pt) = pt_config pt"
  "pt_next_seq (sample_record i p st pt) = pt_next_seq pt + 1"
  by (simp_all add: sample_record_def record_fill_view_simps)

lemma sample_record_fills [simp]:
  "unat (pt_next_seq pt) < pc_max_fill_history (pt_config pt) \<Longrightarrow>
   pc_max_fill_history (pt_config pt) < 2 ^ 32 \<Longrightarrow>
     pt_fills (sample_record i p st pt) = dm_insert i (sample_fill i p st) (pt_fills pt)"
  unfolding sample_record_def
  using record_fill_fields(1) [of pt exact_date "sample_fill i p st"] by simp

lemma sample_defaults [simp]:
  "pt_config PnlTracker_with_defaults = PnlConfig_default"
  "pt_next_seq PnlTracker_with_defaults = 0" "pt_fills PnlTracker_with_defaults = dm_empty"
  by (simp_all add: PnlTracker_with_defaults_def PnlTracker_new_def)

lemma sample_history [simp]: "pc_max_fill_history PnlConfig_default = 10000"
  by (simp add: PnlConfig_default_def)

lemma sample_open_fills: "pt_fills sample_open = dm_insert ''c'' (sample_fill ''c'' 500 Fill_Pending)
    (dm_insert ''b'' (sample_fill ''b'' (- 30) Fill_Pending)
      (dm_insert ''a'' (sample_fill ''a'' 100 Fill_Confirmed) dm_empty))"
  by (simp add: sample_open_def)

lemma sample_settled_fills: "pt_fills (sample_settle ''b'' Fill_Confirmed sample_open) =
    dm_insert ''b'' (sample_fill ''b'' (- 30) Fill_Confirmed) (pt_fills sample_open)"
  by (simp add: sample_settle_def update_fill_status_view sample_open_fills)

lemma sample_ledger_fills: "pt_fills sample_ledger =
    dm_insert ''c'' (sample_fill ''c'' 500 Fill_Reverted)
      (dm_insert ''b'' (sample_fill ''b'' (- 30) Fill_Confirmed) (pt_fills sample_open))"
  using sample_settled_fills
  by (simp add: sample_ledger_def sample_settle_def [of "''c''"] update_fill_status_view sample_open_fills)

lemma sample_ledger_run:
  "(ledger_step exact_date no_format)\<^sup>*\<^sup>* (PnlTracker_new PnlConfig_default) sample_ledger"
proof -
  let ?step = "ledger_step exact_date no_format"
  have store: "?step pt (sample_record i p st pt)"
    if "dm_get i (pt_fills pt) = None" "unat (pt_next_seq pt) < pc_max_fill_history (pt_config pt)" for i p st pt
    unfolding sample_record_def by (rule ledger_step.store) (simp_all add: that)
  have settle: "?step pt (sample_settle i st pt)"
    if "dm_get i (pt_fills pt) = Some (sample_fill i p Fill_Pending)" for i p st pt
    unfolding sample_settle_def using that by (rule ledger_step.settle) simp
  let ?s1 = "sample_record ''a'' 100 Fill_Confirmed PnlTracker_with_defaults"
  let ?s2 = "sample_record ''b'' (- 30) Fill_Pending ?s1"
  have "?step PnlTracker_with_defaults ?s1" by (rule store) simp_all
  then have "?step\<^sup>*\<^sup>* PnlTracker_with_defaults ?s1" by (rule r_into_rtranclp)
  also have "?step ?s1 ?s2" by (rule store) simp_all
  also have "?step ?s2 sample_open" unfolding sample_open_def by (rule store) simp_all
  also have "?step sample_open (sample_settle ''b'' Fill_Confirmed sample_open)"
    by (rule settle [of _ _ "- 30"]) (simp add: sample_open_fills)
  also have "?step (sample_settle ''b'' Fill_Confirmed sample_open) sample_ledger"
    unfolding sample_ledger_def
    by (rule settle [of _ _ 500]) (simp add: sample_open_fills sample_settled_fills)
  finally show ?thesis by (simp add: PnlTracker_with_defaults_def)
qed


theorem daily_counts_match_records_witness:
  "(case PnlTracker_get_daily_pnl 19675 sample_ledger of None \<Rightarrow> (0, 0)
       | Some dp \<Rightarrow> (unat (dp_fill_count dp), unat (dp_reverted_count dp))) = (2, 1)"
  using daily_counts_match_records [OF sample_ledger_run, of 19675]
  by (simp add: sample_ledger_fills sample_open_fills dm_insert_def dm_iter_def)

section \<open>Status updates\<close>

lemma settle_daily_keeps [simp]:
  "pt_fills (settle_daily d p o' n x) = pt_fills x" "pt_tokens (settle_daily d p o' n x) = pt_tokens x"
  "pt_total_fills (settle_daily d p o' n x) = pt_total_fills x"
  "pt_total_realized_wei (settle_daily d p o' n x) = pt_total_realized_wei x"
  by (simp_all add: settle_daily_def split: option.split)

lemma update_status_facts:
  shows "snd (PnlTracker_update_fill_status c t i st pt) \<longleftrightarrow> PnlTracker_get_fill i pt \<noteq> None"
    and "PnlTracker_get_fill j (fst (PnlTracker_update_fill_status c t i st pt)) =
      (if j = i then map_option (\<lambda>r. r\<lparr>fr_status := st\<rparr>) (PnlTracker_get_fill i pt)
       else PnlTracker_get_fill j pt)"
    and "PnlTracker_get_token_pnl token chain (fst (PnlTracker_update_fill_status c t i st pt)) = PnlTracker_get_token_pnl token chain pt"
    and "PnlTracker_fill_count (fst (PnlTracker_update_fill_status c t i st pt)) = PnlTracker_fill_count pt"
    and "PnlTracker_total_realized_pnl (fst (PnlTracker_update_fill_status c t i st pt)) =
      (case PnlTracker_get_fill i pt of
         Some r \<Rightarrow> if fr_status r = Fill_Pending \<and> st = Fill_Confirmed
           then wrap_signed 64 (PnlTracker_total_realized_pnl pt + sat_signed 64 (fr_pnl_wei r))
           else PnlTracker_total_realized_pnl pt
       | None \<Rightarrow> PnlTracker_total_realized_pnl pt)"
  by (cases "dm_get i (pt_fills pt)";
      auto simp: PnlTracker_update_fill_status_def PnlTracker_get_fill_def PnlTracker_get_token_pnl_def
         PnlTracker_fill_count_def PnlTracker_total_realized_pnl_def Let_def add_realized_def)+

text \<open>
  \<open>update_fill_status\<close> succeeds exactly for known ids and sets the status of that
  fill only: no other field of it, no other fill, no per-token figure and no number of fills changes;
  the running total moves only on the transition from \<open>Pending\<close> to \<open>Confirmed\<close>.
\<close>

theorem update_status_contract:
  "(let (pt', found) = PnlTracker_update_fill_status chrono_date today i st pt in
      (found \<longleftrightarrow> PnlTracker_get_fill i pt \<noteq> None)
      \<and> (\<forall>j. PnlTracker_get_fill j pt' =
            (if j = i then map_option (\<lambda>r. r\<lparr>fr_status := st\<rparr>) (PnlTracker_get_fill i pt)
             else PnlTracker_get_fill j pt))
      \<and> (\<forall>token chain. PnlTracker_get_token_pnl token chain pt' = PnlTracker_get_token_pnl token chain pt)
      \<and> PnlTracker_fill_count pt' = PnlTracker_fill_count pt
      \<and> PnlTracker_total_realized_pnl pt' =
          (case PnlTracker_get_fill i pt of
             Some r \<Rightarrow> if fr_status r = Fill_Pending \<and> st = Fill_Confirmed
               then wrap_signed 64 (PnlTracker_total_realized_pnl pt + sat_signed 64 (fr_pnl_wei r))
               else PnlTracker_total_realized_pnl pt
           | None \<Rightarrow> PnlTracker_total_realized_pnl pt))"
  using update_status_facts [where c = chrono_date and t = today and i = i and st = st and pt = pt] by (simp add: case_prod_unfold Let_def)

text \<open>
  A status that goes back to \<open>Pending\<close> and is confirmed again counts its result twice.
\<close>

lemma reconfirmation_counts_twice:
  "PnlTracker_total_realized_pnl
     (sample_settle ''a'' Fill_Confirmed (sample_settle ''a'' Fill_Pending
       (sample_record ''a'' 100 Fill_Confirmed PnlTracker_with_defaults))) = 200"
proof -
  let ?s1 = "sample_record ''a'' 100 Fill_Confirmed PnlTracker_with_defaults"
  let ?s2 = "sample_settle ''a'' Fill_Pending ?s1"
  have "PnlTracker_total_realized_pnl ?s1 = 100"
    using record_fill_fields(3) [of PnlTracker_with_defaults exact_date "sample_fill ''a'' 100 Fill_Confirmed"]
    by (simp add: PnlTracker_total_realized_pnl_def sample_record_def PnlTracker_with_defaults_def
        PnlTracker_new_def PnlConfig_default_def sat_signed_def wrap_signed_def)
  moreover have f1: "PnlTracker_get_fill ''a'' ?s1 = Some (sample_fill ''a'' 100 Fill_Confirmed)"
    by (simp add: PnlTracker_get_fill_def)
  ultimately have t2: "PnlTracker_total_realized_pnl ?s2 = 100"
    and f2: "PnlTracker_get_fill ''a'' ?s2 = Some (sample_fill ''a'' 100 Fill_Pending)"
    using update_status_facts [where c = exact_date and t = 0 and i = "''a''" and st = Fill_Pending and pt = ?s1]
    by (simp_all add: sample_settle_def)
  then show ?thesis
    using update_status_facts [where c = exact_date and t = 0 and i = "''a''" and st = Fill_Confirmed and pt = ?s2]
    by (simp add: sample_settle_def sat_signed_def wrap_signed_def)
qed

text \<open>
  The result of a fill that is confirmed by a later update reaches the running total but never
  the per-token aggregation.
\<close>

lemma late_confirmation_misses_tokens:
  "(let pt = sample_settle ''a'' Fill_Confirmed (sample_record ''a'' 100 Fill_Pending PnlTracker_with_defaults)
    in PnlTracker_total_realized_pnl pt = 100
       \<and> map_option tp_net_pnl_wei (PnlTracker_get_token_pnl 17 1 pt) = Some 0
       \<and> map_option tp_net_pnl_wei (PnlTracker_get_token_pnl 34 1 pt) = Some 0)"
proof -
  let ?s1 = "sample_record ''a'' 100 Fill_Pending PnlTracker_with_defaults"
  have "PnlTracker_total_realized_pnl ?s1 = 0"
    using record_fill_fields(3) [of PnlTracker_with_defaults exact_date "sample_fill ''a'' 100 Fill_Pending"]
    by (simp add: PnlTracker_total_realized_pnl_def sample_record_def PnlTracker_with_defaults_def
        PnlTracker_new_def PnlConfig_default_def)
  moreover have f1: "PnlTracker_get_fill ''a'' ?s1 = Some (sample_fill ''a'' 100 Fill_Pending)"
    by (simp add: PnlTracker_get_fill_def)
  moreover have "map_option tp_net_pnl_wei (PnlTracker_get_token_pnl 17 1 ?s1) = Some 0"
    "map_option tp_net_pnl_wei (PnlTracker_get_token_pnl 34 1 ?s1) = Some 0"
    by (simp_all add: sample_record_def PnlTracker_get_token_pnl_def PnlTracker_record_fill_def Let_def
        PnlTracker_prune_if_needed_def record_tokens_def PnlTracker_update_token_pnl_def record_daily_def
        store_fill_def PnlTracker_with_defaults_def PnlTracker_new_def PnlConfig_default_def sample_fill_def)
  ultimately show ?thesis
    using update_status_facts [where c = exact_date and t = 0 and i = "''a''" and st = Fill_Confirmed and pt = ?s1]
    by (simp add: sample_settle_def sat_signed_def wrap_signed_def Let_def)
qed

text \<open>
  Each of the two tokens of a fill is credited with the truncated half of its result: an odd wei
  is lost.
\<close>

lemma odd_wei_lost: "odd p \<Longrightarrow> half_signed p + half_signed p \<noteq> p"
  by (auto simp: half_signed_def) presburger+

end
