(* ===== verification/Balance.thy ===== *)
theory Balance
  imports Types Dash_Map
begin

text \<open>
  Balance tracking (\<open>phantom-inventory/src/balance.rs\<close>): balances per wallet, chain and token
  with the time of their last update, the entry limit, staleness and the per-chain summary.
  The clock (\<open>current_timestamp\<close>) and the provider's answer are arguments.
\<close>

section \<open>State\<close>

definition NATIVE_TOKEN :: address where
  "NATIVE_TOKEN = address_zero"

record balance_key =
  bk_address :: address
  bk_chain_id :: u64
  bk_token :: address

record balance_entry =
  be_amount :: u256
  be_updated_at :: u64

record balance_config =
  bc_stale_threshold_secs :: u64
  bc_max_entries :: nat

definition BalanceConfig_default :: balance_config where
  "BalanceConfig_default = \<lparr>bc_stale_threshold_secs = 30, bc_max_entries = 10000\<rparr>"

record token_balance =
  tb_address :: address
  tb_chain_id :: u64
  tb_token :: address
  tb_amount :: u256
  tb_updated_at :: u64
  tb_is_stale :: bool

record chain_balance_summary =
  cs_chain_id :: u64
  cs_entry_count :: nat
  cs_wallet_count :: nat
  cs_stale_count :: nat

record balance_tracker =
  bt_balances :: "(balance_key, balance_entry) dashmap"
  bt_config :: balance_config

definition BalanceTracker_new :: "balance_config \<Rightarrow> balance_tracker" where
  "BalanceTracker_new config = \<lparr>bt_balances = dm_empty, bt_config = config\<rparr>"

definition BalanceTracker_with_defaults :: balance_tracker where
  "BalanceTracker_with_defaults = BalanceTracker_new BalanceConfig_default"

section \<open>Operations\<close>

definition mk_balance_key :: "address \<Rightarrow> u64 \<Rightarrow> address \<Rightarrow> balance_key" where
  "mk_balance_key address chain_id token =
     \<lparr>bk_address = address, bk_chain_id = chain_id, bk_token = token\<rparr>"

definition BalanceTracker_update_balance ::
    "u64 \<Rightarrow> address \<Rightarrow> u64 \<Rightarrow> address \<Rightarrow> u256 \<Rightarrow> balance_tracker
       \<Rightarrow> balance_tracker \<times> (inventory_error + unit)" where
  "BalanceTracker_update_balance now address chain_id token amount bt =
     (let key = mk_balance_key address chain_id token in
      if bc_max_entries (bt_config bt) \<le> dm_len (bt_balances bt) \<and> \<not> dm_contains key (bt_balances bt)
      then (bt, Inl (BalanceCheckFailed (Fmt ''balance entry limit reached (max {})''
              [Num (int (bc_max_entries (bt_config bt)))])))
      else (bt\<lparr>bt_balances := dm_insert key \<lparr>be_amount = amount, be_updated_at = now\<rparr> (bt_balances bt)\<rparr>,
            Inr ()))"

definition BalanceTracker_get_balance :: "address \<Rightarrow> u64 \<Rightarrow> address \<Rightarrow> balance_tracker \<Rightarrow> u256 option" where
  "BalanceTracker_get_balance address chain_id token bt =
     map_option be_amount (dm_get (mk_balance_key address chain_id token) (bt_balances bt))"

definition entry_is_stale :: "u64 \<Rightarrow> balance_config \<Rightarrow> balance_entry \<Rightarrow> bool" where
  "entry_is_stale now config e \<longleftrightarrow> bc_stale_threshold_secs config < sat_sub now (be_updated_at e)"

definition on_wallet :: "address \<Rightarrow> u64 \<Rightarrow> balance_key \<Rightarrow> bool" where
  "on_wallet address chain_id k \<longleftrightarrow> bk_address k = address \<and> bk_chain_id k = chain_id"

definition BalanceTracker_get_wallet_balances ::
    "u64 \<Rightarrow> address \<Rightarrow> u64 \<Rightarrow> balance_tracker \<Rightarrow> token_balance list" where
  "BalanceTracker_get_wallet_balances now address chain_id bt =
     map (\<lambda>(k, v). \<lparr>tb_address = bk_address k, tb_chain_id = bk_chain_id k, tb_token = bk_token k,
                    tb_amount = be_amount v, tb_updated_at = be_updated_at v,
                    tb_is_stale = entry_is_stale now (bt_config bt) v\<rparr>)
       (filter (\<lambda>(k, v). on_wallet address chain_id k) (dm_iter (bt_balances bt)))"

definition BalanceTracker_is_stale :: "u64 \<Rightarrow> address \<Rightarrow> u64 \<Rightarrow> address \<Rightarrow> balance_tracker \<Rightarrow> bool" where
  "BalanceTracker_is_stale now address chain_id token bt =
     (case dm_get (mk_balance_key address chain_id token) (bt_balances bt) of
        Some e \<Rightarrow> entry_is_stale now (bt_config bt) e
      | None \<Rightarrow> True)"

definition BalanceTracker_refresh_native_balance ::
    "string + u256 \<Rightarrow> u64 \<Rightarrow> address \<Rightarrow> u64 \<Rightarrow> balance_tracker
       \<Rightarrow> balance_tracker \<times> (inventory_error + u256)" where
  "BalanceTracker_refresh_native_balance answer now address chain_id bt =
     (case answer of
        Inl e \<Rightarrow> (bt, Inl (BalanceCheckFailed (Fmt ''failed to fetch balance: {e}'' [Str e])))
      | Inr balance \<Rightarrow>
          (case BalanceTracker_update_balance now address chain_id NATIVE_TOKEN balance bt of
             (bt', Inl e) \<Rightarrow> (bt', Inl e)
           | (bt', Inr _) \<Rightarrow> (bt', Inr balance)))"

definition BalanceTracker_clear_wallet :: "address \<Rightarrow> u64 \<Rightarrow> balance_tracker \<Rightarrow> balance_tracker \<times> nat" where
  "BalanceTracker_clear_wallet address chain_id bt =
     (let keys = map fst (filter (\<lambda>e. on_wallet address chain_id (fst e)) (dm_iter (bt_balances bt)))
      in (bt\<lparr>bt_balances := dm_remove_all keys (bt_balances bt)\<rparr>, length keys))"

text \<open>The loop of \<open>chain_summary\<close> with its three accumulators.\<close>

definition BalanceTracker_chain_summary :: "u64 \<Rightarrow> u64 \<Rightarrow> balance_tracker \<Rightarrow> chain_balance_summary" where
  "BalanceTracker_chain_summary now chain_id bt =
     (let (entries, stale, wallets) =
        foldl (\<lambda>(entries, stale, wallets) (k, v).
            if bk_chain_id k = chain_id
            then (entries + 1, if entry_is_stale now (bt_config bt) v then stale + 1 else stale,
                  insert (bk_address k) wallets)
            else (entries, stale, wallets))
          (0, 0, {}) (dm_iter (bt_balances bt))
      in \<lparr>cs_chain_id = chain_id, cs_entry_count = entries, cs_wallet_count = card wallets,
          cs_stale_count = stale\<rparr>)"

definition BalanceTracker_entry_count :: "balance_tracker \<Rightarrow> nat" where
  "BalanceTracker_entry_count bt = dm_len (bt_balances bt)"

definition BalanceTracker_is_empty :: "balance_tracker \<Rightarrow> bool" where
  "BalanceTracker_is_empty bt \<longleftrightarrow> dm_len (bt_balances bt) = 0"

definition BalanceTracker_clear_all :: "balance_tracker \<Rightarrow> balance_tracker" where
  "BalanceTracker_clear_all bt = bt\<lparr>bt_balances := dm_empty\<rparr>"

definition BalanceTracker_has_sufficient_balance ::
    "address \<Rightarrow> u64 \<Rightarrow> address \<Rightarrow> u256 \<Rightarrow> balance_tracker \<Rightarrow> bool" where
  "BalanceTracker_has_sufficient_balance address chain_id token required bt =
     (case BalanceTracker_get_balance address chain_id token bt of
        Some balance \<Rightarrow> required \<le> balance | None \<Rightarrow> False)"

section \<open>Reading back an update\<close>

lemma mk_balance_key_eq [simp]:
  "mk_balance_key a c t = mk_balance_key a' c' t' \<longleftrightarrow> a = a' \<and> c = c' \<and> t = t'"
  by (simp add: mk_balance_key_def)

lemma on_wallet_mk [simp]: "on_wallet a c (mk_balance_key a' c' t) \<longleftrightarrow> a' = a \<and> c' = c"
  by (simp add: on_wallet_def mk_balance_key_def)

text \<open>
  \<open>refresh_native_balance\<close> reports the provider's failure or the entry limit and changes
  nothing then; otherwise it returns the provider's balance, which reads back, fresh, as the
  native balance of the wallet and covers exactly the amounts up to it, while every other balance
  keeps its value and its age.
\<close>

lemma update_balance_cases:
  "BalanceTracker_update_balance now a c t amount bt =
     (if bc_max_entries (bt_config bt) \<le> BalanceTracker_entry_count bt
         \<and> BalanceTracker_get_balance a c t bt = None
      then (bt, Inl (BalanceCheckFailed (Fmt ''balance entry limit reached (max {})''
              [Num (int (bc_max_entries (bt_config bt)))])))
      else (bt\<lparr>bt_balances := dm_insert (mk_balance_key a c t)
                 \<lparr>be_amount = amount, be_updated_at = now\<rparr> (bt_balances bt)\<rparr>, Inr ()))"
  by (auto simp: BalanceTracker_update_balance_def BalanceTracker_entry_count_def
      BalanceTracker_get_balance_def Let_def)

lemma is_stale_put:
  "BalanceTracker_is_stale later a' c' t' (bt\<lparr>bt_balances := dm_insert (mk_balance_key a c t) e (bt_balances bt)\<rparr>) =
     (if a' = a \<and> c' = c \<and> t' = t then entry_is_stale later (bt_config bt) e
      else BalanceTracker_is_stale later a' c' t' bt)"
  by (simp add: BalanceTracker_is_stale_def split: option.split)

lemma get_balance_put:
  "BalanceTracker_get_balance a' c' t' (bt\<lparr>bt_balances := dm_insert (mk_balance_key a c t) e (bt_balances bt)\<rparr>) =
     (if a' = a \<and> c' = c \<and> t' = t then Some (be_amount e) else BalanceTracker_get_balance a' c' t' bt)"
  by (simp add: BalanceTracker_get_balance_def)

lemma fresh_not_stale: "\<not> entry_is_stale now config \<lparr>be_amount = b, be_updated_at = now\<rparr>"
  by (simp add: entry_is_stale_def sat_sub_def)

theorem refresh_native_contract:
  "(case BalanceTracker_refresh_native_balance answer now a c bt of
      (bt', Inl e) \<Rightarrow> bt' = bt \<and>
        ((\<exists>msg. answer = Inl msg \<and> e = BalanceCheckFailed (Fmt ''failed to fetch balance: {e}'' [Str msg]))
         \<or> (\<exists>b. answer = Inr b \<and> BalanceTracker_get_balance a c NATIVE_TOKEN bt = None
              \<and> bc_max_entries (bt_config bt) \<le> BalanceTracker_entry_count bt))
    | (bt', Inr balance) \<Rightarrow> answer = Inr balance
        \<and> \<not> BalanceTracker_is_stale now a c NATIVE_TOKEN bt'
        \<and> (\<forall>required. BalanceTracker_has_sufficient_balance a c NATIVE_TOKEN required bt'
              \<longleftrightarrow> unat required \<le> unat balance)
        \<and> (\<forall>a' c' t'. BalanceTracker_get_balance a' c' t' bt' =
              (if a' = a \<and> c' = c \<and> t' = NATIVE_TOKEN then Some balance
               else BalanceTracker_get_balance a' c' t' bt))
        \<and> (\<forall>later a' c' t'. (a', c', t') = (a, c, NATIVE_TOKEN)
              \<or> BalanceTracker_is_stale later a' c' t' bt' = BalanceTracker_is_stale later a' c' t' bt))"
proof (cases answer)
  case (Inl msg)
  then show ?thesis by (simp add: BalanceTracker_refresh_native_balance_def)
next
  case (Inr b)
  then show ?thesis
    by (cases "bc_max_entries (bt_config bt) \<le> BalanceTracker_entry_count bt
         \<and> BalanceTracker_get_balance a c NATIVE_TOKEN bt = None")
       (simp_all add: BalanceTracker_refresh_native_balance_def update_balance_cases
        BalanceTracker_has_sufficient_balance_def is_stale_put get_balance_put fresh_not_stale
        word_le_nat_alt)
qed

section \<open>The entry limit\<close>

inductive balance_step :: "balance_tracker \<Rightarrow> balance_tracker \<Rightarrow> bool" where
  update: "balance_step bt (fst (BalanceTracker_update_balance now a c t amount bt))"
| refresh: "balance_step bt (fst (BalanceTracker_refresh_native_balance answer now a c bt))"
| clear: "balance_step bt (fst (BalanceTracker_clear_wallet a c bt))"
| clear_all: "balance_step bt (BalanceTracker_clear_all bt)"

lemma refresh_fst:
  "fst (BalanceTracker_refresh_native_balance answer now a c bt) =
     (case answer of Inl _ \<Rightarrow> bt
      | Inr b \<Rightarrow> fst (BalanceTracker_update_balance now a c NATIVE_TOKEN b bt))"
  by (simp add: BalanceTracker_refresh_native_balance_def split: sum.split prod.split)

lemma update_balance_wf:
  "dm_wf (bt_balances bt) \<Longrightarrow> dm_wf (bt_balances (fst (BalanceTracker_update_balance now a c t amount bt)))"
  by (simp add: BalanceTracker_update_balance_def Let_def wf_intros)

lemma update_balance_config [simp]:
  "bt_config (fst (BalanceTracker_update_balance now a c t amount bt)) = bt_config bt"
  by (simp add: BalanceTracker_update_balance_def Let_def)

lemma update_balance_size:
  "dm_wf (bt_balances bt) \<Longrightarrow>
     (let bt' = fst (BalanceTracker_update_balance now a c t amount bt) in
        BalanceTracker_entry_count bt' \<le> BalanceTracker_entry_count bt
        \<or> BalanceTracker_entry_count bt' \<le> bc_max_entries (bt_config bt))"
  by (auto simp: BalanceTracker_update_balance_def Let_def BalanceTracker_entry_count_def dm.length_put)

lemma clear_wallet_size:
  "dm_wf (bt_balances bt) \<Longrightarrow>
     BalanceTracker_entry_count (fst (BalanceTracker_clear_wallet a c bt))
       + snd (BalanceTracker_clear_wallet a c bt) = BalanceTracker_entry_count bt"
  using dm.length_prune [of "bt_balances bt" "\<lambda>e. on_wallet a c (fst e)"]
  by (simp add: BalanceTracker_clear_wallet_def BalanceTracker_entry_count_def Let_def)

interpretation balances: capped_store balance_step BalanceTracker_entry_count
    "\<lambda>bt. bc_max_entries (bt_config bt)" "\<lambda>bt. dm_wf (bt_balances bt)"
proof unfold_locales
  fix s s' assume step: "balance_step s s'"
  then show "bc_max_entries (bt_config s') = bc_max_entries (bt_config s)"
    by cases (simp_all add: refresh_fst BalanceTracker_clear_wallet_def BalanceTracker_clear_all_def
        Let_def split: sum.split)
  assume wf: "dm_wf (bt_balances s)"
  from step wf show "dm_wf (bt_balances s')"
    by cases (simp_all add: refresh_fst update_balance_wf BalanceTracker_clear_wallet_def
        BalanceTracker_clear_all_def Let_def wf_intros split: sum.split)
  from step show "BalanceTracker_entry_count s' \<le> BalanceTracker_entry_count s
      \<or> BalanceTracker_entry_count s' \<le> bc_max_entries (bt_config s)"
  proof cases
    case (refresh answer now a c)
    then show ?thesis
      using update_balance_size [OF wf] by (simp add: refresh_fst Let_def split: sum.split)
  next
    case (clear a c)
    then show ?thesis using clear_wallet_size [OF wf, of a c] by simp
  qed (use update_balance_size [OF wf] in
      \<open>simp_all add: Let_def BalanceTracker_clear_all_def BalanceTracker_entry_count_def\<close>)
qed

text \<open>
  No sequence of updates, refreshes and removals tracks more balances than configured.
\<close>

theorem tracked_balances_bounded:
  assumes "balance_step\<^sup>*\<^sup>* (BalanceTracker_new config) bt"
  shows "BalanceTracker_entry_count bt \<le> bc_max_entries config"
  using balances.run_within_cap [OF assms] balances.run_inv [OF assms]
  by (simp add: BalanceTracker_new_def BalanceTracker_entry_count_def)

definition sample_balances :: balance_tracker where
  "sample_balances =
     fst (BalanceTracker_update_balance 100 1 1 7 500
       (fst (BalanceTracker_update_balance 100 1 1 0 900
         (fst (BalanceTracker_update_balance 60 2 1 0 40
           (BalanceTracker_new \<lparr>bc_stale_threshold_secs = 30, bc_max_entries = 2\<rparr>))))))"

lemmas balance_eval = sample_balances_def BalanceTracker_update_balance_def BalanceTracker_new_def
  mk_balance_key_def dm_insert_def dm_get_def dm_iter_def dm_remove_def dm_wf_def

theorem tracked_balances_bounded_witness:
  "BalanceTracker_entry_count sample_balances \<le> 2
   \<and> BalanceTracker_get_balance 1 1 7 sample_balances = None"
proof -
  let ?b0 = "BalanceTracker_new \<lparr>bc_stale_threshold_secs = 30, bc_max_entries = 2\<rparr>"
  let ?b1 = "fst (BalanceTracker_update_balance 60 2 1 0 40 ?b0)"
  let ?b2 = "fst (BalanceTracker_update_balance 100 1 1 0 900 ?b1)"
  have "balance_step\<^sup>*\<^sup>* ?b0 ?b1" by (intro r_into_rtranclp balance_step.update)
  also have "balance_step ?b1 ?b2" by (rule balance_step.update)
  also have "balance_step ?b2 sample_balances"
    unfolding sample_balances_def by (rule balance_step.update)
  finally have "balance_step\<^sup>*\<^sup>* ?b0 sample_balances" .
  from tracked_balances_bounded [OF this] show ?thesis
    by (simp add: BalanceTracker_get_balance_def balance_eval)
qed

section \<open>Wallets and summaries\<close>

text \<open>
  \<open>clear_wallet\<close> removes exactly the balances of that wallet on that chain, returns their
  number, and that number is the length of what \<open>get_wallet_balances\<close> reported before.
\<close>

theorem clear_wallet_correct:
  assumes "dm_wf (bt_balances bt)"
  shows "(let (bt', n) = BalanceTracker_clear_wallet a c bt in
      n = length (BalanceTracker_get_wallet_balances now a c bt)
      \<and> BalanceTracker_entry_count bt' + n = BalanceTracker_entry_count bt
      \<and> BalanceTracker_get_wallet_balances now a c bt' = []
      \<and> (\<forall>a' c' t'. BalanceTracker_get_balance a' c' t' bt' =
            (if a' = a \<and> c' = c then None else BalanceTracker_get_balance a' c' t' bt)))"
proof -
  define P where "P = (\<lambda>e :: balance_key \<times> balance_entry. on_wallet a c (fst e))"
  define m where "m = dm_remove_all (map fst (filter P (dm_iter (bt_balances bt)))) (bt_balances bt)"
  have wf: "dm_wf m" unfolding m_def using assms by (rule dm.wf_remove_all)
  have get: "dm_get k m = (if on_wallet a c k then None else dm_get k (bt_balances bt))" for k
    unfolding m_def dm.get_prune [OF assms] by (simp add: P_def split: option.split)
  have "\<not> P e" if "e \<in> set (dm_iter m)" for e
    using that dm.iter_get [OF wf, of "fst e" "snd e"] get [of "fst e"] by (auto simp: P_def split: if_splits)
  then have none: "filter P (dm_iter m) = []" by (simp add: filter_empty_conv)
  have clear: "BalanceTracker_clear_wallet a c bt =
      (bt\<lparr>bt_balances := m\<rparr>, length (filter P (dm_iter (bt_balances bt))))"
    by (simp add: BalanceTracker_clear_wallet_def Let_def m_def P_def)
  have len: "length (BalanceTracker_get_wallet_balances now a c x) = length (filter P (dm_iter (bt_balances x)))" for x
    by (simp add: BalanceTracker_get_wallet_balances_def case_prod_unfold P_def)
  have "BalanceTracker_get_wallet_balances now a c (bt\<lparr>bt_balances := m\<rparr>) = []"
    using len [of "bt\<lparr>bt_balances := m\<rparr>"] none by simp
  moreover have "BalanceTracker_get_balance a' c' t' (bt\<lparr>bt_balances := m\<rparr>) =
      (if a' = a \<and> c' = c then None else BalanceTracker_get_balance a' c' t' bt)" for a' c' t'
    using get [of "mk_balance_key a' c' t'"] by (simp add: BalanceTracker_get_balance_def)
  moreover have "BalanceTracker_entry_count (bt\<lparr>bt_balances := m\<rparr>)
      + length (filter P (dm_iter (bt_balances bt))) = BalanceTracker_entry_count bt"
    using clear_wallet_size [OF assms, of a c] unfolding clear by simp
  ultimately show ?thesis
    unfolding clear Let_def prod.case len by blast
qed

theorem clear_wallet_correct_witness:
  "dm_wf (bt_balances sample_balances) \<and> snd (BalanceTracker_clear_wallet 1 1 sample_balances) = 1
   \<and> BalanceTracker_get_balance 1 1 0 (fst (BalanceTracker_clear_wallet 1 1 sample_balances)) = None
   \<and> BalanceTracker_get_balance 2 1 0 (fst (BalanceTracker_clear_wallet 1 1 sample_balances)) = Some 40"
proof -
  have wf: "dm_wf (bt_balances sample_balances)" by (simp add: balance_eval)
  have "length (BalanceTracker_get_wallet_balances 100 1 1 sample_balances) = 1"
    "BalanceTracker_get_balance 2 1 0 sample_balances = Some 40"
    by (simp_all add: BalanceTracker_get_wallet_balances_def BalanceTracker_get_balance_def
        on_wallet_def balance_eval)
  with clear_wallet_correct [OF wf, of 1 1 100] wf show ?thesis
    by (simp add: Let_def case_prod_unfold)
qed

lemma chain_summary_foldl:
  "foldl (\<lambda>(entries, stale, wallets) (k, v).
      if P k then (entries + 1, if S v then stale + 1 else stale, insert (f k) wallets)
      else (entries, stale, wallets)) (n, m, W) xs =
   (n + length (filter (\<lambda>e. P (fst e)) xs),
    m + length (filter (\<lambda>e. P (fst e) \<and> S (snd e)) xs),
    W \<union> (f \<circ> fst) ` {e \<in> set xs. P (fst e)})" for n m :: nat
proof (induction xs arbitrary: n m W)
  case (Cons e xs)
  have "{x. (x = e \<or> x \<in> set xs) \<and> P (fst x)} =
      (if P (fst e) then insert e {x \<in> set xs. P (fst x)} else {x \<in> set xs. P (fst x)})"
    by auto
  with Cons show ?case by (cases e) simp
qed simp

text \<open>The wallet and token of an entry; on one chain they identify it.\<close>

abbreviation balance_point :: "balance_key \<times> balance_entry \<Rightarrow> address \<times> address" where
  "balance_point e \<equiv> (bk_address (fst e), bk_token (fst e))"

lemma balance_key_eta: "k = mk_balance_key (bk_address k) (bk_chain_id k) (bk_token k)"
  by (simp add: mk_balance_key_def)

lemma count_on_chain:
  assumes wf: "dm_wf m" and "\<And>e. Q e \<Longrightarrow> bk_chain_id (fst e) = c"
  shows "length (filter Q (dm_iter m)) = card (balance_point ` {e \<in> set (dm_iter m). Q e})"
proof -
  have inj: "inj_on balance_point {e \<in> set (dm_iter m). bk_chain_id (fst e) = c}"
    using dm.iter_get [OF wf] balance_key_eta
    by (intro inj_onI) (clarsimp, metis option.inject)
  have "distinct (dm_iter m)" using dm.distinct_iter [OF wf] distinct_map by blast
  then have "length (filter Q (dm_iter m)) = card {e \<in> set (dm_iter m). Q e}"
    using distinct_card [of "filter Q (dm_iter m)"] by simp
  also have "\<dots> = card (balance_point ` {e \<in> set (dm_iter m). Q e})"
    using inj assms(2) by (intro card_image [symmetric]) (rule inj_on_subset, auto)
  finally show ?thesis .
qed

lemma on_chain_points:
  assumes "dm_wf m"
  shows "balance_point ` {e \<in> set (dm_iter m). bk_chain_id (fst e) = c \<and> R (snd e)} =
    {(a, t). \<exists>v. dm_get (mk_balance_key a c t) m = Some v \<and> R v}" (is "?L = ?R")
proof (intro set_eqI iffI)
  fix x assume "x \<in> ?L"
  then obtain k v where "(k, v) \<in> set (dm_iter m)" "bk_chain_id k = c" "R v" "x = (bk_address k, bk_token k)"
    by auto
  then show "x \<in> ?R" using dm.iter_get [OF assms] balance_key_eta by fastforce
next
  fix x assume "x \<in> ?R"
  then obtain a t v where x: "x = (a, t)" "(mk_balance_key a c t, v) \<in> set (dm_iter m)" "R v"
    using dm.iter_get [OF assms] by blast
  then have "balance_point (mk_balance_key a c t, v) \<in> ?L"
    by (intro imageI) (simp add: mk_balance_key_def)
  then show "x \<in> ?L" by (simp add: x(1) mk_balance_key_def)
qed

text \<open>
  The summary of a chain counts its tracked balances, its different wallets and the balances
  \<open>is_stale\<close> reports as stale.
\<close>

theorem chain_summary_correct:
  assumes "dm_wf (bt_balances bt)"
  shows "(let s = BalanceTracker_chain_summary now c bt; tracked = {(a, t). BalanceTracker_get_balance a c t bt \<noteq> None} in
      cs_entry_count s = card tracked
      \<and> cs_wallet_count s = card (fst ` tracked)
      \<and> cs_stale_count s = card {(a, t). (a, t) \<in> tracked \<and> BalanceTracker_is_stale now a c t bt})"
proof -
  let ?xs = "dm_iter (bt_balances bt)" and ?stale = "entry_is_stale now (bt_config bt)"
  let ?T = "{(a, t). BalanceTracker_get_balance a c t bt \<noteq> None}"
  have all: "balance_point ` {e \<in> set ?xs. bk_chain_id (fst e) = c} = ?T"
    using on_chain_points [OF assms, of c "\<lambda>_. True"] by (simp add: BalanceTracker_get_balance_def)
  have stale: "balance_point ` {e \<in> set ?xs. bk_chain_id (fst e) = c \<and> ?stale (snd e)} =
      {(a, t). (a, t) \<in> ?T \<and> BalanceTracker_is_stale now a c t bt}"
    unfolding on_chain_points [OF assms]
    by (auto simp: BalanceTracker_get_balance_def BalanceTracker_is_stale_def split: option.splits)
  have "(bk_address \<circ> fst) ` {e \<in> set ?xs. bk_chain_id (fst e) = c} = fst ` ?T"
    unfolding all [symmetric] by (simp add: image_image comp_def)
  then show ?thesis
    using count_on_chain [OF assms, of "\<lambda>e. bk_chain_id (fst e) = c" c] all
      count_on_chain [OF assms, of "\<lambda>e. bk_chain_id (fst e) = c \<and> ?stale (snd e)" c] stale
    by (simp add: BalanceTracker_chain_summary_def chain_summary_foldl Let_def)
qed

theorem chain_summary_correct_witness:
  "dm_wf (bt_balances sample_balances)
   \<and> (let s = BalanceTracker_chain_summary 100 1 sample_balances;
         tracked = {(a, t). BalanceTracker_get_balance a 1 t sample_balances \<noteq> None} in
       cs_entry_count s = 2 \<and> card tracked = 2 \<and> cs_stale_count s = 1)"
proof -
  have wf: "dm_wf (bt_balances sample_balances)" by (simp add: balance_eval)
  have "cs_entry_count (BalanceTracker_chain_summary 100 1 sample_balances) = 2"
    "cs_stale_count (BalanceTracker_chain_summary 100 1 sample_balances) = 1"
    by (simp_all add: BalanceTracker_chain_summary_def entry_is_stale_def sat_sub_def word_le_nat_alt
        word_less_nat_alt balance_eval)
  with wf chain_summary_correct [OF wf, of 100 1] show ?thesis
    by (simp add: Let_def)
qed

end
