(* ===== verification/Health.thy ===== *)
theory Health
  imports Types Dash_Map
begin

text \<open>
  Health checks and the circuit breaker (\<open>phantom-metrics/src/health.rs\<close>).  An \<open>Instant\<close> is a
  number of nanoseconds on the monotonic clock; the wall clock the breaker reads is a \<open>u64\<close> of
  seconds.  Both are arguments.  The breaker's fields are atomics: \<open>fetch_add\<close> wraps.
\<close>

section \<open>The health registry\<close>

datatype component_status = Healthy | Degraded | Unhealthy

record component_health =
  ch_name :: string
  ch_status :: component_status
  ch_message :: string
  ch_last_updated :: u64

datatype system_status = Sys_Healthy | Sys_Degraded | Sys_Unhealthy

record health_report =
  hr_status :: system_status
  hr_components :: "component_health list"
  hr_uptime_seconds :: u64

record health_entry =
  he_status :: component_status
  he_message :: string
  he_last_updated :: nat
  he_critical :: bool

record health_registry =
  hg_components :: "(string, health_entry) dashmap"
  hg_start_time :: nat

definition elapsed_secs :: "nat \<Rightarrow> nat \<Rightarrow> u64" where
  "elapsed_secs now t = of_nat ((now - t) div 1000000000)"

definition HealthRegistry_new :: "nat \<Rightarrow> health_registry" where
  "HealthRegistry_new now = \<lparr>hg_components = dm_empty, hg_start_time = now\<rparr>"

definition HealthRegistry_register :: "nat \<Rightarrow> string \<Rightarrow> bool \<Rightarrow> health_registry \<Rightarrow> health_registry" where
  "HealthRegistry_register now name critical hg =
     hg\<lparr>hg_components := dm_insert name
        \<lparr>he_status = Healthy, he_message = ''registered'', he_last_updated = now, he_critical = critical\<rparr>
        (hg_components hg)\<rparr>"

definition HealthRegistry_update ::
    "nat \<Rightarrow> string \<Rightarrow> component_status \<Rightarrow> string \<Rightarrow> health_registry \<Rightarrow> health_registry" where
  "HealthRegistry_update now name status message hg =
     (case dm_get name (hg_components hg) of
        None \<Rightarrow> hg
      | Some entry \<Rightarrow> hg\<lparr>hg_components := dm_insert name
          (entry\<lparr>he_status := status, he_message := message, he_last_updated := now\<rparr>)
          (hg_components hg)\<rparr>)"

definition HealthRegistry_deregister :: "string \<Rightarrow> health_registry \<Rightarrow> health_registry" where
  "HealthRegistry_deregister name hg = hg\<lparr>hg_components := dm_remove name (hg_components hg)\<rparr>"

definition HealthRegistry_is_ready :: "health_registry \<Rightarrow> bool" where
  "HealthRegistry_is_ready hg =
     list_all (\<lambda>(_, entry). \<not> he_critical entry \<or> he_status entry \<noteq> Unhealthy) (dm_iter (hg_components hg))"

definition HealthRegistry_is_alive :: "health_registry \<Rightarrow> bool" where
  "HealthRegistry_is_alive hg \<longleftrightarrow> dm_len (hg_components hg) \<noteq> 0"

text \<open>The loop of \<open>aggregate_status\<close> with its early return.\<close>

fun aggregate_loop :: "bool \<Rightarrow> health_entry list \<Rightarrow> system_status" where
  "aggregate_loop has_degraded [] = (if has_degraded then Sys_Degraded else Sys_Healthy)"
| "aggregate_loop has_degraded (entry # rest) =
     (if he_status entry = Unhealthy \<and> he_critical entry then Sys_Unhealthy
      else if he_status entry = Degraded \<or> he_status entry = Unhealthy \<and> \<not> he_critical entry
      then aggregate_loop True rest
      else aggregate_loop has_degraded rest)"

definition HealthRegistry_aggregate_status :: "health_registry \<Rightarrow> system_status" where
  "HealthRegistry_aggregate_status hg = aggregate_loop False (map snd (dm_iter (hg_components hg)))"

definition HealthRegistry_report :: "nat \<Rightarrow> health_registry \<Rightarrow> health_report" where
  "HealthRegistry_report now hg =
     \<lparr>hr_status = HealthRegistry_aggregate_status hg,
      hr_components = map (\<lambda>(name, entry). \<lparr>ch_name = name, ch_status = he_status entry,
          ch_message = he_message entry, ch_last_updated = elapsed_secs now (he_last_updated entry)\<rparr>)
        (dm_iter (hg_components hg)),
      hr_uptime_seconds = elapsed_secs now (hg_start_time hg)\<rparr>"

definition HealthRegistry_component_count :: "health_registry \<Rightarrow> nat" where
  "HealthRegistry_component_count hg = dm_len (hg_components hg)"

section \<open>The circuit breaker\<close>

datatype circuit_state = Circuit_Closed | Circuit_Open | Circuit_Half_Open

record circuit_breaker_config =
  bf_failure_threshold :: u32
  bf_reset_timeout_secs :: u64
  bf_success_threshold :: u32

definition CircuitBreakerConfig_default :: circuit_breaker_config where
  "CircuitBreakerConfig_default =
     \<lparr>bf_failure_threshold = 5, bf_reset_timeout_secs = 30, bf_success_threshold = 2\<rparr>"

record circuit_breaker =
  cb_name :: string
  cb_config :: circuit_breaker_config
  cb_failures :: u32
  cb_successes :: u32
  cb_tripped_at :: u64
  cb_state :: u32

definition CircuitBreaker_new :: "string \<Rightarrow> circuit_breaker_config \<Rightarrow> circuit_breaker" where
  "CircuitBreaker_new name config =
     \<lparr>cb_name = name, cb_config = config, cb_failures = 0, cb_successes = 0, cb_tripped_at = 0,
      cb_state = 0\<rparr>"

definition CircuitBreaker_with_defaults :: "string \<Rightarrow> circuit_breaker" where
  "CircuitBreaker_with_defaults name = CircuitBreaker_new name CircuitBreakerConfig_default"

definition CircuitBreaker_check_half_open_transition ::
    "u64 \<Rightarrow> u32 \<Rightarrow> circuit_breaker \<Rightarrow> circuit_breaker \<times> circuit_state" where
  "CircuitBreaker_check_half_open_transition now raw_state cb =
     (if raw_state \<noteq> 1 then (cb, if raw_state = 0 then Circuit_Closed
        else if raw_state = 2 then Circuit_Half_Open else Circuit_Closed)
      else if bf_reset_timeout_secs (cb_config cb) \<le> sat_sub now (cb_tripped_at cb)
      then (cb\<lparr>cb_state := 2, cb_successes := 0\<rparr>, Circuit_Half_Open)
      else (cb, Circuit_Open))"

definition CircuitBreaker_state :: "u64 \<Rightarrow> circuit_breaker \<Rightarrow> circuit_breaker \<times> circuit_state" where
  "CircuitBreaker_state now cb = CircuitBreaker_check_half_open_transition now (cb_state cb) cb"

definition CircuitBreaker_is_allowed :: "u64 \<Rightarrow> circuit_breaker \<Rightarrow> circuit_breaker \<times> bool" where
  "CircuitBreaker_is_allowed now cb =
     (let (cb, state) = CircuitBreaker_state now cb in
      (cb, case state of Circuit_Closed \<Rightarrow> True | Circuit_Half_Open \<Rightarrow> True | Circuit_Open \<Rightarrow> False))"

text \<open>\<open>trip\<close> stores the state and then the time.\<close>

definition CircuitBreaker_trip_state :: "circuit_breaker \<Rightarrow> circuit_breaker" where
  "CircuitBreaker_trip_state cb = cb\<lparr>cb_state := 1\<rparr>"

definition CircuitBreaker_trip_time :: "u64 \<Rightarrow> circuit_breaker \<Rightarrow> circuit_breaker" where
  "CircuitBreaker_trip_time now cb = cb\<lparr>cb_tripped_at := now\<rparr>"

definition CircuitBreaker_trip :: "u64 \<Rightarrow> circuit_breaker \<Rightarrow> circuit_breaker" where
  "CircuitBreaker_trip now cb = CircuitBreaker_trip_time now (CircuitBreaker_trip_state cb)"

definition CircuitBreaker_record_success :: "u64 \<Rightarrow> circuit_breaker \<Rightarrow> circuit_breaker" where
  "CircuitBreaker_record_success now cb =
     (let (cb, state) = CircuitBreaker_state now cb in
      case state of
        Circuit_Closed \<Rightarrow> cb\<lparr>cb_failures := 0\<rparr>
      | Circuit_Half_Open \<Rightarrow>
          let successes = cb_successes cb + 1; cb = cb\<lparr>cb_successes := successes\<rparr> in
          if bf_success_threshold (cb_config cb) \<le> successes
          then cb\<lparr>cb_state := 0, cb_failures := 0, cb_successes := 0\<rparr> else cb
      | Circuit_Open \<Rightarrow> cb)"

definition CircuitBreaker_record_failure :: "u64 \<Rightarrow> circuit_breaker \<Rightarrow> circuit_breaker" where
  "CircuitBreaker_record_failure now cb =
     (let (cb, state) = CircuitBreaker_state now cb in
      case state of
        Circuit_Closed \<Rightarrow>
          let failures = cb_failures cb + 1; cb = cb\<lparr>cb_failures := failures\<rparr> in
          if bf_failure_threshold (cb_config cb) \<le> failures then CircuitBreaker_trip now cb else cb
      | Circuit_Half_Open \<Rightarrow> CircuitBreaker_trip now (cb\<lparr>cb_successes := 0\<rparr>)
      | Circuit_Open \<Rightarrow> cb\<lparr>cb_failures := cb_failures cb + 1\<rparr>)"

definition CircuitBreaker_reset :: "circuit_breaker \<Rightarrow> circuit_breaker" where
  "CircuitBreaker_reset cb = cb\<lparr>cb_state := 0, cb_failures := 0, cb_successes := 0, cb_tripped_at := 0\<rparr>"

text \<open>\<open>failure_count\<close> and \<open>success_count\<close> are the fields \<open>cb_failures\<close> and \<open>cb_successes\<close>.\<close>

section \<open>The aggregate status\<close>

text \<open>A system status is ordered by severity, and the aggregate is the worst of its components.\<close>

fun severity_rank :: "system_status \<Rightarrow> nat" where
  "severity_rank Sys_Healthy = 0"
| "severity_rank Sys_Degraded = 1"
| "severity_rank Sys_Unhealthy = 2"

lemma severity_rank_inj: "severity_rank a = severity_rank b \<Longrightarrow> a = b"
  by (cases a; cases b) simp_all

instantiation system_status :: linorder
begin

definition less_eq_system_status :: "system_status \<Rightarrow> system_status \<Rightarrow> bool" where
  "less_eq_system_status a b \<longleftrightarrow> severity_rank a \<le> severity_rank b"

definition less_system_status :: "system_status \<Rightarrow> system_status \<Rightarrow> bool" where
  "less_system_status a b \<longleftrightarrow> severity_rank a < severity_rank b"

instance
  by standard (auto simp: less_eq_system_status_def less_system_status_def dest: severity_rank_inj)

end

lemma status_max_simps [simp]:
  "max Sys_Healthy s = s" "max s Sys_Healthy = s" "max Sys_Unhealthy s = Sys_Unhealthy"
  "max s Sys_Unhealthy = Sys_Unhealthy" "max s (s :: system_status) = s"
  by (cases s; simp add: max_def less_eq_system_status_def)+

text \<open>The contribution of a component: a component that is not critical only degrades the system.\<close>

definition entry_severity :: "health_entry \<Rightarrow> system_status" where
  "entry_severity e = (case he_status e of
      Healthy \<Rightarrow> Sys_Healthy
    | Degraded \<Rightarrow> Sys_Degraded
    | Unhealthy \<Rightarrow> if he_critical e then Sys_Unhealthy else Sys_Degraded)"

lemma worst_unhealthy_iff [simp]: "max a b = Sys_Unhealthy \<longleftrightarrow> a = Sys_Unhealthy \<or> b = Sys_Unhealthy"
  by (cases a; cases b) (simp_all add: max_def less_eq_system_status_def)

lemma entry_unhealthy_iff [simp]:
  "entry_severity e = Sys_Unhealthy \<longleftrightarrow> he_status e = Unhealthy \<and> he_critical e"
  by (cases "he_status e") (simp_all add: entry_severity_def)

lemma aggregate_is_worst:
  "aggregate_loop d es = foldr (\<lambda>e. max (entry_severity e)) es (if d then Sys_Degraded else Sys_Healthy)"
proof (induction d es rule: aggregate_loop.induct)
  case (2 d e es)
  have deg: "foldr (\<lambda>e. max (entry_severity e)) es Sys_Degraded
      = max Sys_Degraded (foldr (\<lambda>e. max (entry_severity e)) es s)" if "s = Sys_Healthy \<or> s = Sys_Degraded" for s
    using that by (induction es) (auto simp: max.left_commute)
  show ?case
    using 2 deg [of "if d then Sys_Degraded else Sys_Healthy"]
    by (cases "he_status e"; cases d; cases "he_critical e") (simp_all add: entry_severity_def)
qed simp

lemma aggregate_loop_conv:
  "aggregate_loop d es =
     (if \<exists>e \<in> set es. he_status e = Unhealthy \<and> he_critical e then Sys_Unhealthy
      else if d \<or> (\<exists>e \<in> set es. he_status e \<noteq> Healthy) then Sys_Degraded else Sys_Healthy)"
proof (induction d es rule: aggregate_loop.induct)
  case (2 d entry rest)
  then show ?case by (cases "he_status entry") auto
qed simp

text \<open>
  The report is unhealthy exactly when some registered critical component is unhealthy,
  which is exactly when the system is not ready; otherwise it is degraded exactly when some
  component, critical or not, is not healthy.  Every registered component is listed once with its status.
\<close>

theorem report_aggregates:
  assumes "dm_wf (hg_components hg)"
  shows "(let r = HealthRegistry_report now hg; entry = (\<lambda>n. dm_get n (hg_components hg)) in
      (hr_status r = Sys_Unhealthy \<longleftrightarrow> (\<exists>n e. entry n = Some e \<and> he_critical e \<and> he_status e = Unhealthy))
      \<and> (HealthRegistry_is_ready hg \<longleftrightarrow> hr_status r \<noteq> Sys_Unhealthy)
      \<and> (hr_status r = Sys_Healthy \<longleftrightarrow> \<not> (\<exists>n e. entry n = Some e \<and> he_status e \<noteq> Healthy))
      \<and> distinct (map ch_name (hr_components r))
      \<and> (\<forall>n s. (\<exists>c. c \<in> set (hr_components r) \<and> ch_name c = n \<and> ch_status c = s)
               \<longleftrightarrow> map_option he_status (entry n) = Some s))"
proof -
  let ?xs = "dm_iter (hg_components hg)"
  have set: "(n, e) \<in> set ?xs \<longleftrightarrow> dm_get n (hg_components hg) = Some e" for n e
    by (rule dm.iter_get [OF assms])
  have ex: "(\<exists>e \<in> set (map snd ?xs). P e) \<longleftrightarrow> (\<exists>n e. dm_get n (hg_components hg) = Some e \<and> P e)" for P
    using set by force
  have status: "hr_status (HealthRegistry_report now hg) =
      (if \<exists>n e. dm_get n (hg_components hg) = Some e \<and> he_status e = Unhealthy \<and> he_critical e then Sys_Unhealthy
       else if \<exists>n e. dm_get n (hg_components hg) = Some e \<and> he_status e \<noteq> Healthy then Sys_Degraded else Sys_Healthy)"
    by (simp only: HealthRegistry_report_def HealthRegistry_aggregate_status_def aggregate_loop_conv
        ex health_report.simps simp_thms)
  have ready: "HealthRegistry_is_ready hg \<longleftrightarrow>
      \<not> (\<exists>n e. dm_get n (hg_components hg) = Some e \<and> he_status e = Unhealthy \<and> he_critical e)"
    unfolding HealthRegistry_is_ready_def list_all_iff using set by fastforce
  have names: "map ch_name (hr_components (HealthRegistry_report now hg)) = map fst ?xs"
    by (simp add: HealthRegistry_report_def case_prod_unfold)
  have listed: "(\<exists>c. c \<in> set (hr_components (HealthRegistry_report now hg)) \<and> ch_name c = n \<and> ch_status c = s)
      \<longleftrightarrow> map_option he_status (dm_get n (hg_components hg)) = Some s" for n s
  proof -
    have "(\<exists>c. c \<in> set (hr_components (HealthRegistry_report now hg)) \<and> ch_name c = n \<and> ch_status c = s)
        \<longleftrightarrow> (\<exists>e. (n, e) \<in> set ?xs \<and> he_status e = s)"
      by (force simp: HealthRegistry_report_def image_iff)
    then show ?thesis using set by auto
  qed
  have "distinct (map ch_name (hr_components (HealthRegistry_report now hg)))"
    using dm.distinct_iter [OF assms] by (simp only: names)
  then show ?thesis
    unfolding Let_def ready status using listed by (auto split: if_splits)
qed

definition sample_registry :: health_registry where
  "sample_registry = HealthRegistry_update 5 ''pricing'' Unhealthy ''stale''
     (HealthRegistry_register 2 ''pricing'' False (HealthRegistry_register 1 ''rpc'' True (HealthRegistry_new 0)))"

theorem report_aggregates_witness:
  "HealthRegistry_is_ready sample_registry
   \<and> hr_status (HealthRegistry_report 9 sample_registry) = Sys_Degraded
   \<and> hr_status (HealthRegistry_report 9
        (HealthRegistry_update 6 ''rpc'' Unhealthy ''down'' sample_registry)) = Sys_Unhealthy"
proof -
  have wf: "dm_wf (hg_components sample_registry)"
    "dm_wf (hg_components (HealthRegistry_update 6 ''rpc'' Unhealthy ''down'' sample_registry))"
    by (simp_all add: sample_registry_def HealthRegistry_update_def HealthRegistry_register_def
        HealthRegistry_new_def wf_intros)
  have "HealthRegistry_is_ready sample_registry"
    "\<not> HealthRegistry_is_ready (HealthRegistry_update 6 ''rpc'' Unhealthy ''down'' sample_registry)"
    by (simp_all add: sample_registry_def HealthRegistry_update_def HealthRegistry_register_def
        HealthRegistry_new_def HealthRegistry_is_ready_def dm_insert_def dm_get_def dm_iter_def)
  moreover have "\<exists>n e. dm_get n (hg_components sample_registry) = Some e \<and> he_status e \<noteq> Healthy"
    by (intro exI [of _ "''pricing''"])
       (simp add: sample_registry_def HealthRegistry_update_def HealthRegistry_register_def
         HealthRegistry_new_def)
  ultimately show ?thesis
    using report_aggregates [OF wf(1), of 9] report_aggregates [OF wf(2), of 9]
    by (auto simp: Let_def intro: system_status.exhaust)
qed

section \<open>The life of a breaker\<close>

text \<open>
  The specification is a machine on three states that carries only what matters in each: the
  consecutive failures while closed, the time of the trip (and the failures counted meanwhile) while
  open, the consecutive successes while half open (and the failures it still remembers).
\<close>

datatype breaker = Closed_After u32 | Open_Since u64 u32 | Half_Open_With u32 u32

definition breaker_abs :: "circuit_breaker \<Rightarrow> breaker" where
  "breaker_abs cb = (if cb_state cb = 1 then Open_Since (cb_tripped_at cb) (cb_failures cb)
     else if cb_state cb = 2 then Half_Open_With (cb_successes cb) (cb_failures cb)
     else Closed_After (cb_failures cb))"

datatype breaker_event = Success | Failure | Query

fun breaker_wake :: "circuit_breaker_config \<Rightarrow> u64 \<Rightarrow> breaker \<Rightarrow> breaker" where
  "breaker_wake c now (Open_Since t f) =
     (if unat (bf_reset_timeout_secs c) \<le> unat now - unat t then Half_Open_With 0 f else Open_Since t f)"
| "breaker_wake c now b = b"

fun breaker_react :: "circuit_breaker_config \<Rightarrow> u64 \<Rightarrow> breaker_event \<Rightarrow> breaker \<Rightarrow> breaker" where
  "breaker_react c now Success (Closed_After f) = Closed_After 0"
| "breaker_react c now Success (Half_Open_With s f) =
     (if bf_success_threshold c \<le> s + 1 then Closed_After 0 else Half_Open_With (s + 1) f)"
| "breaker_react c now Failure (Closed_After f) =
     (if bf_failure_threshold c \<le> f + 1 then Open_Since now (f + 1) else Closed_After (f + 1))"
| "breaker_react c now Failure (Half_Open_With s f) = Open_Since now f"
| "breaker_react c now Failure (Open_Since t f) = Open_Since t (f + 1)"
| "breaker_react c now _ b = b"

definition breaker_step :: "circuit_breaker_config \<Rightarrow> breaker \<Rightarrow> u64 \<times> breaker_event \<Rightarrow> breaker" where
  "breaker_step c b e = breaker_react c (fst e) (snd e) (breaker_wake c (fst e) b)"

fun is_open :: "breaker \<Rightarrow> bool" where
  "is_open (Open_Since t f) = True"
| "is_open _ = False"

definition cb_step :: "circuit_breaker \<Rightarrow> u64 \<times> breaker_event \<Rightarrow> circuit_breaker" where
  "cb_step cb e = (case snd e of
      Success \<Rightarrow> CircuitBreaker_record_success (fst e) cb
    | Failure \<Rightarrow> CircuitBreaker_record_failure (fst e) cb
    | Query \<Rightarrow> fst (CircuitBreaker_is_allowed (fst e) cb))"

lemma sat_sub_ge: "r \<le> sat_sub a b \<longleftrightarrow> unat r \<le> unat a - unat b"
  by (simp add: word_le_nat_alt unat_simps)

lemmas cb_defs = CircuitBreaker_state_def CircuitBreaker_check_half_open_transition_def
  CircuitBreaker_trip_def CircuitBreaker_trip_state_def CircuitBreaker_trip_time_def

lemma state_abs:
  "breaker_abs (fst (CircuitBreaker_state now cb)) = breaker_wake (cb_config cb) now (breaker_abs cb)"
  "cb_config (fst (CircuitBreaker_state now cb)) = cb_config cb"
  by (simp_all add: cb_defs breaker_abs_def sat_sub_ge)

lemma state_result:
  "snd (CircuitBreaker_state now cb) = (case breaker_wake (cb_config cb) now (breaker_abs cb) of
      Closed_After _ \<Rightarrow> Circuit_Closed | Open_Since _ _ \<Rightarrow> Circuit_Open | Half_Open_With _ _ \<Rightarrow> Circuit_Half_Open)"
  by (simp add: cb_defs breaker_abs_def sat_sub_ge)

lemma cb_step_abs:
  "breaker_abs (cb_step cb (now, ev)) = breaker_step (cb_config cb) (breaker_abs cb) (now, ev)"
  by (cases ev; cases "cb_state cb = 1"; cases "cb_state cb = 2")
     (auto simp: cb_step_def breaker_step_def breaker_abs_def cb_defs sat_sub_ge Let_def
       CircuitBreaker_record_success_def CircuitBreaker_record_failure_def CircuitBreaker_is_allowed_def)

lemma cb_step_config [simp]: "cb_config (cb_step cb e) = cb_config cb"
  by (auto simp: cb_step_def cb_defs Let_def CircuitBreaker_record_success_def
      CircuitBreaker_record_failure_def CircuitBreaker_is_allowed_def split: breaker_event.split)

definition cb_run :: "(u64 \<times> breaker_event) list \<Rightarrow> circuit_breaker \<Rightarrow> circuit_breaker" where
  "cb_run es cb = foldl cb_step cb es"

definition breaker_run :: "circuit_breaker_config \<Rightarrow> (u64 \<times> breaker_event) list \<Rightarrow> breaker \<Rightarrow> breaker" where
  "breaker_run c es b = foldl (breaker_step c) b es"

lemma cb_run_config [simp]: "cb_config (cb_run es cb) = cb_config cb"
  unfolding cb_run_def by (induction es arbitrary: cb) simp_all

lemma cb_run_abs: "breaker_abs (cb_run es cb) = breaker_run (cb_config cb) es (breaker_abs cb)"
  unfolding cb_run_def breaker_run_def
proof (induction es arbitrary: cb)
  case (Cons e es)
  obtain now ev where "e = (now, ev)" by (cases e)
  then show ?case by (simp add: Cons cb_step_abs)
qed simp

lemma allowed_iff:
  "snd (CircuitBreaker_is_allowed now cb) \<longleftrightarrow> \<not> is_open (breaker_wake (cb_config cb) now (breaker_abs cb))"
proof -
  have "snd (CircuitBreaker_is_allowed now cb) \<longleftrightarrow> snd (CircuitBreaker_state now cb) \<noteq> Circuit_Open"
    by (simp add: CircuitBreaker_is_allowed_def case_prod_unfold Let_def split: circuit_state.split)
  then show ?thesis
    by (simp add: state_result split: breaker.split)
qed

text \<open>
  C9: The four atomics implement the three-state machine: after any sequence of recorded
  successes, failures and queries, whatever the clock showed at each, the breaker is in
  the state the machine is in, and lets a request through exactly when that is not an open
  state whose timeout is still running.
\<close>

theorem breaker_refines_machine:
  "(let cb = cb_run es (CircuitBreaker_new name config); b = breaker_run config es (Closed_After 0) in
      breaker_abs cb = b
      \<and> (snd (CircuitBreaker_is_allowed now cb) \<longleftrightarrow> \<not> is_open (breaker_wake config now b)))"
proof -
  let ?cb = "CircuitBreaker_new name config"
  have "breaker_abs ?cb = Closed_After 0" "cb_config ?cb = config"
    by (simp_all add: CircuitBreaker_new_def breaker_abs_def)
  then show ?thesis
    by (simp add: Let_def cb_run_abs allowed_iff)
qed

lemma open_stays:
  assumes "breaker_abs cb = Open_Since t f"
    and "list_all (\<lambda>(now, ev). unat now - unat t < unat (bf_reset_timeout_secs (cb_config cb))) es"
  shows "\<exists>f'. breaker_abs (cb_run es cb) = Open_Since t f'"
  using assms
proof (induction es arbitrary: cb f)
  case Nil
  then show ?case by (simp add: cb_run_def)
next
  case (Cons e es)
  obtain now ev where e: "e = (now, ev)" by (cases e)
  with Cons.prems have "breaker_abs (cb_step cb e) \<in> {Open_Since t f, Open_Since t (f + 1)}"
    by (cases ev) (simp_all add: cb_step_abs breaker_step_def)
  then obtain f' where "breaker_abs (cb_step cb e) = Open_Since t f'" by auto
  from Cons.IH [OF this] Cons.prems(2) show ?case
    by (simp add: cb_run_def)
qed

lemma failures_trip:
  assumes "breaker_abs cb = Closed_After k" "unat k + length ts < unat (bf_failure_threshold (cb_config cb))"
  shows "breaker_abs (cb_run (map (\<lambda>t. (t, Failure)) ts) cb) = Closed_After (k + of_nat (length ts))"
  using assms
proof (induction ts arbitrary: cb k)
  case Nil
  then show ?case by (simp add: cb_run_def)
next
  case (Cons t ts)
  let ?thr = "bf_failure_threshold (cb_config cb)"
  have k: "unat (k + 1) = unat k + 1"
    using Cons.prems unat_lt2p [of ?thr] by (subst unat_add_lt) simp_all
  then have "\<not> ?thr \<le> k + 1" using Cons.prems by (simp add: word_le_nat_alt)
  then have "breaker_abs (cb_step cb (t, Failure)) = Closed_After (k + 1)"
    using Cons.prems by (simp add: cb_step_abs breaker_step_def)
  from Cons.IH [OF this] Cons.prems k show ?case
    by (simp add: cb_run_def algebra_simps)
qed

text \<open>
  Tripping.  From the closed state with no failures counted, fewer consecutive failures
  than the threshold leave the breaker closed and requests allowed; the failure that reaches
  the threshold opens it, and from then on, whatever is recorded or asked, every request is rejected as long as
  the clock stays within the reset timeout of the trip.
\<close>

theorem breaker_trips_and_rejects:
  assumes "breaker_abs cb = Closed_After 0" "length ts < unat (bf_failure_threshold (cb_config cb))"
    and "list_all (\<lambda>(now, ev). unat now - unat trip < unat (bf_reset_timeout_secs (cb_config cb))) es"
    and "unat now - unat trip < unat (bf_reset_timeout_secs (cb_config cb))"
  shows "(let cb' = cb_run (map (\<lambda>t. (t, Failure)) ts) cb; tripped = cb_step cb' (trip, Failure) in
      snd (CircuitBreaker_is_allowed now cb')
      \<and> (if Suc (length ts) = unat (bf_failure_threshold (cb_config cb))
         then \<not> snd (CircuitBreaker_is_allowed now (cb_run es tripped))
         else snd (CircuitBreaker_is_allowed now tripped)))"
proof -
  let ?c = "cb_config cb" and ?n = "length ts"
  let ?cb' = "cb_run (map (\<lambda>t. (t, Failure)) ts) cb"
  have closed: "breaker_abs ?cb' = Closed_After (of_nat ?n)"
    using failures_trip [OF assms(1), of ts] assms(2) by simp
  have "unat (of_nat ?n + 1 :: u32) = ?n + 1"
    using assms(2) unat_lt2p [of "bf_failure_threshold ?c"]
    by (subst unat_add_lt) (simp_all add: unat_of_nat take_bit_nat_eq_self)
  then have thr: "bf_failure_threshold ?c \<le> of_nat ?n + 1 \<longleftrightarrow> Suc ?n = unat (bf_failure_threshold ?c)"
    using assms(2) by (auto simp: word_le_nat_alt)
  have step: "breaker_abs (cb_step ?cb' (trip, Failure)) =
      (if Suc ?n = unat (bf_failure_threshold ?c) then Open_Since trip (of_nat ?n + 1)
       else Closed_After (of_nat ?n + 1))"
    by (simp add: cb_step_abs breaker_step_def closed thr)
  show ?thesis
  proof (cases "Suc ?n = unat (bf_failure_threshold ?c)")
    case True
    with step obtain f where "breaker_abs (cb_run es (cb_step ?cb' (trip, Failure))) = Open_Since trip f"
      using open_stays [of "cb_step ?cb' (trip, Failure)" trip _ es] assms(3) by auto
    with True closed assms(4) show ?thesis by (simp add: Let_def allowed_iff)
  next
    case False
    with step closed show ?thesis by (simp add: Let_def allowed_iff)
  qed
qed

theorem breaker_trips_and_rejects_witness:
  "(let cb = CircuitBreaker_with_defaults ''rpc'';
        tripped = cb_step (cb_run (map (\<lambda>t. (t, Failure)) [1, 2, 3, 4]) cb) (100, Failure) in
      \<not> snd (CircuitBreaker_is_allowed 129 (cb_run [(101, Success), (102, Failure), (128, Query)] tripped)))"
  using breaker_trips_and_rejects [of "CircuitBreaker_with_defaults ''rpc''" "[1, 2, 3, 4]" 100
      "[(101, Success), (102, Failure), (128, Query)]" 129]
  by (simp add: CircuitBreaker_with_defaults_def CircuitBreaker_new_def CircuitBreakerConfig_default_def
      breaker_abs_def Let_def)

lemma successes_recover:
  assumes "breaker_abs cb = Half_Open_With k f" "unat k + length ts < unat (bf_success_threshold (cb_config cb))"
  shows "breaker_abs (cb_run (map (\<lambda>t. (t, Success)) ts) cb) = Half_Open_With (k + of_nat (length ts)) f"
  using assms
proof (induction ts arbitrary: cb k)
  case Nil
  then show ?case by (simp add: cb_run_def)
next
  case (Cons t ts)
  let ?thr = "bf_success_threshold (cb_config cb)"
  have k: "unat (k + 1) = unat k + 1"
    using Cons.prems unat_lt2p [of ?thr] by (subst unat_add_lt) simp_all
  then have "\<not> ?thr \<le> k + 1" using Cons.prems by (simp add: word_le_nat_alt)
  then have "breaker_abs (cb_step cb (t, Success)) = Half_Open_With (k + 1) f"
    using Cons.prems by (simp add: cb_step_abs breaker_step_def)
  from Cons.IH [OF this] Cons.prems k show ?case
    by (simp add: cb_run_def algebra_simps)
qed

text \<open>
  Recovery.  Once the timeout of an open breaker has passed, the next query half-opens it;
  exactly \<open>success_threshold\<close> consecutive successes then close it with all counters cleared, and a
  failure before that opens it again for a full timeout.
\<close>

theorem breaker_recovers:
  assumes "breaker_abs cb = Open_Since t f"
    and "unat (bf_reset_timeout_secs (cb_config cb)) \<le> unat now - unat t"
    and "length ts < unat (bf_success_threshold (cb_config cb))"
  shows "(let cb' = cb_run ((now, Query) # map (\<lambda>t. (t, Success)) ts) cb in
      snd (CircuitBreaker_is_allowed now cb)
      \<and> breaker_abs cb' = Half_Open_With (of_nat (length ts)) f
      \<and> breaker_abs (cb_step cb' (later, Failure)) = Open_Since later f
      \<and> breaker_abs (cb_step cb' (later, Success)) =
          (if Suc (length ts) = unat (bf_success_threshold (cb_config cb)) then Closed_After 0
           else Half_Open_With (of_nat (Suc (length ts))) f))"
proof -
  let ?c = "cb_config cb" and ?n = "length ts"
  let ?half = "cb_step cb (now, Query)"
  have half: "breaker_abs ?half = Half_Open_With 0 f"
    using assms(1,2) by (simp add: cb_step_abs breaker_step_def)
  then have run: "breaker_abs (cb_run ((now, Query) # map (\<lambda>t. (t, Success)) ts) cb) = Half_Open_With (of_nat ?n) f"
    using successes_recover [OF half, of ts] assms(3) by (simp add: cb_run_def)
  have "unat (of_nat ?n + 1 :: u32) = ?n + 1"
    using assms(3) unat_lt2p [of "bf_success_threshold ?c"]
    by (subst unat_add_lt) (simp_all add: unat_of_nat take_bit_nat_eq_self)
  then have thr: "bf_success_threshold ?c \<le> of_nat ?n + 1 \<longleftrightarrow> Suc ?n = unat (bf_success_threshold ?c)"
    using assms(3) by (auto simp: word_le_nat_alt)
  show ?thesis
    using assms(1,2) thr
    by (simp add: Let_def run cb_step_abs breaker_step_def allowed_iff add.commute [of 1])
qed

definition tripped_breaker :: circuit_breaker where
  "tripped_breaker = cb_run (map (\<lambda>t. (t, Failure)) [1, 2, 3, 4, 100]) (CircuitBreaker_with_defaults ''rpc'')"

theorem breaker_recovers_witness:
  "breaker_abs tripped_breaker = Open_Since 100 5
   \<and> breaker_abs (cb_step (cb_run ((130, Query) # map (\<lambda>t. (t, Success)) [131]) tripped_breaker) (132, Success))
       = Closed_After 0"
proof -
  have cfg: "cb_config tripped_breaker = CircuitBreakerConfig_default"
    by (simp add: tripped_breaker_def CircuitBreaker_with_defaults_def CircuitBreaker_new_def)
  have "breaker_abs (CircuitBreaker_with_defaults ''rpc'') = Closed_After 0"
    "cb_config (CircuitBreaker_with_defaults ''rpc'') = CircuitBreakerConfig_default"
    by (simp_all add: CircuitBreaker_with_defaults_def CircuitBreaker_new_def breaker_abs_def)
  then have "breaker_abs tripped_breaker = Open_Since 100 5"
    unfolding tripped_breaker_def
    by (simp add: cb_run_abs breaker_run_def breaker_step_def CircuitBreakerConfig_default_def word_le_nat_alt)
  with breaker_recovers [of tripped_breaker 100 5 130 "[131]" 132] show ?thesis
    by (simp add: cfg CircuitBreakerConfig_default_def Let_def)
qed

text \<open>
  Between the two stores of \<open>trip\<close> a query by another task reads the open state with the time
  of an earlier trip (or zero): it half-opens the breaker at once, and the second store does not
  undo that, so the trip rejects nothing.
\<close>

lemma trip_race:
  "(let cb0 = CircuitBreaker_with_defaults ''rpc'';
        (cb1, allowed) = CircuitBreaker_is_allowed 1700000000 (CircuitBreaker_trip_state cb0);
        cb2 = CircuitBreaker_trip_time 1700000000 cb1
    in allowed \<and> breaker_abs cb2 = Half_Open_With 0 0
       \<and> snd (CircuitBreaker_is_allowed 1700000000 cb2)
       \<and> \<not> snd (CircuitBreaker_is_allowed 1700000000 (CircuitBreaker_trip 1700000000 cb0)))"
  by (simp add: CircuitBreaker_with_defaults_def CircuitBreaker_new_def CircuitBreakerConfig_default_def
      CircuitBreaker_is_allowed_def cb_defs breaker_abs_def Let_def sat_sub_def word_le_nat_alt)

text \<open>Half open, requests are not limited: any number of queries is answered with yes.\<close>

lemma half_open_unlimited:
  "breaker_abs cb = Half_Open_With s f \<Longrightarrow>
     snd (CircuitBreaker_is_allowed now (cb_run (map (\<lambda>t. (t, Query)) ts) cb))"
proof -
  assume half: "breaker_abs cb = Half_Open_With s f"
  have "breaker_run c (map (\<lambda>t. (t, Query)) ts) (Half_Open_With s f) = Half_Open_With s f" for c
    by (induction ts) (simp_all add: breaker_run_def breaker_step_def)
  with half show ?thesis by (simp add: allowed_iff cb_run_abs)
qed

end
