(* ===== verification/Ttl_Cache.thy ===== *)
theory Ttl_Cache
  imports Dash_Map
begin

text \<open>
  The contract of a cache in front of a slow source, as the price aggregator and the gas oracle
  keep one: an entry young enough answers the query and nothing changes; otherwise the source is
  asked, a good answer is stored with the time and a failure is not.  The facts the two
  components need follow once, inside the locale.
\<close>

definition cache_age :: "datetime \<Rightarrow> datetime \<Rightarrow> u64" where
  "cache_age now cached_at = unsigned_abs (num_seconds (now - cached_at))"

lemma cache_age_self [simp]: "cache_age t t = 0"
  by (simp add: cache_age_def num_seconds_def unsigned_abs_def)

locale ttl_cache =
  fixes entry :: "'s \<Rightarrow> 'k \<Rightarrow> ('v \<times> datetime) option"
    and ttl :: "'s \<Rightarrow> u64"
    and query :: "datetime \<Rightarrow> 'k \<Rightarrow> 'a \<Rightarrow> 's \<Rightarrow> 's \<times> 'r"
    and compute :: "'s \<Rightarrow> 'k \<Rightarrow> 'a \<Rightarrow> 'r"
    and good :: "'r \<Rightarrow> 'v option"
    and answer :: "'v \<Rightarrow> 'r"
    and stored_at :: "'a \<Rightarrow> datetime"
  assumes hit: "entry s k = Some (v, t) \<Longrightarrow> cache_age now t \<le> ttl s \<Longrightarrow> query now k a s = (s, answer v)"
    and miss: "(\<And>v t. entry s k = Some (v, t) \<Longrightarrow> \<not> cache_age now t \<le> ttl s) \<Longrightarrow>
      snd (query now k a s) = compute s k a"
    and store: "(\<And>v t. entry s k = Some (v, t) \<Longrightarrow> \<not> cache_age now t \<le> ttl s) \<Longrightarrow>
      entry (fst (query now k a s)) k' =
        (case good (compute s k a) of None \<Rightarrow> entry s k'
         | Some v \<Rightarrow> if k' = k then Some (v, stored_at a) else entry s k')"
    and ttl_kept: "ttl (fst (query now k a s)) = ttl s"
    and good_answer: "good r = Some v \<longleftrightarrow> r = answer v"
begin

definition fresh :: "datetime \<Rightarrow> 'k \<Rightarrow> 's \<Rightarrow> 'v option" where
  "fresh now k s = (case entry s k of Some (v, t) \<Rightarrow> if cache_age now t \<le> ttl s then Some v else None
     | None \<Rightarrow> None)"

lemma query_fresh: "fresh now k s = Some v \<Longrightarrow> query now k a s = (s, answer v)"
  by (auto simp: fresh_def split: option.splits if_splits intro: hit)

lemma fresh_None: "fresh now k s = None \<Longrightarrow> entry s k = Some (v, t) \<Longrightarrow> \<not> cache_age now t \<le> ttl s"
  by (auto simp: fresh_def split: if_splits)

lemma query_stale: "fresh now k s = None \<Longrightarrow> snd (query now k a s) = compute s k a"
  using miss fresh_None by metis

text \<open>Where an answer comes from.\<close>

lemma query_source:
  "snd (query now k a s) = (case fresh now k s of Some v \<Rightarrow> answer v | None \<Rightarrow> compute s k a)"
  by (cases "fresh now k s") (simp_all add: query_fresh query_stale)

text \<open>A computed answer is served unchanged while it is young enough, whatever the source would say.\<close>

lemma served_again:
  assumes "fresh now k s = None" "snd (query now k a s) = answer v" "cache_age later (stored_at a) \<le> ttl s"
  shows "query later k a' (fst (query now k a s)) = (fst (query now k a s), answer v)"
proof (rule hit)
  have "good (compute s k a) = Some v"
    using assms(1,2) by (simp add: query_stale good_answer)
  then show "entry (fst (query now k a s)) k = Some (v, stored_at a)"
    using store [of s k now a k] fresh_None [OF assms(1)] by simp
  show "cache_age later (stored_at a) \<le> ttl (fst (query now k a s))"
    using assms(3) by (simp add: ttl_kept)
qed

text \<open>A failure is not cached: the next query asks the source again.\<close>

lemma failure_not_cached:
  assumes "fresh now k s = None" "good (compute s k a) = None"
  shows "entry (fst (query now k a s)) = entry s"
  using store [of s k now a] fresh_None [OF assms(1)] assms(2) by auto

lemma other_keys: "k' \<noteq> k \<Longrightarrow> entry (fst (query now k a s)) k' = entry s k'"
proof -
  assume "k' \<noteq> k"
  then show ?thesis
    by (cases "fresh now k s")
       (use fresh_None [of now k s] store [of s k now a k'] query_fresh [of now k s] in
         \<open>auto split: option.splits\<close>)
qed

end

end
