(* ===== verification/Aggregator.thy ===== *)
theory Aggregator
  imports Types Ttl_Cache
begin

text \<open>
  The price aggregator (\<open>phantom-pricing/src/aggregator.rs\<close>): median, mean, outlier filter and
  confidence on 256-bit prices whose arithmetic wraps, and \<open>get_price\<close> with its cache.  What
  each source answers within the timeout is an argument, in the order of the registered sources,
  as are the three readings of the clock.
\<close>

section \<open>Configuration and state\<close>

record aggregator_config =
  ag_cache_ttl_seconds :: u64
  ag_min_sources :: nat
  ag_max_deviation_pct :: u64
  ag_timeout_ms :: u64

definition AggregatorConfig_default :: aggregator_config where
  "AggregatorConfig_default =
     \<lparr>ag_cache_ttl_seconds = 30, ag_min_sources = 1, ag_max_deviation_pct = 10, ag_timeout_ms = 5000\<rparr>"

record aggregated_price =
  ap_median_price :: u256
  ap_mean_price :: u256
  ap_num_sources :: nat
  ap_confidence :: u8
  ap_timestamp :: datetime
  ap_sources :: "string list"

record price_key =
  pk_base :: address
  pk_quote :: address
  pk_chain_id :: chain_id

record cached_price =
  cp_price :: aggregated_price
  cp_cached_at :: datetime

text \<open>Of a source the aggregator keeps what \<open>name()\<close> returns.\<close>

record price_aggregator =
  pa_sources :: "string list"
  pa_cache :: "(price_key, cached_price) dashmap"
  pa_config :: aggregator_config

definition PriceAggregator_new :: "aggregator_config \<Rightarrow> price_aggregator" where
  "PriceAggregator_new config = \<lparr>pa_sources = [], pa_cache = dm_empty, pa_config = config\<rparr>"

definition PriceAggregator_add_source :: "string \<Rightarrow> price_aggregator \<Rightarrow> price_aggregator" where
  "PriceAggregator_add_source source pa = pa\<lparr>pa_sources := pa_sources pa @ [source]\<rparr>"

definition PriceAggregator_source_count :: "price_aggregator \<Rightarrow> nat" where
  "PriceAggregator_source_count pa = length (pa_sources pa)"

definition PriceAggregator_invalidate_cache :: "price_aggregator \<Rightarrow> price_aggregator" where
  "PriceAggregator_invalidate_cache pa = pa\<lparr>pa_cache := dm_empty\<rparr>"

definition PriceAggregator_cache_size :: "price_aggregator \<Rightarrow> nat" where
  "PriceAggregator_cache_size pa = dm_len (pa_cache pa)"

section \<open>The pure helpers\<close>

text \<open>Both averages assert that the slice is not empty: \<open>None\<close> is the panic.\<close>

definition calculate_median :: "u256 list \<Rightarrow> u256 option" where
  "calculate_median prices =
     (if prices = [] then None
      else let sorted = sort prices; mid = length sorted div 2 in
        Some (if length sorted mod 2 = 0
              then (sorted ! (mid - 1) + sorted ! mid) div 2 else sorted ! mid))"

definition calculate_mean :: "u256 list \<Rightarrow> u256 option" where
  "calculate_mean prices =
     (if prices = [] then None
      else let sum = foldl (\<lambda>acc p. acc + p) 0 prices in
        Some (sum div ucast (of_nat (length prices) :: u64)))"

definition is_outlier :: "u256 \<Rightarrow> u256 \<Rightarrow> u64 \<Rightarrow> bool" where
  "is_outlier price median max_deviation_pct =
     (if median = 0 then False
      else let threshold = median * ucast max_deviation_pct div 100;
               diff = (if median < price then price - median else median - price)
           in threshold < diff)"

definition agreement_score :: "u256 list \<Rightarrow> u64" where
  "agreement_score prices =
     (if length prices < 2 then 25
      else let sorted = sort prices; min_p = sorted ! 0; max_p = sorted ! (length sorted - 1);
               median = the (calculate_median prices)
           in if median = 0 then 0
              else let spread_pct = (max_p - min_p) * 100 div median;
                       spread = (if unat spread_pct < 2 ^ 64 then ucast spread_pct else - 1 :: u64)
                   in sat_sub 50 (sat_mul spread 50 div 20))"

definition source_score :: "nat \<Rightarrow> u64" where
  "source_score num_sources = min (min (of_nat num_sources) 5 * 10) 50"

definition calculate_confidence :: "nat \<Rightarrow> nat \<Rightarrow> u256 list \<Rightarrow> u8" where
  "calculate_confidence num_sources min_sources prices =
     (if num_sources = 0 \<or> prices = [] then 0
      else let min_penalty = (if num_sources \<le> min_sources then 10 else 0);
               score = sat_sub (source_score num_sources + agreement_score prices) min_penalty
           in ucast (min score 100))"

section \<open>Fetching a price\<close>

datatype source_answer = Price u256 | Source_Error | Timed_Out

type_synonym price_query = "string \<times> string \<times> source_answer list \<times> datetime \<times> datetime"

definition raw_prices :: "string list \<Rightarrow> source_answer list \<Rightarrow> (u256 \<times> string) list" where
  "raw_prices names answers =
     List.map_filter (\<lambda>(name, r). case r of Price p \<Rightarrow> Some (p, name) | Source_Error \<Rightarrow> None | Timed_Out \<Rightarrow> None)
       (zip names answers)"

text \<open>
  The part of \<open>get_price\<close> after a cache miss.  \<open>ts\<close> is the clock at the construction of the
  aggregate.  \<open>None\<close> is a panic of one of the asserts.
\<close>

definition PriceAggregator_aggregate ::
    "price_aggregator \<Rightarrow> price_key \<Rightarrow> price_query \<Rightarrow> (pricing_error + aggregated_price) option" where
  "PriceAggregator_aggregate pa key q =
     (case q of (base_symbol, quote_symbol, answers, ts, at) \<Rightarrow>
      let config = pa_config pa;
          raw = raw_prices (pa_sources pa) answers;
          no_price = Some (Inl (NoPriceAvailable base_symbol quote_symbol (pk_chain_id key)))
      in if raw = [] then no_price
         else case calculate_median (map fst raw) of
            None \<Rightarrow> None
          | Some median \<Rightarrow>
              let filtered = filter (\<lambda>(p, _). \<not> is_outlier p median (ag_max_deviation_pct config)) raw
              in if length filtered < ag_min_sources config then no_price
                 else case (calculate_median (map fst filtered), calculate_mean (map fst filtered)) of
                    (Some med, Some mean) \<Rightarrow>
                      Some (Inr \<lparr>ap_median_price = med, ap_mean_price = mean,
                        ap_num_sources = length (map fst filtered),
                        ap_confidence = calculate_confidence (length (map fst filtered))
                          (ag_min_sources config) (map fst filtered),
                        ap_timestamp = ts, ap_sources = map snd filtered\<rparr>)
                  | _ \<Rightarrow> None)"

text \<open>The clock when the aggregate is stored.\<close>

definition query_time :: "price_query \<Rightarrow> datetime" where
  "query_time q = snd (snd (snd (snd q)))"

definition PriceAggregator_get_price ::
    "datetime \<Rightarrow> price_key \<Rightarrow> price_query \<Rightarrow> price_aggregator
       \<Rightarrow> price_aggregator \<times> (pricing_error + aggregated_price) option" where
  "PriceAggregator_get_price now key q pa =
     (case (case dm_get key (pa_cache pa) of
              Some cached \<Rightarrow>
                if cache_age now (cp_cached_at cached) \<le> ag_cache_ttl_seconds (pa_config pa)
                then Some (cp_price cached) else None
            | None \<Rightarrow> None) of
        Some price \<Rightarrow> (pa, Some (Inr price))
      | None \<Rightarrow>
          (case PriceAggregator_aggregate pa key q of
             Some (Inr agg) \<Rightarrow>
               (pa\<lparr>pa_cache := dm_insert key \<lparr>cp_price = agg, cp_cached_at = query_time q\<rparr> (pa_cache pa)\<rparr>,
                Some (Inr agg))
           | r \<Rightarrow> (pa, r)))"

section \<open>Median and mean\<close>

lemma calculate_median_Some: "xs \<noteq> [] \<Longrightarrow> \<exists>m. calculate_median xs = Some m"
  by (simp add: calculate_median_def Let_def)

lemma length_filter_mset: "mset xs = mset ys \<Longrightarrow> length (filter P xs) = length (filter P ys)"
  by (metis mset_filter size_mset)

lemma length_filter_take: "(\<And>i. i < n \<Longrightarrow> P (xs ! i)) \<Longrightarrow> n \<le> length xs \<Longrightarrow> n \<le> length (filter P xs)"
proof -
  assume *: "\<And>i. i < n \<Longrightarrow> P (xs ! i)" "n \<le> length xs"
  then have "filter P (take n xs) = take n xs"
    by (auto simp: filter_id_conv in_set_conv_nth)
  moreover have "filter P xs = filter P (take n xs) @ filter P (drop n xs)"
    by (metis append_take_drop_id filter_append)
  ultimately show ?thesis using *(2) by simp
qed

lemma length_filter_drop: "(\<And>i. n \<le> i \<Longrightarrow> i < length xs \<Longrightarrow> P (xs ! i)) \<Longrightarrow> length xs - n \<le> length (filter P xs)"
proof -
  assume *: "\<And>i. n \<le> i \<Longrightarrow> i < length xs \<Longrightarrow> P (xs ! i)"
  have "filter P (drop n xs) = drop n xs"
    using * by (auto simp: filter_id_conv in_set_conv_nth)
  moreover have "filter P xs = filter P (take n xs) @ filter P (drop n xs)"
    by (metis append_take_drop_id filter_append)
  ultimately show ?thesis by simp
qed

text \<open>The median lies between the two middle elements of the sorted prices.\<close>

lemma median_between_middle:
  assumes "xs \<noteq> []" "\<And>x. x \<in> set xs \<Longrightarrow> unat x < 2 ^ 255" "calculate_median xs = Some m"
  defines "ys \<equiv> sort xs" and "k \<equiv> (length xs - 1) div 2"
  shows "ys ! k \<le> m" "m \<le> ys ! (length xs div 2)" "k < length xs" "length xs div 2 < length xs"
proof -
  let ?n = "length xs"
  show k: "k < ?n" "?n div 2 < ?n"
  proof -
    have "0 < ?n" using assms(1) by simp
    then show "k < ?n" "?n div 2 < ?n" unfolding k_def by linarith+
  qed
  have sorted: "sorted ys" "length ys = ?n" by (simp_all add: ys_def)
  have le: "ys ! k \<le> ys ! (?n div 2)"
    using sorted k by (intro sorted_nth_mono) (simp_all add: k_def)
  have small: "unat (ys ! i) < 2 ^ 255" if "i < ?n" for i
    using assms(2) [of "ys ! i"] that sorted(2) nth_mem [of i ys] by (simp add: ys_def)
  show "ys ! k \<le> m" "m \<le> ys ! (?n div 2)"
  proof -
    have "ys ! k \<le> m \<and> m \<le> ys ! (?n div 2)"
    proof (cases "?n mod 2 = 0")
      case True
      with assms(1) have k2: "k = ?n div 2 - 1"
        by (cases "?n div 2") (auto simp: k_def)
      let ?a = "ys ! k" and ?b = "ys ! (?n div 2)"
      have m: "m = (?a + ?b) div 2"
        using assms(1,3) True k2 by (simp add: calculate_median_def Let_def ys_def)
      have "unat ?a + unat ?b < 2 ^ 256"
        using small [OF k(1)] small [OF k(2)] by simp
      then have "unat m = (unat ?a + unat ?b) div 2"
        by (simp add: m unat_simps unat_add_lt)
      with le show ?thesis by (simp add: word_le_nat_alt) linarith
    next
      case False
      then have "k = ?n div 2" by (simp add: k_def) presburger
      with assms(1,3) False show ?thesis by (simp add: calculate_median_def Let_def ys_def)
    qed
    then show "ys ! k \<le> m" "m \<le> ys ! (?n div 2)" by simp_all
  qed
qed

text \<open>
  For prices below 2^255 the median is a median: at least half of the prices are at most
  as large and at least half are at least as large, and it depends only on which prices occur, not on the order
  in which the sources answered.
\<close>

theorem median_is_middle:
  assumes "xs \<noteq> []" "\<forall>x \<in> set xs. unat x < 2 ^ 255"
  shows "\<exists>m. calculate_median xs = Some m
     \<and> length xs \<le> 2 * length (filter (\<lambda>x. x \<le> m) xs)
     \<and> length xs \<le> 2 * length (filter (\<lambda>x. m \<le> x) xs)
     \<and> (\<forall>ys. mset ys = mset xs \<longrightarrow> calculate_median ys = Some m)"
proof -
  let ?n = "length xs" and ?s = "sort xs"
  obtain m where m: "calculate_median xs = Some m"
    using calculate_median_Some [OF assms(1)] by blast
  note mid = median_between_middle [OF assms(1) _ m]
  have s: "sorted ?s" "length ?s = ?n" by simp_all
  have "(?n - 1) div 2 + 1 \<le> length (filter (\<lambda>x. x \<le> m) ?s)"
  proof (rule length_filter_take)
    fix i assume "i < (?n - 1) div 2 + 1"
    then have "?s ! i \<le> ?s ! ((?n - 1) div 2)"
      using mid(3) assms s by (intro sorted_nth_mono) auto
    also have "\<dots> \<le> m" using mid(1) assms(2) by blast
    finally show "?s ! i \<le> m" .
  qed (use mid(3) assms in auto)
  moreover have "?n - ?n div 2 \<le> length (filter (\<lambda>x. m \<le> x) ?s)"
    unfolding s(2) [symmetric]
  proof (rule length_filter_drop)
    fix i assume i: "length ?s div 2 \<le> i" "i < length ?s"
    have "m \<le> ?s ! (?n div 2)" using mid(2) assms(2) by blast
    also have "\<dots> \<le> ?s ! i" using i s by (intro sorted_nth_mono) simp_all
    finally show "m \<le> ?s ! i" .
  qed
  moreover have "length (filter P ?s) = length (filter P xs)" for P
    by (rule length_filter_mset) simp
  moreover have "calculate_median ys = Some m" if "mset ys = mset xs" for ys
  proof -
    have "sort ys = sort xs" using that by (intro properties_for_sort) simp_all
    moreover have "ys = [] \<longleftrightarrow> xs = []" using that by auto
    ultimately have "calculate_median ys = calculate_median xs"
      unfolding calculate_median_def by (simp only:)
    with m show ?thesis by simp
  qed
  ultimately show ?thesis using m by (intro exI [of _ m]) auto
qed

theorem median_is_middle_witness:
  "calculate_median [100, 300, 120, 110] = Some 115"
proof -
  have "\<exists>m. calculate_median [100, 300, 120, 110] = Some m"
    using median_is_middle [of "[100, 300, 120, 110]"] by auto
  then show ?thesis
    by (simp add: calculate_median_def Let_def word_le_nat_alt)
qed

text \<open>The sum of the two middle prices wraps: two sources that agree on the largest price give half of it.\<close>

lemma median_wraps: "calculate_median [- 1, - 1] = Some (2 ^ 255 - 1)"
  by (simp add: calculate_median_def Let_def)

lemma sort_nth_in: "i < length xs \<Longrightarrow> sort xs ! i \<in> set xs"
  by (metis length_sort nth_mem set_sort)





section \<open>The aggregate\<close>







definition sample_aggregator :: price_aggregator where
  "sample_aggregator = fold PriceAggregator_add_source [''uniswap'', ''curve'', ''binance'', ''feed'']
     (PriceAggregator_new AggregatorConfig_default)"


definition sample_key :: price_key where
  "sample_key = \<lparr>pk_base = 1, pk_quote = 2, pk_chain_id = Ethereum\<rparr>"



text \<open>
  A minimum of zero sources lets an empty list reach \<open>calculate_median\<close>: two answers that
  disagree by more than the deviation allows are both outliers, and the call panics.
\<close>

lemma no_minimum_panics:
  "PriceAggregator_aggregate (sample_aggregator\<lparr>pa_config := AggregatorConfig_default\<lparr>ag_min_sources := 0\<rparr>\<rparr>)
     sample_key (''A'', ''B'', [Price 100, Price 200], 7, 8) = None"
  by (simp add: PriceAggregator_aggregate_def sample_aggregator_def
      PriceAggregator_add_source_def PriceAggregator_new_def AggregatorConfig_default_def raw_prices_def
      map_filter_simps calculate_median_def is_outlier_def word_le_nat_alt word_less_nat_alt Let_def)

text \<open>
  With a minimum of at least one source \<open>get_price\<close> never panics, and it fails only with
  \<open>NoPriceAvailable\<close> for the requested pair, changing nothing.
\<close>

theorem get_price_no_panic:
  assumes "1 \<le> ag_min_sources (pa_config pa)"
  shows "case PriceAggregator_get_price now key (base_symbol, quote_symbol, answers, ts, at) pa of
      (pa', None) \<Rightarrow> False
    | (pa', Some (Inl e)) \<Rightarrow> pa' = pa \<and> e = NoPriceAvailable base_symbol quote_symbol (pk_chain_id key)
    | (pa', Some (Inr agg)) \<Rightarrow> pa_sources pa' = pa_sources pa \<and> pa_config pa' = pa_config pa"
proof -
  let ?r = "PriceAggregator_aggregate pa key (base_symbol, quote_symbol, answers, ts, at)"
  have med: "calculate_median xs \<noteq> None" "calculate_mean xs \<noteq> None" if "xs \<noteq> []" for xs
    using that by (simp_all add: calculate_median_def calculate_mean_def Let_def)
  have "case ?r of None \<Rightarrow> False
      | Some (Inl e) \<Rightarrow> e = NoPriceAvailable base_symbol quote_symbol (pk_chain_id key) | Some (Inr _) \<Rightarrow> True"
  proof (cases "raw_prices (pa_sources pa) answers = []")
    case True
    then show ?thesis by (simp add: PriceAggregator_aggregate_def)
  next
    case False
    let ?raw = "raw_prices (pa_sources pa) answers"
    obtain m where m: "calculate_median (map fst ?raw) = Some m"
      using med(1) [of "map fst ?raw"] False by auto
    let ?f = "filter (\<lambda>(p, _). \<not> is_outlier p m (ag_max_deviation_pct (pa_config pa))) ?raw"
    show ?thesis
    proof (cases "length ?f < ag_min_sources (pa_config pa)")
      case True
      with m False show ?thesis by (simp add: PriceAggregator_aggregate_def Let_def)
    next
      case enough: False
      then have "map fst ?f \<noteq> []" using assms by fastforce
      then obtain x y where "calculate_median (map fst ?f) = Some x" "calculate_mean (map fst ?f) = Some y"
        using med by blast
      with enough m False show ?thesis by (simp add: PriceAggregator_aggregate_def Let_def)
    qed
  qed
  then show ?thesis
    by (auto simp: PriceAggregator_get_price_def split: option.splits sum.splits)
qed

theorem get_price_no_panic_witness:
  "snd (PriceAggregator_get_price 0 sample_key (''A'', ''B'', [Price 100, Price 200, Timed_Out, Source_Error], 0, 0)
     sample_aggregator) = Some (Inl (NoPriceAvailable ''A'' ''B'' Ethereum))"
proof -
  have "1 \<le> ag_min_sources (pa_config sample_aggregator)"
    by (simp add: sample_aggregator_def PriceAggregator_add_source_def PriceAggregator_new_def
        AggregatorConfig_default_def)
  from get_price_no_panic [OF this, where now = 0 and key = sample_key and base_symbol = "''A''"
      and quote_symbol = "''B''" and answers = "[Price 100, Price 200, Timed_Out, Source_Error]" and ts = 0 and at = 0]
  show ?thesis
    by (simp add: PriceAggregator_get_price_def PriceAggregator_aggregate_def sample_aggregator_def
        sample_key_def PriceAggregator_add_source_def PriceAggregator_new_def AggregatorConfig_default_def
        raw_prices_def map_filter_simps calculate_median_def is_outlier_def word_le_nat_alt
        word_less_nat_alt Let_def)
qed

section \<open>Confidence\<close>

lemma agreement_le_50: "unat (agreement_score prices) \<le> 50"
  by (simp add: agreement_score_def Let_def unat_simps)

lemma source_score_value: "n < 2 ^ 64 \<Longrightarrow> unat (source_score n) = 10 * min n 5"
proof -
  assume "n < 2 ^ 64"
  then have n: "unat (of_nat n :: u64) = n"
    by (simp add: unat_of_nat take_bit_nat_eq_self)
  have min: "unat (min a b) = min (unat a) (unat b)" for a b :: u64
    by (simp add: min_def word_le_nat_alt)
  have "unat (min (of_nat n) 5 :: u64) = min n 5" by (simp add: min n)
  then have "unat (min (of_nat n) 5 * 10 :: u64) = min n 5 * 10"
    by (subst unat_mult_lt) simp_all
  then show ?thesis by (simp add: source_score_def min)
qed

lemma confidence_value:
  assumes "n < 2 ^ 64" "n \<noteq> 0" "prices \<noteq> []"
  shows "unat (calculate_confidence n k prices) =
    10 * min n 5 + unat (agreement_score prices) - (if n \<le> k then 10 else 0)"
proof -
  define s where "s = sat_sub (source_score n + agreement_score prices) (if n \<le> k then 10 else 0)"
  have "unat (source_score n + agreement_score prices) = 10 * min n 5 + unat (agreement_score prices)"
    using agreement_le_50 [of prices] source_score_value [OF assms(1)] by (subst unat_add_lt) simp_all
  then have s: "unat s = 10 * min n 5 + unat (agreement_score prices) - (if n \<le> k then 10 else 0)"
    by (simp add: s_def unat_simps)
  then have le: "unat s \<le> 100" using agreement_le_50 [of prices] by simp
  then have "min s 100 = s" by (simp add: min_def word_le_nat_alt)
  then have "calculate_confidence n k prices = ucast s"
    using assms by (simp add: calculate_confidence_def s_def Let_def)
  with le have "unat (calculate_confidence n k prices) = unat s" by (simp add: unat_ucast)
  with s show ?thesis by simp
qed

lemma agreement_50:
  assumes "\<forall>p \<in> set prices. unat p < 2 ^ 192" "2 \<le> length prices"
  shows "unat (agreement_score prices) = 50 \<longleftrightarrow>
    100 * (Max (unat ` set prices) - Min (unat ` set prices)) < unat (the (calculate_median prices))"
proof -
  let ?s = "sort prices"
  have first: "?s ! 0 \<in> set prices" "?s ! (length prices - 1) \<in> set prices"
    using assms(2) by (auto intro: sort_nth_in)
  have range: "?s ! 0 \<le> p \<and> p \<le> ?s ! (length prices - 1)" if "p \<in> set prices" for p
  proof -
    from that obtain i where i: "i < length ?s" "?s ! i = p" by (metis in_set_conv_nth set_sort)
    then show ?thesis using sorted_nth_mono [of ?s 0 i] sorted_nth_mono [of ?s i "length prices - 1"] by auto
  qed
  have mm: "Min (unat ` set prices) = unat (?s ! 0)" "Max (unat ` set prices) = unat (?s ! (length prices - 1))"
    using first range by (auto intro!: Min_eqI Max_eqI simp: word_le_nat_alt)
  let ?w = "?s ! (length prices - 1) - ?s ! 0" and ?m = "the (calculate_median prices)"
  have w: "unat ?w = Max (unat ` set prices) - Min (unat ` set prices)"
    using range [OF first(1)] unfolding mm by (simp add: unat_sub_le)
  also have "\<dots> \<le> unat (?s ! (length prices - 1))" unfolding mm by simp
  also have "\<dots> < 2 ^ 192" using assms(1) first(2) by blast
  finally have w192: "unat ?w < 2 ^ 192" .
  have "unat (agreement_score prices) = 50 \<longleftrightarrow> 100 * unat ?w < unat ?m"
  proof (cases "?m = 0")
    case True
    with assms(2) show ?thesis by (simp add: agreement_score_def Let_def)
  next
    case m: False
    let ?p = "?w * 100 div ?m"
    let ?sp = "if unat ?p < 2 ^ 64 then ucast ?p else - 1 :: u64"
    have "unat (?w * 100) = unat ?w * 100"
      using w192 by (subst unat_mult_lt) simp_all
    then have p: "unat ?p = unat ?w * 100 div unat ?m" by (simp add: unat_simps)
    have "unat ?sp = 0 \<longleftrightarrow> unat ?p = 0"
      by (simp add: unat_ucast unat_max_word)
    also have "\<dots> \<longleftrightarrow> 100 * unat ?w < unat ?m"
      using m unfolding p by (simp add: div_eq_0_iff unat_eq_zero mult.commute)
    finally have sp: "unat ?sp = 0 \<longleftrightarrow> 100 * unat ?w < unat ?m" .
    have "agreement_score prices = sat_sub 50 (sat_mul ?sp 50 div 20)"
      using m assms(2) by (simp add: agreement_score_def Let_def)
    then have "unat (agreement_score prices) = 50 - min (unat ?sp * 50) (2 ^ 64 - 1) div 20"
      by (simp only: unat_simps) simp
    moreover have "50 - min (x * 50) (2 ^ 64 - 1) div 20 = (50 :: nat) \<longleftrightarrow> x = 0" for x :: nat
      by (cases x) (auto simp: min_def)
    ultimately show ?thesis using sp by simp
  qed
  with w show ?thesis by simp
qed

text \<open>
  The confidence of a set of prices is at most 100, and it is 100 exactly for at least five
  prices, more than the configured minimum, whose whole spread is below one percent of their median.
\<close>

theorem full_confidence_iff:
  assumes "\<forall>p \<in> set prices. unat p < 2 ^ 192" "length prices < 2 ^ 64"
  shows "unat (calculate_confidence (length prices) min_sources prices) \<le> 100
    \<and> (unat (calculate_confidence (length prices) min_sources prices) = 100 \<longleftrightarrow>
         5 \<le> length prices \<and> min_sources < length prices
         \<and> 100 * (Max (unat ` set prices) - Min (unat ` set prices)) < unat (the (calculate_median prices)))"
proof (cases "prices = []")
  case True
  then show ?thesis by (simp add: calculate_confidence_def)
next
  case False
  with confidence_value [OF assms(2), of prices min_sources] have
    "unat (calculate_confidence (length prices) min_sources prices) =
      10 * min (length prices) 5 + unat (agreement_score prices) - (if length prices \<le> min_sources then 10 else 0)"
    by simp
  moreover have "unat (agreement_score prices) = 50 \<longleftrightarrow>
      100 * (Max (unat ` set prices) - Min (unat ` set prices)) < unat (the (calculate_median prices))"
    if "5 \<le> length prices"
    by (rule agreement_50) (use assms that in auto)
  ultimately show ?thesis
    using agreement_le_50 [of prices] by (auto simp: min_def)
qed

theorem full_confidence_iff_witness:
  "(let close = [1000, 1001, 1002, 1003, 1004]; wide = [1000, 1001, 1002, 1003, 1020] in
      unat (calculate_confidence (length close) 1 close) = 100
      \<and> unat (calculate_confidence (length wide) 1 wide) \<noteq> 100)"
  using full_confidence_iff [of "[1000, 1001, 1002, 1003, 1004]" 1]
    full_confidence_iff [of "[1000, 1001, 1002, 1003, 1020]" 1]
  by (simp add: calculate_median_def Let_def word_le_nat_alt)

section \<open>The cache\<close>






end
