(* ===== verification/Gas.thy ===== *)
theory Gas
  imports Types Ttl_Cache Float64
begin

text \<open>
  The gas oracle (\<open>phantom-pricing/src/gas.rs\<close>): EIP-1559 fees with urgency multipliers,
  per-chain floors, fallbacks when the provider fails, the cost of a fill and the cache of the
  provider's answers.  The two provider answers and the two clock readings of a query are arguments.
\<close>

section \<open>Types\<close>

datatype gas_price_level = Low | Medium | High

record gas_price =
  gp_base_fee :: u128
  gp_priority_fee :: u128
  gp_max_fee_per_gas :: u128
  gp_level :: gas_price_level

record gas_estimate =
  ge_gas_price :: gas_price
  ge_gas_limit :: u64
  ge_total_cost_wei :: u256

definition GasEstimate_total_cost_gwei :: "gas_estimate \<Rightarrow> f64" where
  "GasEstimate_total_cost_gwei e =
     (let gwei = ge_total_cost_wei e div 1000000000 in
      f64_of_u64 (if unat gwei < 2 ^ 64 then ucast gwei else - 1))"

record gas_oracle_config =
  gc_cache_ttl_seconds :: u64
  gc_fee_history_blocks :: u64
  gc_low_priority_bps :: u64
  gc_medium_priority_bps :: u64
  gc_high_priority_bps :: u64
  gc_fallback_base_fee_gwei :: u64
  gc_fallback_priority_fee_gwei :: u64
  gc_default_fill_gas :: u64
  gc_complex_fill_gas :: u64

definition GasOracleConfig_default :: gas_oracle_config where
  "GasOracleConfig_default =
     \<lparr>gc_cache_ttl_seconds = 12, gc_fee_history_blocks = 5, gc_low_priority_bps = 10000,
      gc_medium_priority_bps = 12500, gc_high_priority_bps = 15000, gc_fallback_base_fee_gwei = 30,
      gc_fallback_priority_fee_gwei = 2, gc_default_fill_gas = 200000, gc_complex_fill_gas = 350000\<rparr>"

fun chain_base_fee_floor :: "chain_id \<Rightarrow> u128" where
  "chain_base_fee_floor Ethereum = 1000000000"
| "chain_base_fee_floor Arbitrum = 100000000"
| "chain_base_fee_floor Base = 1000000"
| "chain_base_fee_floor Optimism = 1000000"
| "chain_base_fee_floor Polygon = 30000000000"

record cached_gas_data =
  cg_base_fee :: u128
  cg_suggested_priority_fee :: u128
  cg_cached_at :: datetime

record gas_oracle =
  go_chain_id :: chain_id
  go_config :: gas_oracle_config
  go_cache :: "(chain_id, cached_gas_data) dashmap"

definition GasOracle_new :: "chain_id \<Rightarrow> gas_oracle_config \<Rightarrow> gas_oracle" where
  "GasOracle_new chain config = \<lparr>go_chain_id = chain, go_config = config, go_cache = dm_empty\<rparr>"

definition GasOracle_with_defaults :: "chain_id \<Rightarrow> gas_oracle" where
  "GasOracle_with_defaults chain = GasOracle_new chain GasOracleConfig_default"

definition GasOracle_invalidate_cache :: "gas_oracle \<Rightarrow> gas_oracle" where
  "GasOracle_invalidate_cache go = go\<lparr>go_cache := dm_empty\<rparr>"

section \<open>Pure helpers\<close>

definition apply_urgency :: "u128 \<Rightarrow> gas_price_level \<Rightarrow> gas_oracle_config \<Rightarrow> u128" where
  "apply_urgency suggested level config =
     (let bps = (case level of Low \<Rightarrow> gc_low_priority_bps config | Medium \<Rightarrow> gc_medium_priority_bps config
                 | High \<Rightarrow> gc_high_priority_bps config)
      in case checked_mul suggested (ucast bps) of Some v \<Rightarrow> v div 10000 | None \<Rightarrow> suggested)"

definition compute_max_fee :: "u128 \<Rightarrow> u128 \<Rightarrow> u128" where
  "compute_max_fee base_fee priority_fee =
     (case checked_mul base_fee 2 of
        Some doubled \<Rightarrow> (case checked_add doubled priority_fee of Some fee \<Rightarrow> fee | None \<Rightarrow> - 1)
      | None \<Rightarrow> - 1)"

section \<open>Fetching\<close>

text \<open>\<open>get_fee_history\<close> answers with a list of base fees, \<open>get_max_priority_fee_per_gas\<close> with a fee.\<close>

type_synonym fee_answers = "(string + u128 list) \<times> (string + u128) \<times> datetime"

definition GasOracle_fetch_base_fee :: "(string + u128 list) \<Rightarrow> gas_oracle \<Rightarrow> u128" where
  "GasOracle_fetch_base_fee history go =
     (case history of
        Inr fees \<Rightarrow>
          if fees = [] then ucast (gc_fallback_base_fee_gwei (go_config go)) * 1000000000
          else max (last fees) (chain_base_fee_floor (go_chain_id go))
      | Inl _ \<Rightarrow> ucast (gc_fallback_base_fee_gwei (go_config go)) * 1000000000)"

definition GasOracle_fetch_priority_fee :: "(string + u128) \<Rightarrow> gas_oracle \<Rightarrow> u128" where
  "GasOracle_fetch_priority_fee answer go =
     (case answer of Inr fee \<Rightarrow> fee
      | Inl _ \<Rightarrow> ucast (gc_fallback_priority_fee_gwei (go_config go)) * 1000000000)"

definition GasOracle_fetch_from_provider :: "fee_answers \<Rightarrow> gas_oracle \<Rightarrow> u128 \<times> u128" where
  "GasOracle_fetch_from_provider a go =
     (GasOracle_fetch_base_fee (fst a) go, GasOracle_fetch_priority_fee (fst (snd a)) go)"

definition GasOracle_fetch_fee_data ::
    "datetime \<Rightarrow> fee_answers \<Rightarrow> gas_oracle \<Rightarrow> gas_oracle \<times> (pricing_error + u128 \<times> u128)" where
  "GasOracle_fetch_fee_data now a go =
     (case (case dm_get (go_chain_id go) (go_cache go) of
              Some cached \<Rightarrow>
                if cache_age now (cg_cached_at cached) \<le> gc_cache_ttl_seconds (go_config go)
                then Some (cg_base_fee cached, cg_suggested_priority_fee cached) else None
            | None \<Rightarrow> None) of
        Some fees \<Rightarrow> (go, Inr fees)
      | None \<Rightarrow>
          let fees = GasOracle_fetch_from_provider a go in
          (go\<lparr>go_cache := dm_insert (go_chain_id go)
               \<lparr>cg_base_fee = fst fees, cg_suggested_priority_fee = snd fees, cg_cached_at = snd (snd a)\<rparr>
               (go_cache go)\<rparr>, Inr fees))"

definition GasOracle_get_gas_price ::
    "datetime \<Rightarrow> fee_answers \<Rightarrow> gas_price_level \<Rightarrow> gas_oracle \<Rightarrow> gas_oracle \<times> (pricing_error + gas_price)" where
  "GasOracle_get_gas_price now a level go =
     (case GasOracle_fetch_fee_data now a go of
        (go', Inl e) \<Rightarrow> (go', Inl e)
      | (go', Inr (base_fee, suggested_priority)) \<Rightarrow>
          let priority_fee = apply_urgency suggested_priority level (go_config go);
              max_fee_per_gas = compute_max_fee base_fee priority_fee
          in (go', Inr \<lparr>gp_base_fee = base_fee, gp_priority_fee = priority_fee,
                        gp_max_fee_per_gas = max_fee_per_gas, gp_level = level\<rparr>))"

definition GasOracle_estimate_fill_cost ::
    "datetime \<Rightarrow> fee_answers \<Rightarrow> u64 \<Rightarrow> gas_price_level \<Rightarrow> gas_oracle
       \<Rightarrow> gas_oracle \<times> (pricing_error + gas_estimate)" where
  "GasOracle_estimate_fill_cost now a gas_limit level go =
     (case GasOracle_get_gas_price now a level go of
        (go', Inl e) \<Rightarrow> (go', Inl e)
      | (go', Inr gas_price) \<Rightarrow>
          (go', Inr \<lparr>ge_gas_price = gas_price, ge_gas_limit = gas_limit,
                     ge_total_cost_wei = ucast gas_limit * ucast (gp_max_fee_per_gas gas_price)\<rparr>))"

definition GasOracle_estimate_simple_fill ::
    "datetime \<Rightarrow> fee_answers \<Rightarrow> gas_price_level \<Rightarrow> gas_oracle \<Rightarrow> gas_oracle \<times> (pricing_error + gas_estimate)" where
  "GasOracle_estimate_simple_fill now a level go =
     GasOracle_estimate_fill_cost now a (gc_default_fill_gas (go_config go)) level go"

definition GasOracle_estimate_complex_fill ::
    "datetime \<Rightarrow> fee_answers \<Rightarrow> gas_price_level \<Rightarrow> gas_oracle \<Rightarrow> gas_oracle \<times> (pricing_error + gas_estimate)" where
  "GasOracle_estimate_complex_fill now a level go =
     GasOracle_estimate_fill_cost now a (gc_complex_fill_gas (go_config go)) level go"

section \<open>Fees as numbers\<close>

lemma compute_max_fee_value:
  "unat (compute_max_fee b p) = min (2 * unat b + unat p) (2 ^ 128 - 1)"
proof (cases "checked_mul b 2")
  case None
  then have "2 ^ 128 \<le> unat b * 2" by (simp add: checked_mul_def split: if_splits)
  with None show ?thesis by (simp add: compute_max_fee_def unat_max_word)
next
  case (Some d)
  then have d: "unat d = unat b * 2" by (simp add: checked_mul_Some)
  show ?thesis
  proof (cases "checked_add d p")
    case None
    then have "2 ^ 128 \<le> unat d + unat p" by (simp add: checked_add_def split: if_splits)
    with Some None d show ?thesis by (simp add: compute_max_fee_def unat_max_word)
  next
    case (Some f)
    then have "unat f = unat d + unat p" "unat d + unat p < 2 ^ 128" by (simp_all add: checked_add_Some)
    with Some \<open>checked_mul b 2 = Some d\<close> d show ?thesis by (simp add: compute_max_fee_def)
  qed
qed

fun level_bps :: "gas_price_level \<Rightarrow> gas_oracle_config \<Rightarrow> nat" where
  "level_bps Low c = unat (gc_low_priority_bps c)"
| "level_bps Medium c = unat (gc_medium_priority_bps c)"
| "level_bps High c = unat (gc_high_priority_bps c)"

lemma apply_urgency_value:
  "unat (apply_urgency s level c) =
     (if unat s * level_bps level c < 2 ^ 128 then unat s * level_bps level c div 10000 else unat s)"
  by (cases level) (auto simp: apply_urgency_def checked_mul_def unat_simps unat_mult_lt)

lemma fetch_fee_data_total: "\<exists>go' base tip. GasOracle_fetch_fee_data now a go = (go', Inr (base, tip))"
proof -
  obtain go' r where q: "GasOracle_fetch_fee_data now a go = (go', r)"
    by (cases "GasOracle_fetch_fee_data now a go")
  then have "\<exists>base tip. r = Inr (base, tip)"
    by (auto simp: GasOracle_fetch_fee_data_def GasOracle_fetch_from_provider_def Let_def split: option.splits)
  with q show ?thesis by blast
qed

lemma fill_cost_values:
  "\<exists>go' base tip e. GasOracle_fetch_fee_data now a go = (go', Inr (base, tip))
     \<and> GasOracle_estimate_fill_cost now a gas_limit level go = (go', Inr e)
     \<and> unat (ge_total_cost_wei e) = unat gas_limit * unat (gp_max_fee_per_gas (ge_gas_price e))
     \<and> gp_max_fee_per_gas (ge_gas_price e) = compute_max_fee base (apply_urgency tip level (go_config go))
     \<and> gp_priority_fee (ge_gas_price e) = apply_urgency tip level (go_config go)
     \<and> gp_base_fee (ge_gas_price e) = base \<and> ge_gas_limit e = gas_limit"
proof -
  obtain go' base tip where f: "GasOracle_fetch_fee_data now a go = (go', Inr (base, tip))"
    using fetch_fee_data_total by blast
  let ?fee = "compute_max_fee base (apply_urgency tip level (go_config go))"
  have "unat (ucast gas_limit * ucast ?fee :: u256) = unat gas_limit * unat ?fee"
  proof -
    have "unat gas_limit * unat ?fee < 2 ^ 64 * 2 ^ 128"
      using unat_lt2p [of gas_limit] unat_lt2p [of ?fee] by (intro mult_strict_mono) simp_all
    then show ?thesis by (subst unat_mult_lt) (simp_all add: unat_ucast_up)
  qed
  with f show ?thesis
    by (simp add: GasOracle_estimate_fill_cost_def GasOracle_get_gas_price_def Let_def)
qed

text \<open>
  The estimate of a fill is exact: no product overflows.  The total is the gas limit
  times the maximum fee per gas, which is twice the base fee plus the tip (cut off at the
  largest \<open>u128\<close>), and the tip is the suggested tip scaled by the basis points of the urgency
  level, rounded down, whenever that product fits in 128 bits.
\<close>

theorem fill_cost_exact:
  "case GasOracle_estimate_fill_cost now a gas_limit level go of
     (go', Inr e) \<Rightarrow>
        (\<exists>base tip. GasOracle_fetch_fee_data now a go = (go', Inr (base, tip))
          \<and> unat (ge_total_cost_wei e) = unat gas_limit * unat (gp_max_fee_per_gas (ge_gas_price e))
          \<and> unat (gp_max_fee_per_gas (ge_gas_price e))
              = min (2 * unat base + unat (gp_priority_fee (ge_gas_price e))) (2 ^ 128 - 1)
          \<and> unat (gp_priority_fee (ge_gas_price e))
              = (if unat tip * level_bps level (go_config go) < 2 ^ 128
                 then unat tip * level_bps level (go_config go) div 10000 else unat tip)
          \<and> gp_base_fee (ge_gas_price e) = base \<and> ge_gas_limit e = gas_limit)
   | (go', Inl e) \<Rightarrow> False"
proof -
  obtain go' base tip e where "GasOracle_fetch_fee_data now a go = (go', Inr (base, tip))"
      "GasOracle_estimate_fill_cost now a gas_limit level go = (go', Inr e)"
      "unat (ge_total_cost_wei e) = unat gas_limit * unat (gp_max_fee_per_gas (ge_gas_price e))"
      "gp_max_fee_per_gas (ge_gas_price e) = compute_max_fee base (apply_urgency tip level (go_config go))"
      "gp_priority_fee (ge_gas_price e) = apply_urgency tip level (go_config go)"
      "gp_base_fee (ge_gas_price e) = base" "ge_gas_limit e = gas_limit"
    using fill_cost_values [of now a go gas_limit level] by blast
  then show ?thesis
    by (simp add: compute_max_fee_value apply_urgency_value)
qed

text \<open>
  More urgency never costs less: with basis points that grow from \<open>Low\<close> to \<open>High\<close>
  (at most 2^32) and a suggested tip below 2^96 wei, both the tip and the maximum fee
  grow with the level, and a tip at the default \<open>Low\<close> multiplier is the suggested tip itself.
\<close>

theorem urgency_monotone:
  assumes "gc_low_priority_bps c \<le> gc_medium_priority_bps c" "gc_medium_priority_bps c \<le> gc_high_priority_bps c"
    and "unat (gc_high_priority_bps c) \<le> 2 ^ 32" "unat tip < 2 ^ 96"
  shows "apply_urgency tip Low c \<le> apply_urgency tip Medium c
    \<and> apply_urgency tip Medium c \<le> apply_urgency tip High c
    \<and> compute_max_fee base (apply_urgency tip Low c) \<le> compute_max_fee base (apply_urgency tip Medium c)
    \<and> compute_max_fee base (apply_urgency tip Medium c) \<le> compute_max_fee base (apply_urgency tip High c)
    \<and> (unat (gc_low_priority_bps c) = 10000 \<longrightarrow> apply_urgency tip Low c = tip)"
proof -
  have le: "level_bps Low c \<le> level_bps Medium c" "level_bps Medium c \<le> level_bps High c"
    using assms(1,2) by (simp_all add: word_le_nat_alt)
  have small: "unat tip * level_bps l c < 2 ^ 128" for l
  proof -
    have "level_bps l c \<le> 2 ^ 32" using le assms(3) by (cases l) simp_all
    then have "unat tip * level_bps l c \<le> unat tip * 2 ^ 32" by (rule mult_le_mono2)
    also have "\<dots> < 2 ^ 96 * 2 ^ 32" using assms(4) by (rule mult_strict_right_mono) simp
    finally show ?thesis by simp
  qed
  have tips: "unat (apply_urgency tip l c) = unat tip * level_bps l c div 10000" for l
    using small [of l] by (simp add: apply_urgency_value)
  then have "apply_urgency tip Low c \<le> apply_urgency tip Medium c"
    "apply_urgency tip Medium c \<le> apply_urgency tip High c"
    using le unfolding word_le_nat_alt tips by (auto intro!: div_le_mono mult_le_mono2)
  moreover have "unat (gc_low_priority_bps c) = 10000 \<Longrightarrow> apply_urgency tip Low c = tip"
    using tips [of Low] by (simp add: word_unat_eq_iff)
  moreover have "compute_max_fee base p \<le> compute_max_fee base p'" if "p \<le> p'" for p p'
    using that by (simp add: word_le_nat_alt compute_max_fee_value min_def)
  ultimately show ?thesis by blast
qed

theorem urgency_monotone_witness:
  "apply_urgency 2000000000 Low GasOracleConfig_default \<le> apply_urgency 2000000000 Medium GasOracleConfig_default
   \<and> apply_urgency 2000000000 High GasOracleConfig_default = 3000000000"
proof -
  have "apply_urgency 2000000000 Low GasOracleConfig_default \<le> apply_urgency 2000000000 Medium GasOracleConfig_default"
    by (rule urgency_monotone [THEN conjunct1])
       (simp_all add: GasOracleConfig_default_def word_le_nat_alt)
  then show ?thesis
    by (simp add: apply_urgency_def checked_mul_def GasOracleConfig_default_def)
qed

text \<open>
  The hypothesis on the tip is needed: where only the larger product overflows, the fallback to
  the unscaled tip makes \<open>High\<close> cheaper than \<open>Medium\<close>.
\<close>

lemma urgency_overflow:
  "apply_urgency (2 ^ 114 + 2 ^ 112) High GasOracleConfig_default
     < apply_urgency (2 ^ 114 + 2 ^ 112) Medium GasOracleConfig_default"
  by (simp add: apply_urgency_def checked_mul_def GasOracleConfig_default_def word_less_nat_alt)

section \<open>Floors and fallbacks\<close>

text \<open>
  A base fee from a successful, non-empty fee history is the newest one raised to the floor
  of the chain; without one it is the configured fallback in wei.  With the default fallback the
  base fee is never below the floor of any chain, so a gas price never bids less than the floor.
\<close>

theorem base_fee_floor:
  "(let fee = GasOracle_fetch_base_fee history go in
      unat fee = (case history of
          Inr (f # fs) \<Rightarrow> max (unat (last (f # fs))) (unat (chain_base_fee_floor (go_chain_id go)))
        | _ \<Rightarrow> unat (gc_fallback_base_fee_gwei (go_config go)) * 1000000000))
   \<and> chain_base_fee_floor chain \<le> GasOracle_fetch_base_fee history (GasOracle_with_defaults chain)"
proof -
  have "unat (ucast g * 1000000000 :: u128) = unat g * 1000000000" for g :: u64
  proof -
    have "unat g * 1000000000 < 2 ^ 64 * 2 ^ 32"
      using unat_lt2p [of g] by (intro mult_strict_mono) simp_all
    then show ?thesis by (subst unat_mult_lt) (simp_all add: unat_ucast_up)
  qed
  then have 1: "unat (GasOracle_fetch_base_fee history go) = (case history of
          Inr (f # fs) \<Rightarrow> max (unat (last (f # fs))) (unat (chain_base_fee_floor (go_chain_id go)))
        | _ \<Rightarrow> unat (gc_fallback_base_fee_gwei (go_config go)) * 1000000000)"
    by (auto simp: GasOracle_fetch_base_fee_def max_def word_le_nat_alt split: sum.split list.split)
  have "chain_base_fee_floor chain \<le> (30000000000 :: u128)"
    by (cases chain) (simp_all add: word_le_nat_alt)
  then have 2: "chain_base_fee_floor chain \<le> GasOracle_fetch_base_fee history (GasOracle_with_defaults chain)"
    by (auto simp: GasOracle_fetch_base_fee_def GasOracle_with_defaults_def GasOracle_new_def
        GasOracleConfig_default_def split: sum.split)
  show ?thesis using 1 2 by (simp add: Let_def)
qed

text \<open>A smaller configured fallback is not raised to the floor.\<close>

lemma fallback_ignores_floor:
  "GasOracle_fetch_base_fee (Inl ''timeout'')
     (GasOracle_new Polygon (GasOracleConfig_default\<lparr>gc_fallback_base_fee_gwei := 1\<rparr>))
   < chain_base_fee_floor Polygon"
  by (simp add: GasOracle_fetch_base_fee_def GasOracle_new_def word_less_nat_alt)

text \<open>
  The cost in Gwei is exact, as a floating-point number, for every total below 2^53 Gwei
  (nine million ether).
\<close>

theorem total_cost_gwei_exact:
  assumes "unat (ge_total_cost_wei e) < 2 ^ 53 * 1000000000"
  shows "GasEstimate_total_cost_gwei e = Finite (of_nat (unat (ge_total_cost_wei e) div 1000000000))"
proof -
  let ?g = "ge_total_cost_wei e div 1000000000"
  have g: "unat ?g = unat (ge_total_cost_wei e) div 1000000000" by (simp add: unat_simps)
  also have "\<dots> < 2 ^ 53" using assms by (simp add: div_less_iff_less_mult)
  finally have small: "unat ?g < 2 ^ 53" .
  then have "unat (ucast ?g :: u64) = unat ?g" by (simp add: unat_ucast)
  with small have "f64_of_u64 (ucast ?g) = Finite (of_nat (unat ?g))"
    using f64_of_u64_exact [of "ucast ?g"] by simp
  with small g show ?thesis by (simp add: GasEstimate_total_cost_gwei_def Let_def)
qed

theorem total_cost_gwei_exact_witness:
  "GasEstimate_total_cost_gwei
     \<lparr>ge_gas_price = \<lparr>gp_base_fee = 30000000000, gp_priority_fee = 2000000000,
        gp_max_fee_per_gas = 62000000000, gp_level = Low\<rparr>,
      ge_gas_limit = 200000, ge_total_cost_wei = 12400000000000000\<rparr> = Finite 12400000"
  by (subst total_cost_gwei_exact) simp_all

section \<open>The cache\<close>

definition gas_entry :: "gas_oracle \<Rightarrow> unit \<Rightarrow> ((u128 \<times> u128) \<times> datetime) option" where
  "gas_entry go _ = map_option (\<lambda>c. ((cg_base_fee c, cg_suggested_priority_fee c), cg_cached_at c))
     (dm_get (go_chain_id go) (go_cache go))"

definition good_fees :: "pricing_error + u128 \<times> u128 \<Rightarrow> (u128 \<times> u128) option" where
  "good_fees r = (case r of Inr fees \<Rightarrow> Some fees | Inl _ \<Rightarrow> None)"

interpretation gas_cache: ttl_cache gas_entry "\<lambda>go. gc_cache_ttl_seconds (go_config go)"
    "\<lambda>now _ a go. GasOracle_fetch_fee_data now a go"
    "\<lambda>go _ a. Inr (GasOracle_fetch_from_provider a go)" good_fees Inr "\<lambda>a. snd (snd a)"
proof unfold_locales
  fix s k v t now a k' and r :: "pricing_error + u128 \<times> u128"
  show "gas_entry s k = Some (v, t) \<Longrightarrow> cache_age now t \<le> gc_cache_ttl_seconds (go_config s) \<Longrightarrow>
      GasOracle_fetch_fee_data now a s = (s, Inr v)"
    by (auto simp: gas_entry_def GasOracle_fetch_fee_data_def)
  show "gc_cache_ttl_seconds (go_config (fst (GasOracle_fetch_fee_data now a s)))
      = gc_cache_ttl_seconds (go_config s)"
    by (simp add: GasOracle_fetch_fee_data_def Let_def split: option.split)
  show "good_fees r = Some v \<longleftrightarrow> r = Inr v"
    by (simp add: good_fees_def split: sum.split)
  assume stale: "\<And>v t. gas_entry s k = Some (v, t) \<Longrightarrow> \<not> cache_age now t \<le> gc_cache_ttl_seconds (go_config s)"
  have miss: "GasOracle_fetch_fee_data now a s =
      (let fees = GasOracle_fetch_from_provider a s in
          (s\<lparr>go_cache := dm_insert (go_chain_id s)
               \<lparr>cg_base_fee = fst fees, cg_suggested_priority_fee = snd fees, cg_cached_at = snd (snd a)\<rparr>
               (go_cache s)\<rparr>, Inr fees))"
  proof (cases "dm_get (go_chain_id s) (go_cache s)")
    case (Some c)
    with stale [of "(cg_base_fee c, cg_suggested_priority_fee c)" "cg_cached_at c"] show ?thesis
      by (simp add: gas_entry_def GasOracle_fetch_fee_data_def)
  qed (simp add: GasOracle_fetch_fee_data_def)
  show "snd (GasOracle_fetch_fee_data now a s) = Inr (GasOracle_fetch_from_provider a s)"
    unfolding miss by (simp add: Let_def)
  show "gas_entry (fst (GasOracle_fetch_fee_data now a s)) k' =
      (case good_fees (Inr (GasOracle_fetch_from_provider a s)) of None \<Rightarrow> gas_entry s k'
       | Some v \<Rightarrow> if k' = k then Some (v, snd (snd a)) else gas_entry s k')"
    unfolding miss by (simp add: good_fees_def gas_entry_def Let_def)
qed

text \<open>
  \<open>fetch_fee_data\<close> never fails: it answers from a cached entry of at most the configured age
  or from the provider with its fallbacks, and what it fetched answers every query, without the
  provider, until it is older than the time to live.
\<close>

theorem fee_data_cached:
  "(case GasOracle_fetch_fee_data now (h, p, stored) go of
      (go', Inl _) \<Rightarrow> False
    | (go', Inr fees) \<Rightarrow>
        (case gas_cache.fresh now () go of
           Some cached \<Rightarrow> fees = cached \<and> go' = go
         | None \<Rightarrow> fees = GasOracle_fetch_from_provider (h, p, stored) go
             \<and> (\<forall>later a. \<not> cache_age later stored \<le> gc_cache_ttl_seconds (go_config go)
                  \<or> GasOracle_fetch_fee_data later a go' = (go', Inr fees))))"
proof (cases "gas_cache.fresh now () go")
  case (Some cached)
  then show ?thesis using gas_cache.query_fresh by simp
next
  case None
  let ?q = "GasOracle_fetch_fee_data now (h, p, stored) go" and ?fees = "GasOracle_fetch_from_provider (h, p, stored) go"
  have r: "snd ?q = Inr ?fees" using gas_cache.query_stale [OF None] by blast
  have "GasOracle_fetch_fee_data later a (fst ?q) = (fst ?q, Inr ?fees)"
    if "cache_age later stored \<le> gc_cache_ttl_seconds (go_config go)" for later a
    using gas_cache.served_again [OF None r] that by simp
  with None r show ?thesis by (cases ?q) auto
qed

end
