(* ===== verification/Strategy.thy ===== *)
theory Strategy
  imports Types
begin

text \<open>
  The strategy interface (\<open>phantom-common/src/traits.rs\<close>: \<open>EvaluationContext\<close>, \<open>FillDecision\<close>,
  \<open>FillStrategy\<close>) and its registry (\<open>phantom-strategy/src/registry.rs\<close>).  A strategy object is
  the record of its three methods; an evaluation that does not return within the pipeline's
  timeout is \<open>None\<close>.
\<close>

section \<open>Contexts, decisions, strategies\<close>

record evaluation_context =
  ec_chain_id :: chain_id
  ec_block_number :: u64
  ec_block_timestamp :: u64
  ec_base_fee :: u128
  ec_priority_fee :: u128

record fill_decision =
  fd_order_id :: order_id
  fd_strategy_name :: string
  fd_estimated_profit :: u256
  fd_estimated_gas_cost :: u256
  fd_confidence :: u8

record fill_strategy =
  fs_name :: string
  fs_priority :: u32
  fs_evaluate :: "dutch_order \<Rightarrow> evaluation_context \<Rightarrow> (strategy_error + fill_decision option) option"

text \<open>The decision a strategy recommends, if it does.\<close>

definition recommends :: "fill_strategy \<Rightarrow> dutch_order \<Rightarrow> evaluation_context \<Rightarrow> fill_decision option" where
  "recommends s order ctx = (case fs_evaluate s order ctx of Some (Inr d) \<Rightarrow> d | _ \<Rightarrow> None)"

text \<open>
  What every implementation of the trait promises: its decisions are about the order it was given,
  carry its own name and a confidence score up to 100.
\<close>

locale fill_strategies =
  fixes impl :: "fill_strategy \<Rightarrow> bool"
  assumes decision_order: "impl s \<Longrightarrow> recommends s order ctx = Some d \<Longrightarrow> fd_order_id d = do_id order"
    and decision_name: "impl s \<Longrightarrow> recommends s order ctx = Some d \<Longrightarrow> fd_strategy_name d = fs_name s"
    and decision_confidence: "impl s \<Longrightarrow> recommends s order ctx = Some d \<Longrightarrow> unat (fd_confidence d) \<le> 100"
begin

lemma attribution:
  "(\<And>s. s \<in> set ss \<Longrightarrow> impl s) \<Longrightarrow> d \<in> set (List.map_filter (\<lambda>s. recommends s order ctx) ss) \<Longrightarrow>
     fd_order_id d = do_id order \<and> unat (fd_confidence d) \<le> 100 \<and> fd_strategy_name d \<in> fs_name ` set ss"
proof -
  assume impl: "\<And>s. s \<in> set ss \<Longrightarrow> impl s"
    and "d \<in> set (List.map_filter (\<lambda>s. recommends s order ctx) ss)"
  then obtain s where s: "s \<in> set ss" "recommends s order ctx = Some d"
    by (auto simp: List.map_filter_def)
  then show ?thesis
    using decision_order decision_name decision_confidence impl [OF s(1)] by auto
qed

end

section \<open>The registry\<close>

record registry_entry =
  re_strategy :: fill_strategy
  re_enabled :: bool

type_synonym strategy_registry = "(string, registry_entry) dashmap"

definition StrategyRegistry_new :: strategy_registry where
  "StrategyRegistry_new = dm_empty"

definition StrategyRegistry_register :: "fill_strategy \<Rightarrow> strategy_registry \<Rightarrow> strategy_registry" where
  "StrategyRegistry_register s sr = dm_insert (fs_name s) \<lparr>re_strategy = s, re_enabled = True\<rparr> sr"

definition StrategyRegistry_unregister :: "string \<Rightarrow> strategy_registry \<Rightarrow> strategy_registry \<times> bool" where
  "StrategyRegistry_unregister name sr = (dm_remove name sr, dm_contains name sr)"

definition StrategyRegistry_get :: "string \<Rightarrow> strategy_registry \<Rightarrow> fill_strategy option" where
  "StrategyRegistry_get name sr =
     (case dm_get name sr of Some e \<Rightarrow> if re_enabled e then Some (re_strategy e) else None | None \<Rightarrow> None)"

definition StrategyRegistry_active_strategies :: "strategy_registry \<Rightarrow> fill_strategy list" where
  "StrategyRegistry_active_strategies sr =
     sort_key fs_priority (map (\<lambda>(_, e). re_strategy e) (filter (\<lambda>(_, e). re_enabled e) (dm_iter sr)))"

definition StrategyRegistry_list :: "strategy_registry \<Rightarrow> (string \<times> bool \<times> u32) list" where
  "StrategyRegistry_list sr =
     sort_key (\<lambda>(_, _, priority). priority)
       (map (\<lambda>(name, e). (name, re_enabled e, fs_priority (re_strategy e))) (dm_iter sr))"

definition StrategyRegistry_set_enabled :: "bool \<Rightarrow> string \<Rightarrow> strategy_registry \<Rightarrow> strategy_registry \<times> bool" where
  "StrategyRegistry_set_enabled enabled name sr =
     (case dm_get name sr of
        Some e \<Rightarrow> (dm_insert name (e\<lparr>re_enabled := enabled\<rparr>) sr, True)
      | None \<Rightarrow> (sr, False))"

definition StrategyRegistry_enable :: "string \<Rightarrow> strategy_registry \<Rightarrow> strategy_registry \<times> bool" where
  "StrategyRegistry_enable name sr = StrategyRegistry_set_enabled True name sr"

definition StrategyRegistry_disable :: "string \<Rightarrow> strategy_registry \<Rightarrow> strategy_registry \<times> bool" where
  "StrategyRegistry_disable name sr = StrategyRegistry_set_enabled False name sr"

definition StrategyRegistry_len :: "strategy_registry \<Rightarrow> nat" where
  "StrategyRegistry_len sr = dm_len sr"

definition StrategyRegistry_is_empty :: "strategy_registry \<Rightarrow> bool" where
  "StrategyRegistry_is_empty sr \<longleftrightarrow> dm_len sr = 0"

definition StrategyRegistry_active_count :: "strategy_registry \<Rightarrow> nat" where
  "StrategyRegistry_active_count sr = length (filter (\<lambda>(_, e). re_enabled e) (dm_iter sr))"

text \<open>Well-formed: every strategy is stored under its own name.\<close>

definition registry_wf :: "strategy_registry \<Rightarrow> bool" where
  "registry_wf sr \<longleftrightarrow> dm_wf sr \<and> (\<forall>name e. dm_get name sr = Some e \<longrightarrow> fs_name (re_strategy e) = name)"

lemma registry_wf_ops [wf_intros]:
  "registry_wf StrategyRegistry_new"
  "registry_wf sr \<Longrightarrow> registry_wf (StrategyRegistry_register s sr)"
  "registry_wf sr \<Longrightarrow> registry_wf (fst (StrategyRegistry_unregister name sr))"
  "registry_wf sr \<Longrightarrow> registry_wf (fst (StrategyRegistry_enable name sr))"
  "registry_wf sr \<Longrightarrow> registry_wf (fst (StrategyRegistry_disable name sr))"
  by (auto simp: registry_wf_def StrategyRegistry_new_def StrategyRegistry_register_def
      StrategyRegistry_unregister_def StrategyRegistry_enable_def StrategyRegistry_disable_def
      StrategyRegistry_set_enabled_def intro: wf_intros split: option.split if_splits)

lemma set_active:
  "registry_wf sr \<Longrightarrow> s \<in> set (StrategyRegistry_active_strategies sr) \<longleftrightarrow>
     StrategyRegistry_get (fs_name s) sr = Some s"
proof -
  assume sr: "registry_wf sr"
  then have iter: "(n, e) \<in> set (dm_iter sr) \<longleftrightarrow> dm_get n sr = Some e" for n e
    by (simp add: registry_wf_def dm.iter_get)
  have "s \<in> set (StrategyRegistry_active_strategies sr) \<longleftrightarrow>
      (\<exists>n e. dm_get n sr = Some e \<and> re_enabled e \<and> re_strategy e = s)"
    unfolding iter [symmetric] by (force simp: StrategyRegistry_active_strategies_def)
  then show ?thesis
    using sr by (auto simp: registry_wf_def StrategyRegistry_get_def split: option.splits if_splits)
qed

text \<open>
  The registry always offers exactly its enabled strategies, by ascending priority and each
  once: registering a strategy makes it active, replacing one of the same name, disabling or
  unregistering takes it out, and enabling a registered one brings it back, without touching
  any other strategy.
\<close>

theorem registry_contract:
  assumes "registry_wf sr"
  shows "sorted (map fs_priority (StrategyRegistry_active_strategies sr))
    \<and> distinct (map fs_name (StrategyRegistry_active_strategies sr))
    \<and> length (StrategyRegistry_active_strategies sr) = StrategyRegistry_active_count sr
    \<and> (\<forall>s. s \<in> set (StrategyRegistry_active_strategies sr) \<longleftrightarrow> StrategyRegistry_get (fs_name s) sr = Some s)
    \<and> (\<forall>n. StrategyRegistry_get n (StrategyRegistry_register s sr) =
          (if n = fs_name s then Some s else StrategyRegistry_get n sr))
    \<and> (\<forall>n. StrategyRegistry_get n (fst (StrategyRegistry_unregister name sr)) =
          (if n = name then None else StrategyRegistry_get n sr))
    \<and> (\<forall>n. StrategyRegistry_get n (fst (StrategyRegistry_disable name sr)) =
          (if n = name then None else StrategyRegistry_get n sr))
    \<and> (\<forall>n. StrategyRegistry_get n (fst (StrategyRegistry_enable name sr)) =
          (if n = name then map_option re_strategy (dm_get name sr) else StrategyRegistry_get n sr))"
proof -
  let ?es = "filter (\<lambda>(_, e). re_enabled e) (dm_iter sr)"
  have "fs_name (re_strategy e) = n" if "(n, e) \<in> set ?es" for n e
    using assms that by (auto simp: registry_wf_def dm.iter_get)
  then have names: "map fs_name (map (\<lambda>(_, e). re_strategy e) ?es) = map fst ?es"
    by (auto simp: comp_def case_prod_unfold)
  have "distinct (map fst ?es)"
    using assms dm.distinct_iter [of sr] by (simp add: registry_wf_def distinct_map_filter)
  then have "distinct (map fs_name (map (\<lambda>(_, e). re_strategy e) ?es))" by (simp only: names)
  moreover have "mset (map fs_name (StrategyRegistry_active_strategies sr))
      = mset (map fs_name (map (\<lambda>(_, e). re_strategy e) ?es))"
    unfolding StrategyRegistry_active_strategies_def by (simp only: mset_map mset_sort)
  ultimately have "distinct (map fs_name (StrategyRegistry_active_strategies sr))"
    by (metis mset_eq_imp_distinct_iff)
  moreover have "sorted (map fs_priority (StrategyRegistry_active_strategies sr))"
    by (simp add: StrategyRegistry_active_strategies_def)
  moreover have "length (StrategyRegistry_active_strategies sr) = StrategyRegistry_active_count sr"
    by (simp add: StrategyRegistry_active_strategies_def StrategyRegistry_active_count_def)
  ultimately show ?thesis
    using set_active [OF assms]
    by (auto simp: StrategyRegistry_get_def StrategyRegistry_register_def StrategyRegistry_unregister_def
        StrategyRegistry_enable_def StrategyRegistry_disable_def StrategyRegistry_set_enabled_def
        split: option.split)
qed

definition sample_strategy :: "string \<Rightarrow> u32 \<Rightarrow> u256 \<Rightarrow> u8 \<Rightarrow> fill_strategy" where
  "sample_strategy name priority profit confidence =
     \<lparr>fs_name = name, fs_priority = priority,
      fs_evaluate = (\<lambda>order _. Some (Inr (Some \<lparr>fd_order_id = do_id order, fd_strategy_name = name,
        fd_estimated_profit = profit, fd_estimated_gas_cost = 1, fd_confidence = confidence\<rparr>)))\<rparr>"

definition sample_strategies :: strategy_registry where
  "sample_strategies = StrategyRegistry_register (sample_strategy ''b'' 20 300 60)
     (StrategyRegistry_register (sample_strategy ''a'' 10 200 95) StrategyRegistry_new)"

lemma sample_strategies_wf: "registry_wf sample_strategies"
  unfolding sample_strategies_def by (intro registry_wf_ops)

theorem registry_contract_witness:
  "map fs_name (StrategyRegistry_active_strategies sample_strategies) = [''a'', ''b'']
   \<and> StrategyRegistry_get ''a'' (fst (StrategyRegistry_disable ''a'' sample_strategies)) = None"
proof -
  have "StrategyRegistry_get ''a'' (fst (StrategyRegistry_disable ''a'' sample_strategies)) = None"
    using registry_contract [OF sample_strategies_wf, of "sample_strategy ''b'' 1 1 1" "''a''"] by simp
  then show ?thesis
    by (simp add: StrategyRegistry_active_strategies_def sample_strategies_def sample_strategy_def
        StrategyRegistry_register_def StrategyRegistry_new_def dm_insert_def dm_iter_def word_le_nat_alt)
qed

end
