(* ===== verification/Arb.thy ===== *)
theory Arb
  imports Strategy
begin

text \<open>
  The simple arbitrage strategy, \<open>phantom-strategy/src/arb.rs\<close>.  The market quoter is an argument:
  its answer to a quote is an error or a cost, and \<open>None\<close> where it does not answer in time.
\<close>

section \<open>Configuration and evaluation\<close>

type_synonym market_quoter = "address \<Rightarrow> address \<Rightarrow> u256 \<Rightarrow> chain_id \<Rightarrow> (strategy_error + u256) option"

record simple_arb_config =
  sa_min_profit_wei :: u256
  sa_min_profit_bps :: u64
  sa_max_gas_cost_wei :: u256
  sa_default_gas_limit :: u64
  sa_priority :: u32

definition SimpleArbConfig_default :: simple_arb_config where
  "SimpleArbConfig_default =
     \<lparr>sa_min_profit_wei = 1000000000000000, sa_min_profit_bps = 10,
      sa_max_gas_cost_wei = 50000000000000000, sa_default_gas_limit = 200000, sa_priority = 10\<rparr>"

definition compute_confidence :: "u256 \<Rightarrow> u256 \<Rightarrow> u8" where
  "compute_confidence net_profit gas_cost =
     (if gas_cost = 0 then 95
      else let ratio = net_profit div gas_cost in
        if 20 \<le> ratio then 95
        else if 10 \<le> ratio then 90
        else if 5 \<le> ratio then 75
        else if 2 \<le> ratio then 60
        else if 1 \<le> ratio then 50
        else 40)"

text \<open>
  \<open>evaluate\<close> up to the quote, and from the quote on (\<open>arb_judge\<close>).
\<close>

definition arb_gas_cost :: "simple_arb_config \<Rightarrow> evaluation_context \<Rightarrow> u256" where
  "arb_gas_cost config ctx =
     ucast (sat_add (ec_base_fee ctx) (ec_priority_fee ctx)) * ucast (sa_default_gas_limit config)"

definition arb_judge ::
    "simple_arb_config \<Rightarrow> dutch_order \<Rightarrow> evaluation_context \<Rightarrow> u256 \<Rightarrow> fill_decision option" where
  "arb_judge config order ctx market_cost =
     (let input = oi_amount (do_input order) in
      if input \<le> market_cost then None
      else
        let gross_profit = input - market_cost;
            gas_cost_wei = arb_gas_cost config ctx in
        if sa_max_gas_cost_wei config < gas_cost_wei then None
        else
          let net_profit = sat_sub gross_profit gas_cost_wei in
          if net_profit < sa_min_profit_wei config then None
          else if input \<noteq> 0 \<and> net_profit * 10000 div input < ucast (sa_min_profit_bps config) then None
          else Some \<lparr>fd_order_id = do_id order, fd_strategy_name = ''simple_arb'',
                     fd_estimated_profit = net_profit, fd_estimated_gas_cost = gas_cost_wei,
                     fd_confidence = compute_confidence net_profit gas_cost_wei\<rparr>)"

definition SimpleArb_evaluate :: "market_quoter \<Rightarrow> datetime \<Rightarrow> simple_arb_config \<Rightarrow> dutch_order \<Rightarrow>
    evaluation_context \<Rightarrow> (strategy_error + fill_decision option) option" where
  "SimpleArb_evaluate quoter now config order ctx =
     (if DutchAuctionOrder_is_expired order now then Some (Inr None)
      else if do_outputs order = [] then Some (Inr None)
      else case current_output_amount order 0 now of
        None \<Rightarrow> Some (Inl (SimulationFailed (lit ''failed to compute current output amount'')))
      | Some required_output \<Rightarrow>
          (case quoter (oi_token (do_input order)) (oo_token (do_outputs order ! 0)) required_output
              (do_chain_id order) of
             None \<Rightarrow> None
           | Some (Inl e) \<Rightarrow> Some (Inl e)
           | Some (Inr market_cost) \<Rightarrow> Some (Inr (arb_judge config order ctx market_cost))))"

text \<open>The strategy object that is registered, as it acts at the time \<open>now\<close>.\<close>

definition SimpleArb_strategy :: "market_quoter \<Rightarrow> datetime \<Rightarrow> simple_arb_config \<Rightarrow> fill_strategy" where
  "SimpleArb_strategy quoter now config =
     \<lparr>fs_name = ''simple_arb'', fs_priority = sa_priority config,
      fs_evaluate = SimpleArb_evaluate quoter now config\<rparr>"

section \<open>Gas and confidence\<close>

lemma arb_gas_cost_value:
  "unat (arb_gas_cost config ctx) =
     min (unat (ec_base_fee ctx) + unat (ec_priority_fee ctx)) (2 ^ 128 - 1)
       * unat (sa_default_gas_limit config)"
proof -
  let ?p = "sat_add (ec_base_fee ctx) (ec_priority_fee ctx)" and ?l = "sa_default_gas_limit config"
  have "unat ?p * unat ?l < 2 ^ 128 * 2 ^ 64"
    using unat_lt2p [of ?p] unat_lt2p [of ?l] by (intro mult_strict_mono) simp_all
  then have "unat (arb_gas_cost config ctx) = unat ?p * unat ?l"
    unfolding arb_gas_cost_def by (subst unat_mult_lt) (simp_all add: unat_ucast_up)
  then show ?thesis by (simp add: unat_simps)
qed

lemma compute_confidence_range:
  "40 \<le> unat (compute_confidence p g) \<and> unat (compute_confidence p g) \<le> 95"
  by (simp add: compute_confidence_def Let_def)

lemma compute_confidence_mono:
  assumes "p \<le> p'"
  shows "unat (compute_confidence p g) \<le> unat (compute_confidence p' g)"
proof -
  have "p div g \<le> p' div g"
    using assms by (simp add: word_le_nat_alt unat_simps div_le_mono)
  then show ?thesis
    by (auto simp: compute_confidence_def Let_def dest: order_trans)
qed

lemma bps_check:
  fixes net input :: u256
  assumes "unat net \<le> unat input" "unat input * 10000 < 2 ^ 256" "input \<noteq> 0"
  shows "net * 10000 div input < ucast (b :: u64) \<longleftrightarrow> unat net * 10000 < unat b * unat input"
proof -
  have "unat net * 10000 < 2 ^ 256"
    using assms(1,2) by linarith
  then have "unat (net * 10000) = unat net * 10000"
    by (subst unat_mult_lt) simp_all
  moreover have "0 < unat input" using assms(3) by (simp add: unat_gt_0)
  ultimately show ?thesis
    by (simp add: word_less_nat_alt unat_simps div_less_iff_less_mult)
qed

lemma arb_judge_gross:
  "arb_judge config order ctx cost = Some d \<Longrightarrow>
     unat cost < unat (oi_amount (do_input order))
     \<and> unat (fd_estimated_profit d) = unat (oi_amount (do_input order)) - unat cost - unat (arb_gas_cost config ctx)
     \<and> sa_min_profit_wei config \<le> fd_estimated_profit d \<and> fd_estimated_gas_cost d = arb_gas_cost config ctx
     \<and> arb_gas_cost config ctx \<le> sa_max_gas_cost_wei config
     \<and> fd_order_id d = do_id order \<and> fd_strategy_name d = ''simple_arb''
     \<and> fd_confidence d = compute_confidence (fd_estimated_profit d) (fd_estimated_gas_cost d)"
  by (cases "oi_amount (do_input order) \<le> cost")
     (auto simp: arb_judge_def Let_def unat_sat_sub unat_sub_le not_le not_less less_imp_le
        unat_mono split: if_splits)

section \<open>The decision\<close>

lemma arb_judge_iff:
  fixes order :: dutch_order and ctx :: evaluation_context
  defines "inp \<equiv> oi_amount (do_input order)" and "gas \<equiv> arb_gas_cost"
  assumes "unat inp * 10000 < 2 ^ 256"
  shows "arb_judge config order ctx cost = Some d \<longleftrightarrow>
      unat cost < unat inp \<and> fd_estimated_gas_cost d = gas config ctx \<and> gas config ctx \<le> sa_max_gas_cost_wei config
      \<and> fd_estimated_profit d = sat_sub (inp - cost) (gas config ctx) \<and> sa_min_profit_wei config \<le> fd_estimated_profit d
      \<and> unat (sa_min_profit_bps config) * unat inp \<le> unat (fd_estimated_profit d) * 10000
      \<and> fd_confidence d = compute_confidence (fd_estimated_profit d) (fd_estimated_gas_cost d)
      \<and> fd_order_id d = do_id order \<and> fd_strategy_name d = ''simple_arb''"
proof (cases "unat cost < unat inp")
  case True
  let ?net = "sat_sub (inp - cost) (gas config ctx)"
  have "inp \<noteq> 0" "unat ?net \<le> unat inp"
    using True by (auto simp: unat_simps unat_sub_le word_le_nat_alt)
  then have "?net * 10000 div inp < ucast (sa_min_profit_bps config) \<longleftrightarrow>
      unat ?net * 10000 < unat (sa_min_profit_bps config) * unat inp"
    using assms(3) by (intro bps_check)
  moreover have "\<not> inp \<le> cost" using True by (simp add: word_le_nat_alt)
  ultimately show ?thesis
    using True \<open>inp \<noteq> 0\<close> unfolding inp_def gas_def by (cases d) (auto simp: arb_judge_def Let_def not_less)
next
  case False
  then show ?thesis unfolding inp_def by (simp add: arb_judge_def word_le_nat_alt)
qed

lemma SimpleArb_evaluate_iff:
  "SimpleArb_evaluate quoter now config order ctx = Some (Inr (Some d)) \<longleftrightarrow>
    (\<exists>out cost. now \<le> do_deadline order \<and> do_outputs order \<noteq> []
       \<and> current_output_amount order 0 now = Some out
       \<and> quoter (oi_token (do_input order)) (oo_token (hd (do_outputs order))) out (do_chain_id order)
           = Some (Inr cost) \<and> arb_judge config order ctx cost = Some d)"
  by (auto simp: SimpleArb_evaluate_def DutchAuctionOrder_is_expired_def hd_conv_nth not_less
      split: option.splits sum.splits)

text \<open>
  C10: The evaluation recommends to fill exactly when the order has not expired, has an output, the
  quote succeeds and costs less than the input, the gas cost (computed without overflow) is at
  most the maximum, and what the input leaves after cost and gas (zero where they exceed it)
  reaches both thresholds, the second in exact basis points of the input.
\<close>

theorem arb_decision_exact:
  assumes "unat (oi_amount (do_input order)) * 10000 < 2 ^ 256"
  shows "SimpleArb_evaluate quoter now config order ctx = Some (Inr (Some d)) \<longleftrightarrow>
    (\<exists>out cost.
       now \<le> do_deadline order \<and> do_outputs order \<noteq> []
       \<and> current_output_amount order 0 now = Some out
       \<and> quoter (oi_token (do_input order)) (oo_token (hd (do_outputs order))) out (do_chain_id order)
           = Some (Inr cost)
       \<and> unat cost < unat (oi_amount (do_input order))
       \<and> unat (fd_estimated_gas_cost d) =
           min (unat (ec_base_fee ctx) + unat (ec_priority_fee ctx)) (2 ^ 128 - 1)
             * unat (sa_default_gas_limit config)
       \<and> fd_estimated_gas_cost d \<le> sa_max_gas_cost_wei config
       \<and> unat (fd_estimated_profit d) =
           unat (oi_amount (do_input order)) - unat cost - unat (fd_estimated_gas_cost d)
       \<and> sa_min_profit_wei config \<le> fd_estimated_profit d
       \<and> unat (sa_min_profit_bps config) * unat (oi_amount (do_input order))
           \<le> unat (fd_estimated_profit d) * 10000
       \<and> fd_confidence d = compute_confidence (fd_estimated_profit d) (fd_estimated_gas_cost d)
       \<and> fd_order_id d = do_id order \<and> fd_strategy_name d = ''simple_arb'')"
    (is "?l \<longleftrightarrow> ?r")
proof -
  let ?in = "oi_amount (do_input order)" and ?gas = "arb_gas_cost config ctx"
  have net: "n = sat_sub (?in - cost) g \<longleftrightarrow> unat n = unat ?in - unat cost - unat g"
    if "unat cost < unat ?in" for n g cost :: u256
    using that by (simp add: word_unat_eq_iff unat_simps unat_sub_le word_le_nat_alt)
  have gas: "g = ?gas \<longleftrightarrow> unat g = min (unat (ec_base_fee ctx) + unat (ec_priority_fee ctx)) (2 ^ 128 - 1)
      * unat (sa_default_gas_limit config)" for g
    by (simp only: word_unat_eq_iff arb_gas_cost_value)
  have "unat cost < unat ?in \<and> fd_estimated_gas_cost d = ?gas \<and> ?gas \<le> sa_max_gas_cost_wei config
        \<and> fd_estimated_profit d = sat_sub (?in - cost) ?gas \<and> R \<longleftrightarrow>
      unat cost < unat ?in \<and> fd_estimated_gas_cost d = ?gas
        \<and> fd_estimated_gas_cost d \<le> sa_max_gas_cost_wei config
        \<and> unat (fd_estimated_profit d) = unat ?in - unat cost - unat (fd_estimated_gas_cost d) \<and> R" for cost R
    using net [of cost "fd_estimated_profit d" "fd_estimated_gas_cost d"] by auto
  then show ?thesis
    unfolding SimpleArb_evaluate_iff arb_judge_iff [OF assms] gas [symmetric] by (simp only:)
qed

lemma arb_decision_accounting:
  assumes "SimpleArb_evaluate quoter now config order ctx = Some (Inr (Some d))"
    and "sa_min_profit_wei config \<noteq> 0"
  shows "\<exists>out cost. current_output_amount order 0 now = Some out
    \<and> quoter (oi_token (do_input order)) (oo_token (hd (do_outputs order))) out (do_chain_id order)
        = Some (Inr cost)
    \<and> unat cost + unat (fd_estimated_gas_cost d) + unat (fd_estimated_profit d)
        = unat (oi_amount (do_input order))
    \<and> sa_min_profit_wei config \<le> fd_estimated_profit d
    \<and> fd_estimated_gas_cost d \<le> sa_max_gas_cost_wei config"
proof -
  from assms(1) obtain out cost where *: "current_output_amount order 0 now = Some out"
    "quoter (oi_token (do_input order)) (oo_token (hd (do_outputs order))) out (do_chain_id order) = Some (Inr cost)"
    and judge: "arb_judge config order ctx cost = Some d"
    by (auto simp: SimpleArb_evaluate_def hd_conv_nth split: if_splits option.splits sum.splits)
  note d = arb_judge_gross [OF judge]
  have "0 < unat (sa_min_profit_wei config)" using assms(2) by (simp add: unat_gt_0)
  then have "0 < unat (fd_estimated_profit d)" using d unfolding word_le_nat_alt by linarith
  with d have "unat cost + unat (fd_estimated_gas_cost d) + unat (fd_estimated_profit d)
      = unat (oi_amount (do_input order))"
    by simp
  with * d show ?thesis by auto
qed

text \<open>
  A strategy with a positive minimum profit never recommends a loss: what the order hands over is
  exactly the quoted cost of the required output, the gas and the reported profit, the
  profit is at least the configured minimum and the gas at most the configured maximum.
\<close>

theorem arb_never_recommends_loss:
  assumes "SimpleArb_evaluate quoter now config order ctx = Some (Inr (Some d))"
    and "sa_min_profit_wei config \<noteq> 0"
  shows "\<exists>out cost. current_output_amount order 0 now = Some out
    \<and> quoter (oi_token (do_input order)) (oo_token (hd (do_outputs order))) out (do_chain_id order)
        = Some (Inr cost)
    \<and> unat cost + unat (fd_estimated_gas_cost d) + unat (fd_estimated_profit d)
        = unat (oi_amount (do_input order))
    \<and> sa_min_profit_wei config \<le> fd_estimated_profit d
    \<and> fd_estimated_gas_cost d \<le> sa_max_gas_cost_wei config"
  by (rule arb_decision_accounting [OF assms])

section \<open>Examples\<close>

text \<open>A fill of the sample order: 1 ether in, a quote of 0.9 ether, 0.0064 ether of gas.\<close>

definition arb_order :: dutch_order where
  "arb_order = sample_order\<lparr>do_input := \<lparr>oi_token = 160, oi_amount = 1000000000000000000\<rparr>\<rparr>"

definition sample_context :: evaluation_context where
  "sample_context = \<lparr>ec_chain_id = Ethereum, ec_block_number = 100, ec_block_timestamp = 0,
     ec_base_fee = 30000000000, ec_priority_fee = 2000000000\<rparr>"

definition fixed_quoter :: "u256 \<Rightarrow> market_quoter" where
  "fixed_quoter cost _ _ _ _ = Some (Inr cost)"

definition arb_decision :: fill_decision where
  "arb_decision = \<lparr>fd_order_id = 7, fd_strategy_name = ''simple_arb'',
     fd_estimated_profit = 93600000000000000, fd_estimated_gas_cost = 6400000000000000,
     fd_confidence = 90\<rparr>"

lemma arb_order_fields [simp]:
  "oi_amount (do_input arb_order) = 1000000000000000000" "do_id arb_order = 7"
  "do_outputs arb_order = do_outputs sample_order" "do_outputs sample_order \<noteq> []"
  "do_deadline arb_order = 1800 * nanos_per_sec"
  "current_output_amount arb_order 0 0 = Some 500000000000000000"
  by (simp_all add: arb_order_def sample_order_def current_output_amount_def)

theorem arb_decision_exact_witness:
  "SimpleArb_evaluate (fixed_quoter 900000000000000000) 0 SimpleArbConfig_default arb_order sample_context
     = Some (Inr (Some arb_decision))"
proof (subst arb_decision_exact)
  show "\<exists>out cost.
       0 \<le> do_deadline arb_order \<and> do_outputs arb_order \<noteq> []
       \<and> current_output_amount arb_order 0 0 = Some out
       \<and> fixed_quoter 900000000000000000 (oi_token (do_input arb_order))
           (oo_token (hd (do_outputs arb_order))) out (do_chain_id arb_order) = Some (Inr cost)
       \<and> unat cost < unat (oi_amount (do_input arb_order))
       \<and> unat (fd_estimated_gas_cost arb_decision) =
           min (unat (ec_base_fee sample_context) + unat (ec_priority_fee sample_context)) (2 ^ 128 - 1)
             * unat (sa_default_gas_limit SimpleArbConfig_default)
       \<and> fd_estimated_gas_cost arb_decision \<le> sa_max_gas_cost_wei SimpleArbConfig_default
       \<and> unat (fd_estimated_profit arb_decision) =
           unat (oi_amount (do_input arb_order)) - unat cost - unat (fd_estimated_gas_cost arb_decision)
       \<and> sa_min_profit_wei SimpleArbConfig_default \<le> fd_estimated_profit arb_decision
       \<and> unat (sa_min_profit_bps SimpleArbConfig_default) * unat (oi_amount (do_input arb_order))
           \<le> unat (fd_estimated_profit arb_decision) * 10000
       \<and> fd_confidence arb_decision =
           compute_confidence (fd_estimated_profit arb_decision) (fd_estimated_gas_cost arb_decision)
       \<and> fd_order_id arb_decision = do_id arb_order \<and> fd_strategy_name arb_decision = ''simple_arb''"
    by (simp add: fixed_quoter_def arb_decision_def SimpleArbConfig_default_def sample_context_def
        nanos_per_sec_def compute_confidence_def word_le_nat_alt unat_simps)
qed simp

lemma arb_evaluates:
  "SimpleArb_evaluate (fixed_quoter 900000000000000000) 0 SimpleArbConfig_default arb_order sample_context
     = Some (Inr (Some arb_decision))"
  by (simp add: SimpleArb_evaluate_def arb_judge_def arb_gas_cost_def fixed_quoter_def arb_decision_def
      SimpleArbConfig_default_def sample_context_def DutchAuctionOrder_is_expired_def
      nanos_per_sec_def compute_confidence_def word_le_nat_alt word_less_nat_alt sat_add_def sat_sub_def
      unat_simps)

theorem arb_never_recommends_loss_witness:
  "unat (fd_estimated_gas_cost arb_decision) + unat (fd_estimated_profit arb_decision)
     = 1000000000000000000 - 900000000000000000"
  using arb_never_recommends_loss [OF arb_evaluates]
  by (simp add: SimpleArbConfig_default_def fixed_quoter_def)

text \<open>
  Without a minimum profit the saturating subtraction hides a loss: the gas of this fill costs
  more than the 1 wei it gains, and it is recommended with a profit of zero.
\<close>

lemma arb_accepts_loss_without_minimum:
  "\<exists>d. SimpleArb_evaluate (fixed_quoter 999999999999999999) 0
        (SimpleArbConfig_default\<lparr>sa_min_profit_wei := 0, sa_min_profit_bps := 0\<rparr>) arb_order sample_context
      = Some (Inr (Some d))
     \<and> fd_estimated_profit d = 0 \<and> fd_estimated_gas_cost d = 6400000000000000"
  by (simp add: SimpleArb_evaluate_def arb_judge_def arb_gas_cost_def fixed_quoter_def
      SimpleArbConfig_default_def sample_context_def DutchAuctionOrder_is_expired_def
      nanos_per_sec_def compute_confidence_def word_le_nat_alt word_less_nat_alt sat_add_def sat_sub_def
      unat_simps)

section \<open>The strategy contract\<close>

definition is_simple_arb :: "fill_strategy \<Rightarrow> bool" where
  "is_simple_arb s \<longleftrightarrow> (\<exists>quoter now config. s = SimpleArb_strategy quoter now config)"

lemma recommends_simple_arb:
  "recommends (SimpleArb_strategy quoter now config) order ctx = Some d \<longleftrightarrow>
     SimpleArb_evaluate quoter now config order ctx = Some (Inr (Some d))"
  by (simp add: recommends_def SimpleArb_strategy_def split: option.split sum.split)

lemma SimpleArb_evaluate_judged:
  "SimpleArb_evaluate quoter now config order ctx = Some (Inr (Some d)) \<Longrightarrow>
     \<exists>cost. arb_judge config order ctx cost = Some d"
  by (auto simp: SimpleArb_evaluate_def split: if_splits option.splits sum.splits)

interpretation arb: fill_strategies is_simple_arb
proof unfold_locales
  fix s order ctx d
  assume "is_simple_arb s" "recommends s order ctx = Some d"
  then obtain quoter now config where s: "s = SimpleArb_strategy quoter now config"
    and "SimpleArb_evaluate quoter now config order ctx = Some (Inr (Some d))"
    by (auto simp: is_simple_arb_def recommends_simple_arb)
  then obtain cost where "arb_judge config order ctx cost = Some d"
    using SimpleArb_evaluate_judged by blast
  note d = arb_judge_gross [OF this]
  show "fd_order_id d = do_id order" "fd_strategy_name d = fs_name s"
    using d by (simp_all add: s SimpleArb_strategy_def)
  show "unat (fd_confidence d) \<le> 100"
    using d compute_confidence_range [of "fd_estimated_profit d" "fd_estimated_gas_cost d"] by simp
qed

end
