(* ===== verification/Pipeline.thy ===== *)
theory Pipeline
  imports Arb
begin

text \<open>
  The strategy pipeline, \<open>phantom-strategy/src/pipeline.rs\<close>: the registry's active strategies are
  run on an order, and the best of the recommended fills is selected.
\<close>

section \<open>Evaluation and selection\<close>

record pipeline_config =
  pl_min_confidence :: u8
  pl_min_profit_wei :: u256
  pl_evaluation_timeout_ms :: u64
  pl_max_concurrent_evaluations :: nat

definition PipelineConfig_default :: pipeline_config where
  "PipelineConfig_default =
     \<lparr>pl_min_confidence = 50, pl_min_profit_wei = 0, pl_evaluation_timeout_ms = 5000,
      pl_max_concurrent_evaluations = 10\<rparr>"

record strategy_pipeline =
  sp_registry :: strategy_registry
  sp_config :: pipeline_config

definition StrategyPipeline_new :: "strategy_registry \<Rightarrow> pipeline_config \<Rightarrow> strategy_pipeline" where
  "StrategyPipeline_new registry config = \<lparr>sp_registry = registry, sp_config = config\<rparr>"


definition composite_score :: "fill_decision \<Rightarrow> u256" where
  "composite_score decision =
     (case checked_mul (fd_estimated_profit decision) (ucast (fd_confidence decision)) of
        Some p \<Rightarrow> p | None \<Rightarrow> - 1) div 100"

text \<open>
  The joined results, in the order of the strategies, each the strategy's answer or, where the
  timeout elapsed first, \<open>None\<close>; and the loop that collects the recommended fills from them.
\<close>

fun collect_decisions :: "(strategy_error + fill_decision option) option list \<Rightarrow> fill_decision list" where
  "collect_decisions [] = []"
| "collect_decisions (Some (Inr (Some decision)) # results) = decision # collect_decisions results"
| "collect_decisions (Some (Inr None) # results) = collect_decisions results"
| "collect_decisions (Some (Inl e) # results) = collect_decisions results"
| "collect_decisions (None # results) = collect_decisions results"

definition StrategyPipeline_evaluate_strategies ::
    "fill_strategy list \<Rightarrow> dutch_order \<Rightarrow> evaluation_context \<Rightarrow> strategy_pipeline \<Rightarrow> fill_decision list" where
  "StrategyPipeline_evaluate_strategies strategies order ctx sp =
     collect_decisions (map (\<lambda>strategy. fs_evaluate strategy order ctx)
       (take (pl_max_concurrent_evaluations (sp_config sp)) strategies))"

definition StrategyPipeline_select_best ::
    "fill_decision list \<Rightarrow> strategy_pipeline \<Rightarrow> fill_decision option" where
  "StrategyPipeline_select_best decisions sp =
     max_by_key composite_score
       (filter (\<lambda>d. pl_min_profit_wei (sp_config sp) \<le> fd_estimated_profit d)
         (filter (\<lambda>d. pl_min_confidence (sp_config sp) \<le> fd_confidence d) decisions))"

definition StrategyPipeline_evaluate_order ::
    "dutch_order \<Rightarrow> evaluation_context \<Rightarrow> strategy_pipeline \<Rightarrow> strategy_error + fill_decision option" where
  "StrategyPipeline_evaluate_order order ctx sp =
     (let strategies = StrategyRegistry_active_strategies (sp_registry sp) in
      if strategies = [] then Inr None
      else Inr (StrategyPipeline_select_best
        (StrategyPipeline_evaluate_strategies strategies order ctx sp) sp))"

section \<open>Candidates\<close>

lemma collect_decisions_recommends:
  "collect_decisions (map (\<lambda>s. fs_evaluate s order ctx) ss) = List.map_filter (\<lambda>s. recommends s order ctx) ss"
proof (induction ss)
  case (Cons s ss)
  consider "fs_evaluate s order ctx = None" | e where "fs_evaluate s order ctx = Some (Inl e)"
    | "fs_evaluate s order ctx = Some (Inr None)" | d where "fs_evaluate s order ctx = Some (Inr (Some d))"
    by (metis not_None_eq sumE)
  then show ?case
    using Cons by cases (simp_all add: recommends_def map_filter_simps)
qed (simp add: map_filter_simps)

text \<open>
  The strategies that are run on an order: the first active ones by priority; and the fills that
  qualify: recommended by one of them and above both thresholds.
\<close>

definition evaluated :: "strategy_pipeline \<Rightarrow> fill_strategy list" where
  "evaluated sp = take (pl_max_concurrent_evaluations (sp_config sp))
     (StrategyRegistry_active_strategies (sp_registry sp))"

definition qualifying :: "dutch_order \<Rightarrow> evaluation_context \<Rightarrow> strategy_pipeline \<Rightarrow> fill_decision list" where
  "qualifying order ctx sp = filter (\<lambda>d. pl_min_confidence (sp_config sp) \<le> fd_confidence d
       \<and> pl_min_profit_wei (sp_config sp) \<le> fd_estimated_profit d)
     (List.map_filter (\<lambda>s. recommends s order ctx) (evaluated sp))"

lemma set_qualifying:
  "d \<in> set (qualifying order ctx sp) \<longleftrightarrow>
     (\<exists>s \<in> set (evaluated sp). recommends s order ctx = Some d)
     \<and> pl_min_confidence (sp_config sp) \<le> fd_confidence d \<and> pl_min_profit_wei (sp_config sp) \<le> fd_estimated_profit d"
  by (force simp: qualifying_def List.map_filter_def)

lemma evaluate_order_eq:
  "StrategyPipeline_evaluate_order order ctx sp = Inr (max_by_key composite_score (qualifying order ctx sp))"
  by (simp add: StrategyPipeline_evaluate_order_def StrategyPipeline_select_best_def qualifying_def Let_def
      StrategyPipeline_evaluate_strategies_def collect_decisions_recommends evaluated_def conj_commute
      map_filter_simps)

text \<open>The profit weighted by confidence, in whole percent and cut off at 256 bits.\<close>

definition weighted_profit :: "fill_decision \<Rightarrow> nat" where
  "weighted_profit d = min (unat (fd_estimated_profit d) * unat (fd_confidence d)) (2 ^ 256 - 1) div 100"

lemma composite_score_value: "unat (composite_score d) = weighted_profit d"
proof -
  have "unat (case checked_mul (fd_estimated_profit d) (ucast (fd_confidence d)) of Some p \<Rightarrow> p | None \<Rightarrow> - 1)
      = min (unat (fd_estimated_profit d) * unat (fd_confidence d)) (2 ^ 256 - 1)"
    by (auto simp: checked_mul_def unat_simps unat_mult_lt unat_max_word min_def)
  then show ?thesis by (simp add: composite_score_def weighted_profit_def unat_simps)
qed

text \<open>
  C11: The pipeline never fails, whatever the strategies do (time out, fail, decline).  It selects a
  fill exactly when one of the strategies it ran recommends one that reaches both thresholds;
  the selected fill is one of these, and none of these has a higher profit weighted by
  confidence, in whole percent and cut off at 256 bits.
\<close>

theorem pipeline_selects_best:
  "case StrategyPipeline_evaluate_order order ctx sp of
     Inl _ \<Rightarrow> False
   | Inr None \<Rightarrow> qualifying order ctx sp = []
   | Inr (Some d) \<Rightarrow>
       (\<exists>s. s \<in> set (evaluated sp) \<and> recommends s order ctx = Some d)
       \<and> pl_min_confidence (sp_config sp) \<le> fd_confidence d
       \<and> pl_min_profit_wei (sp_config sp) \<le> fd_estimated_profit d
       \<and> list_all (\<lambda>c. weighted_profit c \<le> weighted_profit d) (qualifying order ctx sp)"
proof (cases "max_by_key composite_score (qualifying order ctx sp)")
  case None
  then show ?thesis by (simp add: evaluate_order_eq)
next
  case (Some d)
  then have "d \<in> set (qualifying order ctx sp)" by (rule max_by_key_in)
  moreover have "weighted_profit c \<le> weighted_profit d" if "c \<in> set (qualifying order ctx sp)" for c
    using max_by_key_ge [OF Some that] by (simp add: word_le_nat_alt composite_score_value)
  ultimately show ?thesis
    by (auto simp: evaluate_order_eq Some set_qualifying list_all_iff)
qed



section \<open>Examples\<close>






text \<open>
  The limit on concurrent evaluations drops strategies instead of queueing them: with a limit of
  one, the more profitable fill of the strategy with the lower priority is never seen.
\<close>

lemma limit_drops_strategies:
  "fd_estimated_profit d = 200" if "StrategyPipeline_evaluate_order order ctx
     (StrategyPipeline_new sample_strategies (PipelineConfig_default\<lparr>pl_max_concurrent_evaluations := 1\<rparr>))
   = Inr (Some d)"
proof -
  have "StrategyRegistry_active_strategies sample_strategies =
      [sample_strategy ''a'' 10 200 95, sample_strategy ''b'' 20 300 60]"
    by (simp add: StrategyRegistry_active_strategies_def sample_strategies_def sample_strategy_def
        StrategyRegistry_register_def StrategyRegistry_new_def dm_insert_def dm_iter_def word_le_nat_alt)
  with that show ?thesis
    by (auto simp: StrategyPipeline_evaluate_order_def StrategyPipeline_evaluate_strategies_def
        StrategyPipeline_new_def StrategyPipeline_select_best_def sample_strategy_def split: if_splits)
qed

end
