(* ===== verification/Simulation.thy ===== *)
theory Simulation
  imports Types
begin

text \<open>
  The fill simulator, \<open>phantom-strategy/src/simulation.rs\<close>.  What the provider answers to
  \<open>get_block_number\<close>, \<open>call\<close> and \<open>estimate_gas\<close> (an error is its text) are arguments; a provider
  that does not answer within the timeout is \<open>None\<close>.
\<close>

section \<open>Requests and results\<close>

record simulation_config =
  sc_timeout_ms :: u64
  sc_default_gas_limit :: u64
  sc_gas_buffer_bps :: u64

definition SimulationConfig_default :: simulation_config where
  "SimulationConfig_default =
     \<lparr>sc_timeout_ms = 10000, sc_default_gas_limit = 500000, sc_gas_buffer_bps = 12000\<rparr>"

record simulation_request =
  sq_from :: address
  sq_to :: address
  sq_calldata :: bytes
  sq_value :: u256
  sq_gas_limit :: "u64 option"

datatype simulation_outcome = Sim_Success | Sim_Revert

record simulation_result =
  sr_outcome :: simulation_outcome
  sr_gas_used :: u64
  sr_raw_gas_estimate :: u64
  sr_return_data :: bytes
  sr_error_message :: "string option"
  sr_block_number :: u64

definition SimulationResult_is_success :: "simulation_result \<Rightarrow> bool" where
  "SimulationResult_is_success r \<longleftrightarrow> sr_outcome r = Sim_Success"

definition SimulationResult_is_revert :: "simulation_result \<Rightarrow> bool" where
  "SimulationResult_is_revert r \<longleftrightarrow> sr_outcome r = Sim_Revert"

text \<open>The fields of a \<open>TransactionRequest\<close> that the simulator sets.\<close>

record call_request =
  cq_from :: address
  cq_to :: address
  cq_input :: bytes
  cq_value :: u256
  cq_gas :: u64

section \<open>The simulator\<close>

definition apply_gas_buffer :: "u64 \<Rightarrow> u64 \<Rightarrow> u64" where
  "apply_gas_buffer gas buffer_bps =
     (let buffered = (ucast gas * ucast buffer_bps :: u128) div 10000 in
      if ucast (- 1 :: u64) < buffered then - 1 else ucast buffered)"

record sim_provider =
  pv_block_number :: "string + u64"
  pv_call :: "call_request \<Rightarrow> string + bytes"
  pv_estimate_gas :: "call_request \<Rightarrow> string + u64"

definition FillSimulator_estimate_gas :: "sim_provider \<Rightarrow> call_request \<Rightarrow> strategy_error + u64" where
  "FillSimulator_estimate_gas p tx =
     (case pv_estimate_gas p tx of
        Inl e \<Rightarrow> Inl (SimulationFailed (Fmt ''gas estimation: {e}'' [Str e]))
      | Inr estimate \<Rightarrow> Inr estimate)"

text \<open>The transaction that is called and whose gas is estimated.\<close>

definition simulation_gas_limit :: "simulation_config \<Rightarrow> simulation_request \<Rightarrow> u64" where
  "simulation_gas_limit config request =
     (case sq_gas_limit request of Some g \<Rightarrow> g | None \<Rightarrow> sc_default_gas_limit config)"

definition simulation_tx :: "simulation_config \<Rightarrow> simulation_request \<Rightarrow> call_request" where
  "simulation_tx config request =
     \<lparr>cq_from = sq_from request, cq_to = sq_to request, cq_input = sq_calldata request,
      cq_value = sq_value request, cq_gas = simulation_gas_limit config request\<rparr>"

definition FillSimulator_run_simulation ::
    "sim_provider \<Rightarrow> simulation_config \<Rightarrow> simulation_request \<Rightarrow> strategy_error + simulation_result" where
  "FillSimulator_run_simulation p config request =
     (let gas_limit = simulation_gas_limit config request;
          tx = simulation_tx config request
      in case pv_block_number p of
           Inl e \<Rightarrow> Inl (SimulationFailed (Fmt ''block number fetch: {e}'' [Str e]))
         | Inr block_number \<Rightarrow>
             (case pv_call p tx of
                Inr return_data \<Rightarrow>
                  let (raw_gas, buffered_gas) =
                        (case FillSimulator_estimate_gas p tx of
                           Inr estimate \<Rightarrow> (estimate, apply_gas_buffer estimate (sc_gas_buffer_bps config))
                         | Inl _ \<Rightarrow> (gas_limit, gas_limit))
                  in Inr \<lparr>sr_outcome = Sim_Success, sr_gas_used = buffered_gas,
                          sr_raw_gas_estimate = raw_gas, sr_return_data = return_data,
                          sr_error_message = None, sr_block_number = block_number\<rparr>
              | Inl e \<Rightarrow>
                  Inr \<lparr>sr_outcome = Sim_Revert, sr_gas_used = gas_limit,
                       sr_raw_gas_estimate = gas_limit, sr_return_data = [],
                       sr_error_message = Some e, sr_block_number = block_number\<rparr>))"

definition FillSimulator_simulate ::
    "sim_provider option \<Rightarrow> simulation_config \<Rightarrow> simulation_request \<Rightarrow> strategy_error + simulation_result" where
  "FillSimulator_simulate provider config request =
     (case provider of
        Some p \<Rightarrow> FillSimulator_run_simulation p config request
      | None \<Rightarrow> Inl (EvaluationTimeout (sc_timeout_ms config)))"

section \<open>The buffered estimate\<close>

lemma apply_gas_buffer_value:
  "unat (apply_gas_buffer gas bps) = min (unat gas * unat bps div 10000) (2 ^ 64 - 1)"
proof -
  let ?b = "(ucast gas * ucast bps :: u128) div 10000"
  have "unat gas * unat bps < 2 ^ 64 * 2 ^ 64"
    using unat_lt2p [of gas] unat_lt2p [of bps] by (intro mult_strict_mono) simp_all
  then have "unat (ucast gas * ucast bps :: u128) = unat gas * unat bps"
    by (subst unat_mult_lt) (simp_all add: unat_ucast_up)
  then have b: "unat ?b = unat gas * unat bps div 10000"
    by (simp add: unat_div_word)
  have "unat (ucast (- 1 :: u64) :: u128) = 2 ^ 64 - 1"
    by (simp add: unat_ucast_up unat_max_word)
  then have "ucast (- 1 :: u64) < ?b \<longleftrightarrow> 2 ^ 64 - 1 < unat gas * unat bps div 10000"
    by (simp only: word_less_nat_alt b)
  moreover have "unat (ucast ?b :: u64) = unat gas * unat bps div 10000 mod 2 ^ 64"
    using b by (simp add: unat_ucast)
  ultimately show ?thesis
    by (auto simp: apply_gas_buffer_def Let_def unat_max_word not_less min_def)
qed

text \<open>
  The outcome of a simulation.  It fails only when the block number cannot be fetched or the
  timeout elapses.  Otherwise it succeeds exactly when the call succeeds, with the call's data;
  the gas it reports for a success is the provider's estimate times the buffer in basis
  points, rounded down and cut off at the largest \<open>u64\<close>, or the unbuffered gas limit when there is
  no estimate; a reverted call reports the gas limit and the error.
\<close>

theorem simulation_contract:
  "case FillSimulator_simulate provider config request of
     Inl e \<Rightarrow> e = EvaluationTimeout (sc_timeout_ms config) \<and> provider = None
       \<or> (\<exists>p text. provider = Some p \<and> pv_block_number p = Inl text)
   | Inr r \<Rightarrow> (\<exists>p. provider = Some p \<and> pv_block_number p = Inr (sr_block_number r)
       \<and> (case pv_call p (simulation_tx config request) of
            Inl e \<Rightarrow> SimulationResult_is_revert r \<and> sr_error_message r = Some e
              \<and> sr_gas_used r = simulation_gas_limit config request
          | Inr data \<Rightarrow> SimulationResult_is_success r \<and> sr_return_data r = data
              \<and> unat (sr_gas_used r) = (case pv_estimate_gas p (simulation_tx config request) of
                  Inr raw \<Rightarrow> min (unat raw * unat (sc_gas_buffer_bps config) div 10000) (2 ^ 64 - 1)
                | Inl _ \<Rightarrow> unat (simulation_gas_limit config request))))"
proof (cases provider)
  case None
  then show ?thesis by (simp add: FillSimulator_simulate_def)
next
  case (Some p)
  show ?thesis
    unfolding Some FillSimulator_simulate_def FillSimulator_run_simulation_def Let_def
    by (cases "pv_block_number p"; cases "pv_call p (simulation_tx config request)";
        cases "pv_estimate_gas p (simulation_tx config request)")
       (simp_all add: SimulationResult_is_success_def SimulationResult_is_revert_def
          FillSimulator_estimate_gas_def apply_gas_buffer_value)
qed

text \<open>
  With a buffer of at least 10000 basis points the reported gas is never below the estimate, so
  a gas limit taken from a successful simulation is enough for the estimate.
\<close>

lemma gas_buffer_sufficient:
  assumes "10000 \<le> unat bps"
  shows "gas \<le> apply_gas_buffer gas bps"
proof -
  have "unat gas * 10000 \<le> unat gas * unat bps" using assms by simp
  then have "unat gas \<le> unat gas * unat bps div 10000"
    by (simp add: less_eq_div_iff_mult_less_eq)
  then show ?thesis
    using unat_le_max [of gas] by (simp add: word_le_nat_alt apply_gas_buffer_value)
qed

lemma default_buffer: "unat gas < 2 ^ 63 \<Longrightarrow>
    unat (apply_gas_buffer gas (sc_gas_buffer_bps SimulationConfig_default)) = unat gas * 12 div 10"
  by (simp add: apply_gas_buffer_value SimulationConfig_default_def)

end
