(* ===== verification/Reactor_Monitor.thy ===== *)
theory Reactor_Monitor
  imports Types
begin

text \<open>
  Decoding of reactor events and orders, \<open>phantom-discovery/src/monitor.rs\<close> with the types and
  addresses of \<open>abi.rs\<close>.  The decoders that the \<open>sol!\<close> macro generates are arguments: each
  answers a value or the text of its error.
\<close>

section \<open>ABI types and addresses\<close>

record order_info =
  ai_reactor :: address
  ai_swapper :: address
  ai_nonce :: u256
  ai_deadline :: u256
  ai_validation_contract :: address
  ai_validation_data :: bytes

record dutch_input =
  di_token :: address
  di_start_amount :: u256
  di_end_amount :: u256

record dutch_output =
  dt_token :: address
  dt_start_amount :: u256
  dt_end_amount :: u256
  dt_recipient :: address

record exclusive_dutch_order =
  xo_info :: order_info
  xo_decay_start_time :: u256
  xo_decay_end_time :: u256
  xo_exclusive_filler :: address
  xo_exclusivity_override_bps :: u256
  xo_input :: dutch_input
  xo_outputs :: "dutch_output list"

record fill_event_data =
  fe_order_hash :: b256
  fe_filler :: address
  fe_swapper :: address
  fe_nonce :: u256

definition EXCLUSIVE_DUTCH_ORDER_REACTOR_MAINNET :: address where
  "EXCLUSIVE_DUTCH_ORDER_REACTOR_MAINNET = 0x6000da47483062A0D734Ba3dc7576Ce6A0B645C4"

definition EXCLUSIVE_DUTCH_ORDER_REACTOR_ARBITRUM :: address where
  "EXCLUSIVE_DUTCH_ORDER_REACTOR_ARBITRUM = 0x1bd1aAdc9E230626C44a139d7E70d842749351eb"

definition reactor_for_chain :: "u64 \<Rightarrow> address option" where
  "reactor_for_chain chain =
     (if chain = 1 then Some EXCLUSIVE_DUTCH_ORDER_REACTOR_MAINNET
      else if chain = 42161 then Some EXCLUSIVE_DUTCH_ORDER_REACTOR_ARBITRUM
      else None)"

section \<open>Events\<close>

record rpc_log =
  lg_topics :: "b256 list"
  lg_data :: bytes
  lg_block_number :: "u64 option"
  lg_transaction_hash :: "b256 option"

record decoded_fill_event =
  df_order_hash :: b256
  df_filler :: address
  df_swapper :: address
  df_nonce :: u256
  df_block_number :: u64
  df_tx_hash :: "b256 option"
  df_chain_id :: chain_id

text \<open>\<open>sig\<close> is \<open>IReactor::Fill::SIGNATURE_HASH\<close>, \<open>decode_raw_log\<close> the generated event decoder.\<close>

definition decode_fill_event ::
    "b256 \<Rightarrow> (b256 list \<Rightarrow> bytes \<Rightarrow> string + fill_event_data) \<Rightarrow> rpc_log \<Rightarrow> chain_id \<Rightarrow>
     discovery_error + decoded_fill_event" where
  "decode_fill_event sig decode_raw_log log chain_id =
     (let topics = lg_topics log in
      if topics = [] \<or> hd topics \<noteq> sig
      then Inl (DecodingFailed (lit ''log does not match Fill event signature''))
      else case decode_raw_log topics (lg_data log) of
        Inl e \<Rightarrow> Inl (DecodingFailed (Fmt ''failed to decode Fill event: {e}'' [Str e]))
      | Inr fill \<Rightarrow> Inr
          \<lparr>df_order_hash = fe_order_hash fill, df_filler = fe_filler fill,
           df_swapper = fe_swapper fill, df_nonce = fe_nonce fill,
           df_block_number = (case lg_block_number log of Some b \<Rightarrow> b | None \<Rightarrow> 0),
           df_tx_hash = lg_transaction_hash log, df_chain_id = chain_id\<rparr>)"

record reactor_monitor_config =
  mc_reactor_address :: address
  mc_chain_id :: chain_id

definition ReactorMonitorConfig_new :: "address \<Rightarrow> chain_id \<Rightarrow> reactor_monitor_config" where
  "ReactorMonitorConfig_new reactor_address chain_id =
     \<lparr>mc_reactor_address = reactor_address, mc_chain_id = chain_id\<rparr>"

definition ReactorMonitorConfig_for_chain :: "chain_id \<Rightarrow> reactor_monitor_config option" where
  "ReactorMonitorConfig_for_chain chain_id =
     map_option (\<lambda>addr. \<lparr>mc_reactor_address = addr, mc_chain_id = chain_id\<rparr>)
       (reactor_for_chain (ChainId_as_u64 chain_id))"

section \<open>Orders\<close>

text \<open>
  A timestamp above \<open>i64::MAX\<close> is cut off there; \<open>timestamp_opt\<close> has no answer for a second outside
  the range of \<open>DateTime\<close>, and the default is the epoch.
\<close>

definition timestamp_to_datetime :: "u256 \<Rightarrow> datetime" where
  "timestamp_to_datetime timestamp =
     (let secs = (if unat timestamp < 2 ^ 63 then int (unat timestamp) else 2 ^ 63 - 1) in
      if chrono_range (secs * nanos_per_sec) then secs * nanos_per_sec else 0)"

definition decode_output :: "dutch_output \<Rightarrow> order_output" where
  "decode_output out = \<lparr>oo_token = dt_token out, oo_start_amount = dt_start_amount out,
     oo_end_amount = dt_end_amount out, oo_recipient = dt_recipient out\<rparr>"

definition decode_dutch_order ::
    "(bytes \<Rightarrow> string + exclusive_dutch_order) \<Rightarrow> bytes \<Rightarrow> chain_id \<Rightarrow> b256 \<Rightarrow> discovery_error + dutch_order" where
  "decode_dutch_order abi_decode encoded_order chain_id order_hash =
     (case abi_decode encoded_order of
        Inl e \<Rightarrow> Inl (DecodingFailed (Fmt ''failed to decode ExclusiveDutchOrder: {e}'' [Str e]))
      | Inr order \<Rightarrow> Inr
          \<lparr>do_id = order_hash, do_chain_id = chain_id, do_reactor = ai_reactor (xo_info order),
           do_signer = ai_swapper (xo_info order), do_nonce = ai_nonce (xo_info order),
           do_decay_start_time = timestamp_to_datetime (xo_decay_start_time order),
           do_decay_end_time = timestamp_to_datetime (xo_decay_end_time order),
           do_deadline = timestamp_to_datetime (ai_deadline (xo_info order)),
           do_input = \<lparr>oi_token = di_token (xo_input order), oi_amount = di_start_amount (xo_input order)\<rparr>,
           do_outputs = map decode_output (xo_outputs order)\<rparr>)"

fun validate_outputs :: "nat \<Rightarrow> order_output list \<Rightarrow> discovery_error + unit" where
  "validate_outputs i [] = Inr ()"
| "validate_outputs i (output # outputs) =
     (if oo_start_amount output < oo_end_amount output
      then Inl (ValidationFailed
        (Fmt ''output {i} start_amount < end_amount (invalid Dutch auction decay)'' [Num (int i)]))
      else validate_outputs (Suc i) outputs)"

definition validate_order :: "datetime \<Rightarrow> dutch_order \<Rightarrow> discovery_error + unit" where
  "validate_order now order =
     (if DutchAuctionOrder_is_expired order now
      then Inl (ValidationFailed (lit ''order has expired''))
      else if do_decay_end_time order < do_decay_start_time order
      then Inl (ValidationFailed (lit ''decay end time is before decay start time''))
      else if do_outputs order = []
      then Inl (ValidationFailed (lit ''order has no outputs''))
      else validate_outputs 0 (do_outputs order))"

section \<open>What validation establishes\<close>

lemma timestamp_chrono_range: "chrono_range (timestamp_to_datetime ts)"
  by (simp add: timestamp_to_datetime_def Let_def chrono_range_def nanos_per_sec_def)

lemma timestamp_exact:
  "unat ts < 8210266876800 \<Longrightarrow> timestamp_to_datetime ts = int (unat ts) * nanos_per_sec"
proof -
  assume "unat ts < 8210266876800"
  then have "chrono_range (int (unat ts) * nanos_per_sec)"
    by (simp add: chrono_range_def nanos_per_sec_def del: of_nat_unat int_nat_eq)
  with \<open>unat ts < _\<close> show ?thesis by (simp add: timestamp_to_datetime_def Let_def)
qed

lemma validate_outputs_iff:
  "validate_outputs i os = Inr () \<longleftrightarrow> list_all (\<lambda>out. oo_end_amount out \<le> oo_start_amount out) os"
  by (induction os arbitrary: i) (auto simp: not_less)

lemma validate_order_iff:
  "validate_order now order = Inr () \<longleftrightarrow>
     now \<le> do_deadline order \<and> do_decay_start_time order \<le> do_decay_end_time order
     \<and> do_outputs order \<noteq> [] \<and> list_all (\<lambda>out. oo_end_amount out \<le> oo_start_amount out) (do_outputs order)"
  by (simp add: validate_order_def DutchAuctionOrder_is_expired_def validate_outputs_iff not_less)

text \<open>
  A timestamp in the calendar is decoded exactly; one beyond it, and in particular every
  timestamp from 2^63 on, becomes the epoch.
\<close>

lemma timestamp_beyond_calendar:
  "8210266876800 \<le> unat ts \<Longrightarrow> timestamp_to_datetime ts = 0"
  by (simp add: timestamp_to_datetime_def Let_def chrono_range_def nanos_per_sec_def
      del: of_nat_unat int_nat_eq)

lemma decoded_output_ok:
  assumes "decode_dutch_order abi_decode encoded chain hash = Inr order" "validate_order now order = Inr ()"
    and "i < length (do_outputs order)" "unat (oo_start_amount (do_outputs order ! i)) < 2 ^ 208"
    and "chrono_range t"
  shows "decay_ok order (do_outputs order ! i) t"
proof -
  let ?o = "do_outputs order ! i" and ?d = "t - do_decay_start_time order"
  have times: "chrono_range (do_decay_start_time order)" "chrono_range (do_decay_end_time order)"
    using assms(1) timestamp_chrono_range by (auto simp: decode_dutch_order_def split: sum.splits)
  have "oo_end_amount ?o \<le> oo_start_amount ?o"
    using assms(2,3) by (simp add: validate_order_iff list_all_length)
  moreover have "nat (num_seconds ?d) \<le> 16544868105600"
  proof (cases "0 \<le> ?d")
    case True
    have "?d \<le> 16544868105600 * nanos_per_sec"
      using times assms(5) by (simp add: chrono_range_def nanos_per_sec_def)
    then have "num_seconds ?d \<le> num_seconds (16544868105600 * nanos_per_sec)"
      using True by (rule num_seconds_mono [rotated])
    then show ?thesis by (simp add: num_seconds_def nanos_per_sec_def)
  qed (simp add: num_seconds_def nanos_per_sec_def)
  then have "(unat (oo_start_amount ?o) - unat (oo_end_amount ?o)) * nat (num_seconds ?d)
      \<le> 2 ^ 208 * 16544868105600"
    using assms(4) by (intro mult_mono) auto
  ultimately show ?thesis
    using times assms(5) by (simp add: decay_ok_def)
qed

text \<open>
  C16: From the bytes of an order to a fillable auction: an order that is decoded and passes
  validation keeps the identity, parties and amounts of the encoded one; for each of its
  outputs, provided the encoded starting amount is below 2^208, the amount required at any
  representable time is defined, lies between the encoded end and start amounts, and does not
  grow later on.
\<close>

theorem validated_order_decays_safely:
  assumes "decode_dutch_order abi_decode encoded chain hash = Inr order" "validate_order now order = Inr ()"
    and "i < length (do_outputs order)" "unat (oo_start_amount (do_outputs order ! i)) < 2 ^ 208"
    and "chrono_range t1" "chrono_range t2" "t1 \<le> t2"
  shows "\<exists>x a1 a2. abi_decode encoded = Inr x \<and> do_id order = hash \<and> do_chain_id order = chain
    \<and> oi_amount (do_input order) = di_start_amount (xo_input x) \<and> do_signer order = ai_swapper (xo_info x)
    \<and> length (do_outputs order) = length (xo_outputs x)
    \<and> current_output_amount order i t1 = Some a1 \<and> current_output_amount order i t2 = Some a2
    \<and> dt_end_amount (xo_outputs x ! i) \<le> a2 \<and> a2 \<le> a1 \<and> a1 \<le> dt_start_amount (xo_outputs x ! i)"
proof -
  from assms(1) obtain x where x: "abi_decode encoded = Inr x"
    and order: "do_id order = hash" "do_chain_id order = chain"
      "oi_amount (do_input order) = di_start_amount (xo_input x)" "do_signer order = ai_swapper (xo_info x)"
      "do_outputs order = map decode_output (xo_outputs x)"
    by (auto simp: decode_dutch_order_def split: sum.splits)
  have "\<exists>a1 a2. current_output_amount order i t1 = Some a1 \<and> current_output_amount order i t2 = Some a2
      \<and> oo_end_amount (do_outputs order ! i) \<le> a2 \<and> a2 \<le> a1 \<and> a1 \<le> oo_start_amount (do_outputs order ! i)"
    by (intro decay_antimono_bounds assms(3,7) decoded_output_ok [OF assms(1-4)] assms(5,6))
  with x order assms(3) show ?thesis by (auto simp: decode_output_def)
qed

text \<open>An encoded auction, decoded by a decoder that knows only it.\<close>

definition sample_encoded :: exclusive_dutch_order where
  "sample_encoded =
     \<lparr>xo_info = \<lparr>ai_reactor = 1, ai_swapper = 2, ai_nonce = 1, ai_deadline = 1700003600,
        ai_validation_contract = 0, ai_validation_data = []\<rparr>,
      xo_decay_start_time = 1700000000, xo_decay_end_time = 1700000600,
      xo_exclusive_filler = 0, xo_exclusivity_override_bps = 0,
      xo_input = \<lparr>di_token = 170, di_start_amount = 1000, di_end_amount = 1000\<rparr>,
      xo_outputs = [\<lparr>dt_token = 187, dt_start_amount = 500, dt_end_amount = 450, dt_recipient = 2\<rparr>]\<rparr>"

definition sample_decoder :: "bytes \<Rightarrow> string + exclusive_dutch_order" where
  "sample_decoder encoded = (if encoded = [1] then Inr sample_encoded else Inl ''type check failed'')"

definition sample_decoded :: dutch_order where
  "sample_decoded =
     \<lparr>do_id = 66, do_chain_id = Ethereum, do_reactor = 1, do_signer = 2, do_nonce = 1,
      do_decay_start_time = 1700000000 * nanos_per_sec, do_decay_end_time = 1700000600 * nanos_per_sec,
      do_deadline = 1700003600 * nanos_per_sec, do_input = \<lparr>oi_token = 170, oi_amount = 1000\<rparr>,
      do_outputs = [\<lparr>oo_token = 187, oo_start_amount = 500, oo_end_amount = 450, oo_recipient = 2\<rparr>]\<rparr>"

lemma sample_decodes: "decode_dutch_order sample_decoder [1] Ethereum 66 = Inr sample_decoded"
  by (simp add: decode_dutch_order_def sample_decoder_def sample_encoded_def sample_decoded_def
      decode_output_def timestamp_exact)

lemma sample_validates: "validate_order (1700000000 * nanos_per_sec) sample_decoded = Inr ()"
  by (simp add: validate_order_iff sample_decoded_def nanos_per_sec_def word_le_nat_alt)

theorem validated_order_decays_safely_witness:
  "\<exists>a1 a2. current_output_amount sample_decoded 0 (1700000100 * nanos_per_sec) = Some a1
     \<and> current_output_amount sample_decoded 0 (1700000500 * nanos_per_sec) = Some a2
     \<and> a2 \<le> a1 \<and> a1 \<le> 500"
proof -
  have "0 < length (do_outputs sample_decoded)"
    "unat (oo_start_amount (do_outputs sample_decoded ! 0)) < 2 ^ 208"
    "chrono_range (1700000100 * nanos_per_sec)" "chrono_range (1700000500 * nanos_per_sec)"
    "1700000100 * nanos_per_sec \<le> 1700000500 * nanos_per_sec"
    by (simp_all add: sample_decoded_def chrono_range_def nanos_per_sec_def)
  from validated_order_decays_safely [OF sample_decodes sample_validates this]
  show ?thesis by (auto simp: sample_decoder_def sample_encoded_def)
qed

text \<open>
  An order whose deadline lies beyond the calendar, for instance one that never expires, is
  decoded with the epoch for its deadline and rejected as expired.
\<close>

lemma unbounded_deadline_expires:
  assumes "abi_decode encoded = Inr (sample_encoded\<lparr>xo_info := (xo_info sample_encoded)\<lparr>ai_deadline := - 1\<rparr>\<rparr>)"
    and "decode_dutch_order abi_decode encoded chain hash = Inr order" "0 < now"
  shows "validate_order now order = Inl (ValidationFailed (lit ''order has expired''))"
proof -
  have "timestamp_to_datetime (- 1) = 0"
    by (rule timestamp_beyond_calendar) (simp add: unat_max_word)
  with assms show ?thesis
    by (auto simp: decode_dutch_order_def validate_order_def DutchAuctionOrder_is_expired_def
        split: sum.splits)
qed

end
