(* ===== verification/Builder.thy ===== *)
theory Builder
  imports Gas Simulation
begin

text \<open>
  The transaction builder, \<open>phantom-execution/src/builder.rs\<close>, and how it accepts what the gas
  oracle and the simulator propose.
\<close>

section \<open>Building a transaction\<close>

record transaction_params =
  tp_from :: address
  tp_to :: address
  tp_calldata :: bytes
  tp_value :: u256
  tp_chain_id :: u64
  tp_max_fee_per_gas :: u128
  tp_max_priority_fee_per_gas :: u128
  tp_gas_limit :: u64
  tp_nonce :: u64

record builder_config =
  bd_default_gas_limit :: u64
  bd_max_gas_limit :: u64
  bd_max_fee_cap :: u128

definition BuilderConfig_default :: builder_config where
  "BuilderConfig_default =
     \<lparr>bd_default_gas_limit = 300000, bd_max_gas_limit = 1000000, bd_max_fee_cap = 500000000000\<rparr>"

record tx_builder =
  tb_config :: builder_config

definition TransactionBuilder_new :: "builder_config \<Rightarrow> tx_builder" where
  "TransactionBuilder_new config = \<lparr>tb_config = config\<rparr>"

definition TransactionBuilder_with_defaults :: tx_builder where
  "TransactionBuilder_with_defaults = TransactionBuilder_new BuilderConfig_default"

text \<open>The fields of alloy's \<open>TransactionRequest\<close> that the builder sets; the others stay unset.\<close>

record transaction_request =
  tr_from :: "address option"
  tr_to :: "address option"
  tr_input :: bytes
  tr_value :: "u256 option"
  tr_nonce :: "u64 option"
  tr_gas :: "u64 option"
  tr_max_fee_per_gas :: "u128 option"
  tr_max_priority_fee_per_gas :: "u128 option"
  tr_chain_id :: "u64 option"

definition TransactionBuilder_validate :: "transaction_params \<Rightarrow> tx_builder \<Rightarrow> execution_error + unit" where
  "TransactionBuilder_validate params tb =
     (if bd_max_gas_limit (tb_config tb) < tp_gas_limit params
      then Inl (GasEstimationFailed (Fmt ''gas limit {} exceeds maximum {}''
        [Num (uint (tp_gas_limit params)), Num (uint (bd_max_gas_limit (tb_config tb)))]))
      else if bd_max_fee_cap (tb_config tb) < tp_max_fee_per_gas params
      then Inl (GasEstimationFailed (Fmt ''max fee per gas {} exceeds cap {}''
        [Num (uint (tp_max_fee_per_gas params)), Num (uint (bd_max_fee_cap (tb_config tb)))]))
      else if tp_max_fee_per_gas params < tp_max_priority_fee_per_gas params
      then Inl (GasEstimationFailed (lit ''priority fee exceeds max fee per gas''))
      else if tp_to params = address_zero
      then Inl (GasEstimationFailed (lit ''target address cannot be zero''))
      else Inr ())"

definition TransactionBuilder_build ::
    "transaction_params \<Rightarrow> tx_builder \<Rightarrow> execution_error + transaction_request" where
  "TransactionBuilder_build params tb =
     (case TransactionBuilder_validate params tb of
        Inl e \<Rightarrow> Inl e
      | Inr _ \<Rightarrow> Inr
          \<lparr>tr_from = Some (tp_from params), tr_to = Some (tp_to params), tr_input = tp_calldata params,
           tr_value = Some (tp_value params), tr_nonce = Some (tp_nonce params),
           tr_gas = Some (tp_gas_limit params), tr_max_fee_per_gas = Some (tp_max_fee_per_gas params),
           tr_max_priority_fee_per_gas = Some (tp_max_priority_fee_per_gas params),
           tr_chain_id = Some (tp_chain_id params)\<rparr>)"

section \<open>What the builder accepts\<close>

lemma build_accepts_iff:
  "(\<exists>tx. TransactionBuilder_build params tb = Inr tx) \<longleftrightarrow>
     tp_gas_limit params \<le> bd_max_gas_limit (tb_config tb)
     \<and> tp_max_fee_per_gas params \<le> bd_max_fee_cap (tb_config tb)
     \<and> tp_max_priority_fee_per_gas params \<le> tp_max_fee_per_gas params \<and> tp_to params \<noteq> address_zero"
  by (auto simp: TransactionBuilder_build_def TransactionBuilder_validate_def split: sum.split)

lemma build_fields:
  "TransactionBuilder_build params tb = Inr tx \<Longrightarrow>
     tr_from tx = Some (tp_from params) \<and> tr_to tx = Some (tp_to params) \<and> tr_input tx = tp_calldata params
     \<and> tr_value tx = Some (tp_value params) \<and> tr_nonce tx = Some (tp_nonce params)
     \<and> tr_gas tx = Some (tp_gas_limit params) \<and> tr_max_fee_per_gas tx = Some (tp_max_fee_per_gas params)
     \<and> tr_max_priority_fee_per_gas tx = Some (tp_max_priority_fee_per_gas params)
     \<and> tr_chain_id tx = Some (tp_chain_id params)"
  by (auto simp: TransactionBuilder_build_def split: sum.splits)

lemma max_fee_covers_tip: "p \<le> compute_max_fee b p"
  using unat_le_max [of p] by (simp add: word_le_nat_alt compute_max_fee_value)

text \<open>
  What a built transaction can cost at most: gas limit times maximum fee per gas is within the
  product of the two configured caps.
\<close>

lemma built_cost_bounded:
  assumes "TransactionBuilder_build params tb = Inr tx"
  shows "unat (tp_gas_limit params) * unat (tp_max_fee_per_gas params)
    \<le> unat (bd_max_gas_limit (tb_config tb)) * unat (bd_max_fee_cap (tb_config tb))"
proof -
  have "\<exists>tx. TransactionBuilder_build params tb = Inr tx" using assms by blast
  then have "tp_gas_limit params \<le> bd_max_gas_limit (tb_config tb)"
    "tp_max_fee_per_gas params \<le> bd_max_fee_cap (tb_config tb)"
    unfolding build_accepts_iff by simp_all
  then show ?thesis unfolding word_le_nat_alt by (rule mult_le_mono)
qed

text \<open>
  C19: A fill priced by the gas oracle is built exactly when its gas limit and maximum fee are
  within the caps and it has a target: the priority fee of an oracle price never exceeds its
  maximum fee.  The built transaction carries the proposed fees, limit and nonce, and costs at
  most the oracle's estimate and at most the product of the caps.
\<close>

theorem oracle_priced_fill_builds:
  assumes "snd (GasOracle_estimate_fill_cost now a gas_limit level go) = Inr e"
    and "tp_gas_limit params = ge_gas_limit e"
    and "tp_max_fee_per_gas params = gp_max_fee_per_gas (ge_gas_price e)"
    and "tp_max_priority_fee_per_gas params = gp_priority_fee (ge_gas_price e)"
  shows "(case TransactionBuilder_build params tb of
      Inr tx \<Rightarrow> tp_gas_limit params \<le> bd_max_gas_limit (tb_config tb)
        \<and> tp_max_fee_per_gas params \<le> bd_max_fee_cap (tb_config tb) \<and> tp_to params \<noteq> address_zero
        \<and> tr_nonce tx = Some (tp_nonce params) \<and> tr_gas tx = Some gas_limit
        \<and> tr_max_fee_per_gas tx = Some (gp_max_fee_per_gas (ge_gas_price e))
        \<and> tr_chain_id tx = Some (tp_chain_id params)
        \<and> unat (ge_total_cost_wei e)
            \<le> unat (bd_max_gas_limit (tb_config tb)) * unat (bd_max_fee_cap (tb_config tb))
    | Inl _ \<Rightarrow> bd_max_gas_limit (tb_config tb) < tp_gas_limit params
        \<or> bd_max_fee_cap (tb_config tb) < tp_max_fee_per_gas params \<or> tp_to params = address_zero)"
proof -
  from fill_cost_values [of now a go gas_limit level] obtain go' base tip e' where
    run: "GasOracle_estimate_fill_cost now a gas_limit level go = (go', Inr e')"
    and vals: "unat (ge_total_cost_wei e') = unat gas_limit * unat (gp_max_fee_per_gas (ge_gas_price e'))"
      "gp_max_fee_per_gas (ge_gas_price e') = compute_max_fee base (apply_urgency tip level (go_config go))"
      "gp_priority_fee (ge_gas_price e') = apply_urgency tip level (go_config go)"
      "ge_gas_limit e' = gas_limit"
    by blast
  from run assms(1) have "e' = e" by simp
  note cost = vals(1) [unfolded this] and fee = vals(2,3) [unfolded this] and limit = vals(4) [unfolded this]
  have tip: "tp_max_priority_fee_per_gas params \<le> tp_max_fee_per_gas params"
    unfolding assms(3,4) fee by (rule max_fee_covers_tip)
  show ?thesis
  proof (cases "TransactionBuilder_build params tb")
    case (Inl err)
    then have "\<not> (\<exists>tx. TransactionBuilder_build params tb = Inr tx)" by simp
    with Inl tip show ?thesis
      unfolding build_accepts_iff by (auto simp: not_le)
  next
    case (Inr tx)
    then have "\<exists>tx. TransactionBuilder_build params tb = Inr tx" by blast
    with Inr show ?thesis
      using build_fields [OF Inr] built_cost_bounded [OF Inr] assms(2,3) cost limit
      unfolding build_accepts_iff by simp
  qed
qed

definition sample_fee_answers :: fee_answers where
  "sample_fee_answers = (Inr [20000000000, 30000000000], Inr 2000000000, 0)"

definition sample_fill_params :: transaction_params where
  "sample_fill_params =
     \<lparr>tp_from = 1, tp_to = 96, tp_calldata = [], tp_value = 0, tp_chain_id = 1,
      tp_max_fee_per_gas = 62000000000, tp_max_priority_fee_per_gas = 2000000000,
      tp_gas_limit = 200000, tp_nonce = 7\<rparr>"

lemma sample_estimate:
  "snd (GasOracle_estimate_fill_cost 0 sample_fee_answers 200000 Low (GasOracle_with_defaults Ethereum)) =
     Inr \<lparr>ge_gas_price = \<lparr>gp_base_fee = 30000000000, gp_priority_fee = 2000000000,
          gp_max_fee_per_gas = 62000000000, gp_level = Low\<rparr>,
        ge_gas_limit = 200000, ge_total_cost_wei = 12400000000000000\<rparr>"
  by (simp add: GasOracle_estimate_fill_cost_def GasOracle_get_gas_price_def GasOracle_fetch_fee_data_def
      GasOracle_fetch_from_provider_def GasOracle_fetch_base_fee_def GasOracle_fetch_priority_fee_def
      GasOracle_with_defaults_def GasOracle_new_def GasOracleConfig_default_def sample_fee_answers_def
      apply_urgency_def compute_max_fee_def checked_mul_def checked_add_def max_def word_le_nat_alt Let_def)

theorem oracle_priced_fill_builds_witness:
  "\<exists>tx. TransactionBuilder_build sample_fill_params TransactionBuilder_with_defaults = Inr tx
     \<and> tr_nonce tx = Some 7 \<and> tr_max_fee_per_gas tx = Some 62000000000"
proof -
  have "\<not> (bd_max_gas_limit BuilderConfig_default < tp_gas_limit sample_fill_params
      \<or> bd_max_fee_cap BuilderConfig_default < tp_max_fee_per_gas sample_fill_params
      \<or> tp_to sample_fill_params = address_zero)"
    by (simp add: BuilderConfig_default_def sample_fill_params_def word_less_nat_alt)
  moreover note oracle_priced_fill_builds [OF sample_estimate, of sample_fill_params TransactionBuilder_with_defaults]
  ultimately show ?thesis
    by (cases "TransactionBuilder_build sample_fill_params TransactionBuilder_with_defaults")
       (simp_all add: sample_fill_params_def TransactionBuilder_with_defaults_def TransactionBuilder_new_def)
qed

end
