(* ===== verification/Wallet.thy ===== *)
theory Wallet
  imports Types
begin

text \<open>
  The wallet manager, \<open>phantom-execution/src/wallet.rs\<close>.  Alloy's signers are a parameter type
  \<open>'k\<close> with the parser of a private key and the address of a signer, and the parser of a URL is an
  argument where it is used; each parser answers a value or the text of its error.
\<close>

section \<open>Wallets\<close>

record wallet_config =
  wc_max_wallets :: nat

definition WalletConfig_default :: wallet_config where
  "WalletConfig_default = \<lparr>wc_max_wallets = 10\<rparr>"

record wallet_info =
  wi_address :: address
  wi_label :: string

record 'k wallet_entry =
  we_signer :: 'k
  we_label :: string

record 'k wallet_manager =
  wm_wallets :: "(address, 'k wallet_entry) dashmap"
  wm_config :: wallet_config

definition WalletManager_new :: "wallet_config \<Rightarrow> 'k wallet_manager" where
  "WalletManager_new config = \<lparr>wm_wallets = dm_empty, wm_config = config\<rparr>"

definition WalletManager_with_defaults :: "'k wallet_manager" where
  "WalletManager_with_defaults = WalletManager_new WalletConfig_default"

definition WalletManager_import_wallet ::
    "(string \<Rightarrow> string + 'k) \<Rightarrow> ('k \<Rightarrow> address) \<Rightarrow> string \<Rightarrow> string \<Rightarrow> 'k wallet_manager \<Rightarrow>
     'k wallet_manager \<times> (execution_error + address)" where
  "WalletManager_import_wallet parse address_of private_key_hex label wm =
     (if wc_max_wallets (wm_config wm) \<le> dm_len (wm_wallets wm)
      then (wm, Inl (NonceError (Fmt ''wallet limit reached (max {})''
        [Num (int (wc_max_wallets (wm_config wm)))])))
      else case parse private_key_hex of
        Inl e \<Rightarrow> (wm, Inl (NonceError (Fmt ''invalid private key: {e}'' [Str e])))
      | Inr signer \<Rightarrow>
          let address = address_of signer in
          (wm\<lparr>wm_wallets := dm_insert address \<lparr>we_signer = signer, we_label = label\<rparr> (wm_wallets wm)\<rparr>,
           Inr address))"

definition WalletManager_get_signer :: "address \<Rightarrow> 'k wallet_manager \<Rightarrow> execution_error + 'k" where
  "WalletManager_get_signer address wm =
     (case dm_get address (wm_wallets wm) of
        Some entry \<Rightarrow> Inr (we_signer entry)
      | None \<Rightarrow> Inl (NonceError (Fmt ''wallet not found: {address}'' [Addr address])))"

text \<open>\<open>'k \<Rightarrow> 'w\<close> is \<open>EthereumWallet::from\<close>.\<close>

definition WalletManager_get_ethereum_wallet ::
    "('k \<Rightarrow> 'w) \<Rightarrow> address \<Rightarrow> 'k wallet_manager \<Rightarrow> execution_error + 'w" where
  "WalletManager_get_ethereum_wallet from_signer address wm =
     (case WalletManager_get_signer address wm of
        Inl e \<Rightarrow> Inl e
      | Inr signer \<Rightarrow> Inr (from_signer signer))"

definition WalletManager_prepare_signing ::
    "('k \<Rightarrow> 'w) \<Rightarrow> (string \<Rightarrow> string + 'u) \<Rightarrow> address \<Rightarrow> string \<Rightarrow> 'k wallet_manager \<Rightarrow>
     execution_error + 'w \<times> 'u" where
  "WalletManager_prepare_signing from_signer parse_url address rpc_url wm =
     (case WalletManager_get_ethereum_wallet from_signer address wm of
        Inl e \<Rightarrow> Inl e
      | Inr wallet \<Rightarrow>
          (case parse_url rpc_url of
             Inl e \<Rightarrow> Inl (NonceError (Fmt ''invalid RPC URL: {e}'' [Str e]))
           | Inr url \<Rightarrow> Inr (wallet, url)))"

definition WalletManager_remove_wallet :: "address \<Rightarrow> 'k wallet_manager \<Rightarrow> 'k wallet_manager \<times> bool" where
  "WalletManager_remove_wallet address wm =
     (if dm_contains address (wm_wallets wm)
      then (wm\<lparr>wm_wallets := dm_remove address (wm_wallets wm)\<rparr>, True)
      else (wm, False))"

definition WalletManager_list_wallets :: "'k wallet_manager \<Rightarrow> wallet_info list" where
  "WalletManager_list_wallets wm =
     map (\<lambda>(address, entry). \<lparr>wi_address = address, wi_label = we_label entry\<rparr>) (dm_iter (wm_wallets wm))"

definition WalletManager_wallet_count :: "'k wallet_manager \<Rightarrow> nat" where
  "WalletManager_wallet_count wm = dm_len (wm_wallets wm)"

definition WalletManager_is_empty :: "'k wallet_manager \<Rightarrow> bool" where
  "WalletManager_is_empty wm \<longleftrightarrow> dm_len (wm_wallets wm) = 0"

definition WalletManager_has_wallet :: "address \<Rightarrow> 'k wallet_manager \<Rightarrow> bool" where
  "WalletManager_has_wallet address wm \<longleftrightarrow> dm_contains address (wm_wallets wm)"

section \<open>Runs of the manager\<close>

inductive wallet_step ::
    "(string \<Rightarrow> string + 'k) \<Rightarrow> ('k \<Rightarrow> address) \<Rightarrow> 'k wallet_manager \<Rightarrow> 'k wallet_manager \<Rightarrow> bool"
  for parse address_of where
  import_key: "wallet_step parse address_of wm (fst (WalletManager_import_wallet parse address_of key label wm))"
| remove_key: "wallet_step parse address_of wm (fst (WalletManager_remove_wallet address wm))"

text \<open>Every signer is stored under its own address.\<close>

definition wallets_wf :: "('k \<Rightarrow> address) \<Rightarrow> 'k wallet_manager \<Rightarrow> bool" where
  "wallets_wf address_of wm \<longleftrightarrow> dm_wf (wm_wallets wm)
     \<and> (\<forall>a entry. dm_get a (wm_wallets wm) = Some entry \<longrightarrow> address_of (we_signer entry) = a)"

lemma wallets_wf_ops [wf_intros]:
  "wallets_wf address_of (WalletManager_new config)"
  "wallets_wf address_of wm \<Longrightarrow> wallets_wf address_of (fst (WalletManager_import_wallet parse address_of key label wm))"
  "wallets_wf address_of wm \<Longrightarrow> wallets_wf address_of (fst (WalletManager_remove_wallet address wm))"
  by (auto simp: wallets_wf_def WalletManager_new_def WalletManager_import_wallet_def Let_def
      WalletManager_remove_wallet_def intro: wf_intros split: sum.split if_splits)

interpretation wallets: capped_store "wallet_step parse address_of" WalletManager_wallet_count
    "\<lambda>wm. wc_max_wallets (wm_config wm)" "wallets_wf address_of" for parse address_of
proof unfold_locales
  fix wm wm' assume step: "wallet_step parse address_of wm wm'"
  then show "wc_max_wallets (wm_config wm') = wc_max_wallets (wm_config wm)"
    by cases (auto simp: WalletManager_import_wallet_def WalletManager_remove_wallet_def Let_def split: sum.split)
  assume wf: "wallets_wf address_of wm"
  from step wf show "wallets_wf address_of wm'"
    by cases (auto intro: wallets_wf_ops)
  from step show "WalletManager_wallet_count wm' \<le> WalletManager_wallet_count wm
      \<or> WalletManager_wallet_count wm' \<le> wc_max_wallets (wm_config wm)"
  proof cases
    case (import_key key label)
    then show ?thesis
      using wf by (auto simp: WalletManager_wallet_count_def WalletManager_import_wallet_def Let_def
          wallets_wf_def dm.length_put split: sum.split if_splits)
  next
    case (remove_key address)
    then show ?thesis
      using wf by (auto simp: WalletManager_wallet_count_def WalletManager_remove_wallet_def wallets_wf_def
          dm.length_remove)
  qed
qed

text \<open>
  After any sequence of imports and removals the manager holds at most the configured number of
  wallets, and the signer it hands out for an address signs for exactly that address; an import
  that succeeds makes the key available under the returned address.
\<close>

theorem signers_match_addresses:
  assumes "(wallet_step parse address_of)\<^sup>*\<^sup>* (WalletManager_new config) wm"
  shows "WalletManager_wallet_count wm \<le> wc_max_wallets config
    \<and> (case WalletManager_get_signer a wm of
         Inr signer \<Rightarrow> address_of signer = a \<and> WalletManager_has_wallet a wm
       | Inl _ \<Rightarrow> \<not> WalletManager_has_wallet a wm)
    \<and> (case WalletManager_import_wallet parse address_of key label wm of
         (wm', Inr address) \<Rightarrow> WalletManager_wallet_count wm < wc_max_wallets config
           \<and> (\<exists>signer. parse key = Inr signer \<and> address = address_of signer
               \<and> WalletManager_get_signer address wm' = Inr signer)
       | (wm', Inl _) \<Rightarrow> wm' = wm \<and> (WalletManager_wallet_count wm = wc_max_wallets config \<or> (\<exists>e. parse key = Inl e)))"
proof -
  have new: "WalletManager_wallet_count (WalletManager_new config) \<le> wc_max_wallets (wm_config (WalletManager_new config))"
    "wm_config (WalletManager_new config) = config"
    by (simp_all add: WalletManager_new_def WalletManager_wallet_count_def)
  have wf: "wallets_wf address_of wm"
    and "wc_max_wallets (wm_config wm) = wc_max_wallets (wm_config (WalletManager_new config :: 'a wallet_manager))"
    using wallets.run_inv [OF assms wallets_wf_ops(1)] by auto
  then have cap: "wc_max_wallets (wm_config wm) = wc_max_wallets config"
    by (simp only: new(2))
  have count: "WalletManager_wallet_count wm \<le> wc_max_wallets config"
    using wallets.run_within_cap [OF assms wallets_wf_ops(1) new(1)] cap by simp
  then show ?thesis
    using wf by (auto simp: wallets_wf_def WalletManager_get_signer_def WalletManager_has_wallet_def
        WalletManager_import_wallet_def WalletManager_wallet_count_def cap Let_def
        split: option.split sum.split)
qed

text \<open>Keys of one letter each, whose signer is their number.\<close>

fun toy_parse :: "string \<Rightarrow> string + nat" where
  "toy_parse [c] = Inr (of_char c)"
| "toy_parse _ = Inl ''odd number of digits''"

definition two_wallets :: "nat wallet_manager" where
  "two_wallets = fst (WalletManager_import_wallet toy_parse of_nat ''b'' ''second''
     (fst (WalletManager_import_wallet toy_parse of_nat ''a'' ''first'' (WalletManager_new \<lparr>wc_max_wallets = 2\<rparr>))))"

lemma two_wallets_run: "(wallet_step toy_parse of_nat)\<^sup>*\<^sup>* (WalletManager_new \<lparr>wc_max_wallets = 2\<rparr>) two_wallets"
  unfolding two_wallets_def
  by (rule rtranclp.rtrancl_into_rtrancl [OF r_into_rtranclp]) (rule wallet_step.import_key)+

theorem signers_match_addresses_witness:
  "WalletManager_wallet_count two_wallets \<le> 2
   \<and> (\<exists>signer. WalletManager_get_signer 97 two_wallets = Inr signer \<and> of_nat signer = (97 :: address))
   \<and> WalletManager_import_wallet toy_parse of_nat ''c'' ''third'' two_wallets
      = (two_wallets, Inl (NonceError (Fmt ''wallet limit reached (max {})'' [Num 2])))"
proof -
  note run = signers_match_addresses [OF two_wallets_run, of 97 "''c''" "''third''"]
  have "WalletManager_has_wallet 97 two_wallets"
    by (simp add: two_wallets_def WalletManager_has_wallet_def WalletManager_import_wallet_def
        WalletManager_new_def Let_def dm_iter_def dm_insert_def dm_get_def)
  with run have "\<exists>signer. WalletManager_get_signer 97 two_wallets = Inr signer \<and> of_nat signer = (97 :: address)"
    by (auto split: sum.splits)
  moreover have "WalletManager_import_wallet toy_parse of_nat ''c'' ''third'' two_wallets
      = (two_wallets, Inl (NonceError (Fmt ''wallet limit reached (max {})'' [Num 2])))"
    by (simp add: two_wallets_def WalletManager_import_wallet_def WalletManager_new_def Let_def
        dm_iter_def dm_insert_def)
  ultimately show ?thesis using run by simp
qed

end
