(* ===== verification/Relay.thy ===== *)
theory Relay
  imports Types
begin

text \<open>
  MEV relays, \<open>phantom-execution/src/relay.rs\<close>: the JSON-RPC call with its retries, the Flashbots
  client and the manager that sends to all relays.  The HTTP answers to the successive requests
  and the encoder \<open>hex::encode\<close> of the \<open>hex\<close> crate are arguments.
\<close>

section \<open>Requests and configuration\<close>

record relay_config =
  rl_relay_url :: string
  rl_name :: string
  rl_timeout_ms :: u64
  rl_max_retries :: u32
  rl_enabled :: bool

definition RelayConfig_default :: relay_config where
  "RelayConfig_default =
     \<lparr>rl_relay_url = ''https://relay.flashbots.net'', rl_name = ''flashbots'', rl_timeout_ms = 5000,
      rl_max_retries = 2, rl_enabled = True\<rparr>"

record bundle_request =
  br_transactions :: "bytes list"
  br_target_block :: u64
  br_min_timestamp :: "u64 option"
  br_max_timestamp :: "u64 option"


definition BundleRequest_with_timestamps :: "u64 \<Rightarrow> u64 \<Rightarrow> bundle_request \<Rightarrow> bundle_request" where
  "BundleRequest_with_timestamps min_ts max_ts b =
     b\<lparr>br_min_timestamp := Some min_ts, br_max_timestamp := Some max_ts\<rparr>"


definition BundleRequest_is_empty :: "bundle_request \<Rightarrow> bool" where
  "BundleRequest_is_empty b \<longleftrightarrow> br_transactions b = []"

record bundle_response =
  bs_bundle_hash :: b256

text \<open>A relay is the record of its methods; \<open>None\<close> is a task that panics.\<close>

record mev_relay =
  mr_name :: string
  mr_relay_url :: string
  mr_send_bundle :: "bundle_request \<Rightarrow> (execution_error + bundle_response) option"
  mr_send_private_transaction :: "bytes \<Rightarrow> u64 \<Rightarrow> (execution_error + b256) option"

section \<open>The JSON-RPC call\<close>

text \<open>
  What can happen to a request: it is not answered, it is answered with an HTTP status that is
  not a success (with a body, where that can be read), with a body that is not a JSON-RPC
  response, or with a response that may carry the message of an error and a result.
\<close>

datatype 'r http_answer =
    Request_Failed string
  | Http_Failure string "string option"
  | Unparsable string
  | Rpc_Response (rpc_error: "string option") (rpc_result: "'r option")

fun rpc_loop ::
    "(nat \<Rightarrow> 'r http_answer) \<Rightarrow> execution_error option \<Rightarrow> nat list \<Rightarrow> nat \<Rightarrow> nat \<times> (execution_error + 'r)" where
  "rpc_loop answers last_error [] sent =
     (sent, Inl (case last_error of
        Some e \<Rightarrow> e
      | None \<Rightarrow> RelayFailed (lit ''relay request failed after retries'')))"
| "rpc_loop answers last_error (attempt # attempts) sent =
     (case answers attempt of
        Http_Failure status body \<Rightarrow>
          rpc_loop answers (Some (RelayFailed (Fmt ''relay returned HTTP {status}: {body}''
            [Str status, Str (case body of Some b \<Rightarrow> b | None \<Rightarrow> [])]))) attempts (Suc sent)
      | Unparsable e \<Rightarrow>
          (Suc sent, Inl (RelayFailed (Fmt ''failed to parse relay response: {e}'' [Str e])))
      | Rpc_Response (Some msg) _ \<Rightarrow>
          (Suc sent, Inl (RelayFailed (Fmt ''relay RPC error: {}'' [Str msg])))
      | Rpc_Response None (Some r) \<Rightarrow> (Suc sent, Inr r)
      | Rpc_Response None None \<Rightarrow> (Suc sent, Inl (RelayFailed (lit ''relay returned null result'')))
      | Request_Failed e \<Rightarrow>
          rpc_loop answers (Some (RelayFailed (Fmt ''relay request failed: {e}'' [Str e]))) attempts (Suc sent))"

text \<open>\<open>for attempt in 0..=max_retries\<close>; the first component is the number of requests sent.\<close>

definition FlashbotsRelay_rpc_call ::
    "relay_config \<Rightarrow> (nat \<Rightarrow> 'r http_answer) \<Rightarrow> nat \<times> (execution_error + 'r)" where
  "FlashbotsRelay_rpc_call config answers =
     rpc_loop answers None [0..<Suc (unat (rl_max_retries config))] 0"

text \<open>The answers that end the call, what they make of it, and the error of the others.\<close>

fun decisive :: "'r http_answer \<Rightarrow> bool" where
  "decisive (Request_Failed _) = False"
| "decisive (Http_Failure _ _) = False"
| "decisive _ = True"

fun verdict :: "'r http_answer \<Rightarrow> execution_error + 'r" where
  "verdict (Request_Failed e) = Inl (RelayFailed (Fmt ''relay request failed: {e}'' [Str e]))"
| "verdict (Http_Failure status body) = Inl (RelayFailed (Fmt ''relay returned HTTP {status}: {body}''
     [Str status, Str (case body of Some b \<Rightarrow> b | None \<Rightarrow> [])]))"
| "verdict (Unparsable e) = Inl (RelayFailed (Fmt ''failed to parse relay response: {e}'' [Str e]))"
| "verdict (Rpc_Response (Some msg) _) = Inl (RelayFailed (Fmt ''relay RPC error: {}'' [Str msg]))"
| "verdict (Rpc_Response None None) = Inl (RelayFailed (lit ''relay returned null result''))"
| "verdict (Rpc_Response None (Some r)) = Inr r"

lemma rpc_loop_step:
  "rpc_loop answers last_error (attempt # attempts) sent =
     (if decisive (answers attempt) then (Suc sent, verdict (answers attempt))
      else rpc_loop answers (Some (projl (verdict (answers attempt)))) attempts (Suc sent))"
  by (cases "answers attempt" rule: verdict.cases) simp_all

lemma verdict_failure: "\<not> decisive a \<Longrightarrow> Inl (projl (verdict a)) = verdict a"
  by (cases a) simp_all

lemma rpc_loop_result:
  "rpc_loop answers last_error (attempts @ [k]) sent =
     (case find (\<lambda>i. decisive (answers i)) (attempts @ [k]) of
        Some i \<Rightarrow> (sent + Suc (length (takeWhile (\<lambda>i. \<not> decisive (answers i)) (attempts @ [k]))), verdict (answers i))
      | None \<Rightarrow> (sent + Suc (length attempts), verdict (answers k)))"
proof (induction attempts arbitrary: last_error sent)
  case Nil
  then show ?case
    by (simp add: rpc_loop_step verdict_failure del: rpc_loop.simps(2))
next
  case (Cons a attempts)
  then show ?case
    by (simp add: rpc_loop_step del: rpc_loop.simps(2) split: option.split)
qed

lemma takeWhile_upt: "find P [0..<n] = Some i \<Longrightarrow> length (takeWhile (\<lambda>j. \<not> P j) [0..<n]) = i"
proof -
  assume "find P [0..<n] = Some i"
  then have i: "i < n" "P i" "\<forall>j < i. \<not> P j"
    by (auto simp: find_Some_iff)
  then have "[0..<n] = [0..<i] @ i # [Suc i..<n]"
    by (metis le_add1 less_imp_add_positive upt_add_eq_append upt_conv_Cons le0 add_0 less_imp_le_nat
        le_add_diff_inverse)
  moreover have "takeWhile (\<lambda>j. \<not> P j) ([0..<i] @ i # [Suc i..<n]) = [0..<i]"
    using i by (subst takeWhile_append2) auto
  ultimately show ?thesis by simp
qed

lemma rpc_call_result:
  "FlashbotsRelay_rpc_call config answers =
     (case find (\<lambda>i. decisive (answers i)) [0..<Suc (unat (rl_max_retries config))] of
        Some i \<Rightarrow> (Suc i, verdict (answers i))
      | None \<Rightarrow> (Suc (unat (rl_max_retries config)), verdict (answers (unat (rl_max_retries config)))))"
proof -
  let ?n = "unat (rl_max_retries config)" and ?P = "\<lambda>i. decisive (answers i)"
  have loop: "FlashbotsRelay_rpc_call config answers =
     (case find ?P [0..<Suc ?n] of
        Some i \<Rightarrow> (Suc (length (takeWhile (\<lambda>i. \<not> ?P i) [0..<Suc ?n])), verdict (answers i))
      | None \<Rightarrow> (Suc ?n, verdict (answers ?n)))"
    using rpc_loop_result [of answers None "[0..<?n]" ?n 0]
    by (simp add: FlashbotsRelay_rpc_call_def split: option.split)
  show ?thesis
    by (cases "find ?P [0..<Suc ?n]") (simp_all add: loop takeWhile_upt del: upt_Suc)
qed

text \<open>
  C32: A call to a relay always ends: it sends at most one request more than the configured retries.
  It stops at the first request that is answered at all with a success status and returns what
  that answer says; transport failures and error statuses are retried, and if there is nothing
  else the error is that of the last request.
\<close>

theorem rpc_call_contract:
  "FlashbotsRelay_rpc_call config answers =
     (case find (\<lambda>i. decisive (answers i)) [0..<Suc (unat (rl_max_retries config))] of
        Some i \<Rightarrow> (Suc i, verdict (answers i))
      | None \<Rightarrow> (Suc (unat (rl_max_retries config)), verdict (answers (unat (rl_max_retries config)))))
   \<and> fst (FlashbotsRelay_rpc_call config answers) \<le> Suc (unat (rl_max_retries config))"
  unfolding rpc_call_result by (auto simp: find_Some_iff simp del: upt_Suc split: option.split)

section \<open>The Flashbots client\<close>

text \<open>\<open>format!("{:x}", n)\<close>.\<close>

definition hex_digit :: "nat \<Rightarrow> char" where
  "hex_digit d = ''0123456789abcdef'' ! d"

fun lower_hex :: "nat \<Rightarrow> string" where
  "lower_hex n = (if n < 16 then [hex_digit n] else lower_hex (n div 16) @ [hex_digit (n mod 16)])"

declare lower_hex.simps [simp del]

record flashbots_bundle_params =
  fp_txs :: "string list"
  fp_block_number :: string
  fp_min_timestamp :: "u64 option"
  fp_max_timestamp :: "u64 option"

record flashbots_private_tx_params =
  ft_tx :: string
  ft_max_block_number :: string

record flashbots_relay =
  fr_config :: relay_config

text \<open>The HTTP client is built by \<open>reqwest\<close>, which may fail.\<close>

definition FlashbotsRelay_new :: "string + unit \<Rightarrow> relay_config \<Rightarrow> execution_error + flashbots_relay" where
  "FlashbotsRelay_new client config =
     (case client of
        Inl e \<Rightarrow> Inl (RelayFailed (Fmt ''failed to build HTTP client: {e}'' [Str e]))
      | Inr _ \<Rightarrow> Inr \<lparr>fr_config = config\<rparr>)"

definition bundle_params :: "(bytes \<Rightarrow> string) \<Rightarrow> bundle_request \<Rightarrow> flashbots_bundle_params" where
  "bundle_params hex_encode bundle =
     \<lparr>fp_txs = map (\<lambda>tx. ''0x'' @ hex_encode tx) (br_transactions bundle),
      fp_block_number = ''0x'' @ lower_hex (unat (br_target_block bundle)),
      fp_min_timestamp = br_min_timestamp bundle, fp_max_timestamp = br_max_timestamp bundle\<rparr>"

text \<open>
  \<open>http\<close> is the relay's endpoint: its answers to the successive requests with these parameters.
  The result of the call is the bundle hash of \<open>SendBundleResult\<close>.
\<close>

definition FlashbotsRelay_send_bundle ::
    "(bytes \<Rightarrow> string) \<Rightarrow> (flashbots_bundle_params \<Rightarrow> nat \<Rightarrow> b256 http_answer) \<Rightarrow> bundle_request \<Rightarrow>
     flashbots_relay \<Rightarrow> execution_error + bundle_response" where
  "FlashbotsRelay_send_bundle hex_encode http bundle fr =
     (if BundleRequest_is_empty bundle then Inl (RelayFailed (lit ''cannot send empty bundle''))
      else case snd (FlashbotsRelay_rpc_call (fr_config fr) (http (bundle_params hex_encode bundle))) of
        Inl e \<Rightarrow> Inl e
      | Inr bundle_hash \<Rightarrow> Inr \<lparr>bs_bundle_hash = bundle_hash\<rparr>)"

definition FlashbotsRelay_send_private_transaction ::
    "(bytes \<Rightarrow> string) \<Rightarrow> (flashbots_private_tx_params \<Rightarrow> nat \<Rightarrow> b256 http_answer) \<Rightarrow> bytes \<Rightarrow> u64 \<Rightarrow>
     flashbots_relay \<Rightarrow> execution_error + b256" where
  "FlashbotsRelay_send_private_transaction hex_encode http raw_tx max_block_number fr =
     snd (FlashbotsRelay_rpc_call (fr_config fr)
       (http \<lparr>ft_tx = ''0x'' @ hex_encode raw_tx, ft_max_block_number = ''0x'' @ lower_hex (unat max_block_number)\<rparr>))"

text \<open>Reading the encoded numbers back, as the relay does.\<close>

fun index_of :: "'a \<Rightarrow> 'a list \<Rightarrow> nat" where
  "index_of x [] = 0"
| "index_of x (y # ys) = (if x = y then 0 else Suc (index_of x ys))"

definition hex_value :: "char \<Rightarrow> nat" where
  "hex_value c = index_of c ''0123456789abcdef''"

definition parse_hex :: "string \<Rightarrow> nat" where
  "parse_hex s = foldl (\<lambda>n c. 16 * n + hex_value c) 0 s"

lemma hex_value_digit: "d < 16 \<Longrightarrow> hex_value (hex_digit d) = d"
proof -
  assume "d < 16"
  then have "d \<in> set [0..<16]" by simp
  moreover have "list_all (\<lambda>d. hex_value (hex_digit d) = d) [0..<16]"
    by (simp add: hex_value_def hex_digit_def upt_rec)
  ultimately show ?thesis by (simp only: list_all_iff)
qed

lemma parse_lower_hex [simp]: "parse_hex (lower_hex n) = n"
proof (induction n rule: lower_hex.induct)
  case (1 n)
  then show ?case
    by (subst lower_hex.simps) (simp add: parse_hex_def hex_value_digit)
qed







section \<open>The relay manager\<close>

definition FlashbotsRelay_relay ::
    "(bytes \<Rightarrow> string) \<Rightarrow> (flashbots_bundle_params \<Rightarrow> nat \<Rightarrow> b256 http_answer) \<Rightarrow>
     (flashbots_private_tx_params \<Rightarrow> nat \<Rightarrow> b256 http_answer) \<Rightarrow> flashbots_relay \<Rightarrow> mev_relay" where
  "FlashbotsRelay_relay hex_encode http_bundle http_tx fr =
     \<lparr>mr_name = rl_name (fr_config fr), mr_relay_url = rl_relay_url (fr_config fr),
      mr_send_bundle = (\<lambda>bundle. Some (FlashbotsRelay_send_bundle hex_encode http_bundle bundle fr)),
      mr_send_private_transaction = (\<lambda>raw_tx max_block.
        Some (FlashbotsRelay_send_private_transaction hex_encode http_tx raw_tx max_block fr))\<rparr>"

record relay_manager =
  rm_relays :: "mev_relay list"

definition RelayManager_new :: "mev_relay list \<Rightarrow> relay_manager" where
  "RelayManager_new relays = \<lparr>rm_relays = relays\<rparr>"

definition RelayManager_empty :: relay_manager where
  "RelayManager_empty = \<lparr>rm_relays = []\<rparr>"

definition RelayManager_add_relay :: "mev_relay \<Rightarrow> relay_manager \<Rightarrow> relay_manager" where
  "RelayManager_add_relay relay rm = rm\<lparr>rm_relays := rm_relays rm @ [relay]\<rparr>"

definition RelayManager_relay_count :: "relay_manager \<Rightarrow> nat" where
  "RelayManager_relay_count rm = length (rm_relays rm)"

definition RelayManager_is_empty :: "relay_manager \<Rightarrow> bool" where
  "RelayManager_is_empty rm \<longleftrightarrow> rm_relays rm = []"

definition RelayManager_relay_names :: "relay_manager \<Rightarrow> string list" where
  "RelayManager_relay_names rm = map mr_name (rm_relays rm)"

text \<open>
  The loop that joins the tasks in the order they were spawned: a task that panicked (\<open>None\<close>) has
  no result.  The name it reports is looked up again among the relays.
\<close>

fun join_results :: "mev_relay list \<Rightarrow> (string \<times> 'r) option list \<Rightarrow> (string \<times> 'r) list" where
  "join_results relays [] = []"
| "join_results relays (Some (name, result) # handles) =
     ((case find (\<lambda>r. mr_name r = name) relays of Some r \<Rightarrow> mr_name r | None \<Rightarrow> ''unknown''), result)
       # join_results relays handles"
| "join_results relays (None # handles) = join_results relays handles"

definition RelayManager_broadcast_bundle ::
    "bundle_request \<Rightarrow> relay_manager \<Rightarrow> (string \<times> (execution_error + bundle_response)) list" where
  "RelayManager_broadcast_bundle bundle rm =
     (if rm_relays rm = [] then []
      else join_results (rm_relays rm)
        (map (\<lambda>relay. map_option (Pair (mr_name relay)) (mr_send_bundle relay bundle)) (rm_relays rm)))"

definition RelayManager_broadcast_private_transaction ::
    "bytes \<Rightarrow> u64 \<Rightarrow> relay_manager \<Rightarrow> (string \<times> (execution_error + b256)) list" where
  "RelayManager_broadcast_private_transaction raw_tx max_block_number rm =
     (if rm_relays rm = [] then []
      else join_results (rm_relays rm)
        (map (\<lambda>relay. map_option (Pair (mr_name relay))
           (mr_send_private_transaction relay raw_tx max_block_number)) (rm_relays rm)))"

lemma join_results_sends:
  "set rs \<subseteq> set relays \<Longrightarrow>
   join_results relays (map (\<lambda>r. map_option (Pair (mr_name r)) (send r)) rs) =
     List.map_filter (\<lambda>r. map_option (Pair (mr_name r)) (send r)) rs"
proof (induction rs)
  case (Cons r rs)
  have "find (\<lambda>s. mr_name s = mr_name r) relays \<noteq> None"
    using Cons.prems by (auto simp: find_None_iff)
  then obtain s where "find (\<lambda>s. mr_name s = mr_name r) relays = Some s" "mr_name s = mr_name r"
    by (auto simp: find_Some_iff)
  with Cons show ?case
    by (cases "send r") (simp_all add: map_filter_simps)
qed (simp add: map_filter_simps)

text \<open>
  Broadcasting reaches every relay independently of the others: there is one result for each relay
  whose task does not panic, in the order of the relays and under the relay's own name, and it
  is what that relay answers on its own.  In particular a relay that fails changes no other
  result, and adding a relay only adds its result.
\<close>

theorem broadcast_isolated:
  "RelayManager_broadcast_bundle bundle rm =
     List.map_filter (\<lambda>r. map_option (Pair (mr_name r)) (mr_send_bundle r bundle)) (rm_relays rm)
   \<and> RelayManager_broadcast_private_transaction raw_tx block rm =
     List.map_filter (\<lambda>r. map_option (Pair (mr_name r)) (mr_send_private_transaction r raw_tx block)) (rm_relays rm)
   \<and> RelayManager_broadcast_bundle bundle (RelayManager_add_relay relay rm) =
     RelayManager_broadcast_bundle bundle rm
       @ (case mr_send_bundle relay bundle of Some result \<Rightarrow> [(mr_name relay, result)] | None \<Rightarrow> [])"
proof -
  have *: "RelayManager_broadcast_bundle bundle rm =
     List.map_filter (\<lambda>r. map_option (Pair (mr_name r)) (mr_send_bundle r bundle)) (rm_relays rm)" for rm
    by (simp add: RelayManager_broadcast_bundle_def join_results_sends map_filter_simps)
  have "RelayManager_broadcast_private_transaction raw_tx block rm =
     List.map_filter (\<lambda>r. map_option (Pair (mr_name r)) (mr_send_private_transaction r raw_tx block)) (rm_relays rm)"
    by (simp add: RelayManager_broadcast_private_transaction_def join_results_sends map_filter_simps)
  with * show ?thesis
    by (simp add: RelayManager_add_relay_def List.map_filter_def split: option.split)
qed

text \<open>
  A disabled relay is used like any other: nothing reads \<open>enabled\<close>.
\<close>

lemma disabled_relay_is_used:
  "FlashbotsRelay_send_bundle hex_encode http bundle \<lparr>fr_config = config\<lparr>rl_enabled := False\<rparr>\<rparr> =
   FlashbotsRelay_send_bundle hex_encode http bundle \<lparr>fr_config = config\<lparr>rl_enabled := True\<rparr>\<rparr>"
  by (simp add: FlashbotsRelay_send_bundle_def FlashbotsRelay_rpc_call_def)

end
