(* ===== verification/Block_Stream.thy ===== *)
theory Block_Stream
  imports Types
begin

text \<open>
  The background loops of \<open>phantom-chain\<close>: the block streamer (\<open>stream.rs\<close>) and the event
  subscriptions it drives (\<open>events.rs\<close>).  An iteration of a loop is a function of what the
  provider and the shutdown channel answer in it; a loop is the step relation of its
  iterations.  What a broadcast channel was sent is the list of the messages, which a
  receiver that does not lag sees in this order.
\<close>

section \<open>Loops that broadcast\<close>

text \<open>
  What the loops share: an iteration keeps an invariant and appends to what was sent, and all it
  appends is of a kind.
\<close>

locale broadcaster =
  fixes step :: "'s \<Rightarrow> 's \<Rightarrow> bool"
    and sent :: "'s \<Rightarrow> 'e list"
    and inv :: "'s \<Rightarrow> bool"
    and ok :: "'e \<Rightarrow> bool"
  assumes preserves: "step s s' \<Longrightarrow> inv s \<Longrightarrow> inv s'"
    and appends: "step s s' \<Longrightarrow> inv s \<Longrightarrow> \<exists>new. sent s' = sent s @ new \<and> list_all ok new"
begin

lemma run: "step\<^sup>*\<^sup>* s s' \<Longrightarrow> inv s \<Longrightarrow> inv s' \<and> (\<exists>new. sent s' = sent s @ new \<and> list_all ok new)"
proof (induction rule: rtranclp_induct)
  case base
  then show ?case by simp
next
  case (step t u)
  then obtain new where "inv t" "sent t = sent s @ new" "list_all ok new" by blast
  moreover obtain more where "sent u = sent t @ more" "list_all ok more"
    using appends [OF step.hyps(2) \<open>inv t\<close>] by blast
  ultimately show ?case
    using preserves [OF step.hyps(2) \<open>inv t\<close>] by (auto intro!: exI [of _ "new @ more"])
qed

lemma run_ok: "step\<^sup>*\<^sup>* s s' \<Longrightarrow> inv s \<Longrightarrow> list_all ok (sent s) \<Longrightarrow> list_all ok (sent s')"
  using run by fastforce

end

section \<open>The block streamer\<close>

text \<open>A \<open>Duration\<close> is its number of nanoseconds.\<close>

type_synonym duration = nat

definition duration_max :: duration where
  "duration_max = (2 ^ 64 - 1) * 1000000000 + 999999999"

definition DEFAULT_POLL_INTERVAL :: duration where
  "DEFAULT_POLL_INTERVAL = 1000 * 1000000"

definition DEFAULT_CHANNEL_CAPACITY :: nat where
  "DEFAULT_CHANNEL_CAPACITY = 256"

definition MAX_CONSECUTIVE_ERRORS :: u32 where
  "MAX_CONSECUTIVE_ERRORS = 5"

definition MAX_BACKOFF :: duration where
  "MAX_BACKOFF = 30 * 1000000000"

record block_notification =
  bn_chain_id :: chain_id
  bn_block_number :: u64
  bn_block_hash :: b256
  bn_timestamp :: u64
  bn_parent_hash :: b256
  bn_base_fee_per_gas :: "u64 option"

record block_streamer_config =
  bc_poll_interval :: duration
  bc_channel_capacity :: nat

definition BlockStreamerConfig_default :: block_streamer_config where
  "BlockStreamerConfig_default =
     \<lparr>bc_poll_interval = DEFAULT_POLL_INTERVAL, bc_channel_capacity = DEFAULT_CHANNEL_CAPACITY\<rparr>"

text \<open>The fields of a block header that are read.\<close>

record block_header =
  bh_hash :: b256
  bh_timestamp :: u64
  bh_parent_hash :: b256
  bh_base_fee_per_gas :: "u64 option"

text \<open>What the provider and the channel answer to a poll.\<close>

record poll_answers =
  pa_number :: "string + u64"
  pa_block :: "u64 \<Rightarrow> string + block_header option"
  pa_receiver_count :: nat

definition poll_latest_block ::
    "poll_answers \<Rightarrow> chain_id \<Rightarrow> block_notification list \<times> u64 option \<Rightarrow>
     (block_notification list \<times> u64 option) \<times> (chain_error + unit)" where
  "poll_latest_block a chain_id = (\<lambda>(sender, last_block).
     case pa_number a of
       Inl e \<Rightarrow> ((sender, last_block),
         Inl (ProviderError chain_id (Fmt ''failed to get block number: {e}'' [Str e])))
     | Inr current_number \<Rightarrow>
         if (case last_block of Some seen \<Rightarrow> current_number \<le> seen | None \<Rightarrow> False)
         then ((sender, last_block), Inr ())
         else (case pa_block a current_number of
             Inl e \<Rightarrow> ((sender, last_block), Inl (ProviderError chain_id
               (Fmt ''failed to get block {current_number}: {e}'' [Num (uint current_number), Str e])))
           | Inr None \<Rightarrow> ((sender, last_block), Inl (ProviderError chain_id
               (Fmt ''block {current_number} not found'' [Num (uint current_number)])))
           | Inr (Some header) \<Rightarrow>
               let notification =
                     \<lparr>bn_chain_id = chain_id, bn_block_number = current_number,
                      bn_block_hash = bh_hash header, bn_timestamp = bh_timestamp header,
                      bn_parent_hash = bh_parent_hash header,
                      bn_base_fee_per_gas = bh_base_fee_per_gas header\<rparr>
               in ((if 0 < pa_receiver_count a then sender @ [notification] else sender,
                    Some current_number), Inr ())))"

definition calculate_backoff :: "u32 \<Rightarrow> duration \<Rightarrow> duration" where
  "calculate_backoff consecutive_errors base_interval =
     (let multiplier = min (2 ^ unat (min consecutive_errors MAX_CONSECUTIVE_ERRORS)) (2 ^ 64 - 1);
          backoff = min (base_interval * (multiplier mod 2 ^ 32)) duration_max
      in min backoff MAX_BACKOFF)"

text \<open>
  The state of the loop of \<open>start\<close>: \<open>st_sleep\<close> is how long it last slept, \<open>st_running\<close> whether it
  goes on.  \<open>shutdown\<close> is the signal at the start of the iteration, \<open>shutdown_asleep\<close> one that
  arrives during its sleep.
\<close>

record streamer_state =
  st_sent :: "block_notification list"
  st_last_block :: "u64 option"
  st_consecutive_errors :: u32
  st_sleep :: duration
  st_running :: bool

definition BlockStreamer_initial :: streamer_state where
  "BlockStreamer_initial =
     \<lparr>st_sent = [], st_last_block = None, st_consecutive_errors = 0, st_sleep = 0, st_running = True\<rparr>"

definition BlockStreamer_iteration ::
    "chain_id \<Rightarrow> block_streamer_config \<Rightarrow> bool \<Rightarrow> poll_answers \<Rightarrow> bool \<Rightarrow> streamer_state \<Rightarrow> streamer_state" where
  "BlockStreamer_iteration chain_id config shutdown a shutdown_asleep s =
     (if shutdown then s\<lparr>st_running := False\<rparr>
      else case poll_latest_block a chain_id (st_sent s, st_last_block s) of
        ((sender, last_block), Inr _) \<Rightarrow>
          s\<lparr>st_sent := sender, st_last_block := last_block, st_consecutive_errors := 0,
            st_sleep := bc_poll_interval config, st_running := \<not> shutdown_asleep\<rparr>
      | ((sender, last_block), Inl e) \<Rightarrow>
          let errors = sat_add (st_consecutive_errors s) 1 in
          s\<lparr>st_sent := sender, st_last_block := last_block, st_consecutive_errors := errors,
            st_sleep := calculate_backoff errors (bc_poll_interval config),
            st_running := \<not> shutdown_asleep\<rparr>)"

inductive streamer_step :: "chain_id \<Rightarrow> block_streamer_config \<Rightarrow> streamer_state \<Rightarrow> streamer_state \<Rightarrow> bool"
  for chain_id config where
  iteration: "st_running s \<Longrightarrow>
    streamer_step chain_id config s (BlockStreamer_iteration chain_id config shutdown a shutdown_asleep s)"

section \<open>The order of the notifications\<close>

lemma poll_cases:
  obtains (failed) e where "poll_latest_block a chain_id (sender, last_block) = ((sender, last_block), Inl e)"
  | (old) "poll_latest_block a chain_id (sender, last_block) = ((sender, last_block), Inr ())"
      "\<exists>n seen. pa_number a = Inr n \<and> last_block = Some seen \<and> n \<le> seen"
  | (new) n header msg where
      "pa_number a = Inr n" "pa_block a n = Inr (Some header)"
      "\<And>seen. last_block = Some seen \<Longrightarrow> seen < n"
      "bn_block_number msg = n" "bn_chain_id msg = chain_id" "bn_block_hash msg = bh_hash header"
      "poll_latest_block a chain_id (sender, last_block) =
         ((if 0 < pa_receiver_count a then sender @ [msg] else sender, Some n), Inr ())"
proof (cases "pa_number a")
  case (Inl e)
  then show thesis using failed by (simp add: poll_latest_block_def)
next
  case (Inr n)
  show thesis
  proof (cases "case last_block of Some seen \<Rightarrow> n \<le> seen | None \<Rightarrow> False")
    case True
    with Inr show thesis using old by (auto simp: poll_latest_block_def split: option.splits)
  next
    case False
    then have later: "\<And>seen. last_block = Some seen \<Longrightarrow> seen < n" by (auto simp: not_le)
    show thesis
    proof (cases "pa_block a n")
      case (Inl e)
      with Inr False show thesis using failed by (simp add: poll_latest_block_def)
    next
      case (Inr h)
      show thesis
      proof (cases h)
        case None
        with Inr \<open>pa_number a = Inr n\<close> False show thesis using failed by (simp add: poll_latest_block_def)
      next
        case (Some header)
        with Inr \<open>pa_number a = Inr n\<close> False show thesis
          by (intro new [OF \<open>pa_number a = Inr n\<close> _ later]) (auto simp: poll_latest_block_def Let_def)
      qed
    qed
  qed
qed

text \<open>The blocks sent so far increase and none is beyond the last block seen.\<close>

definition stream_inv :: "streamer_state \<Rightarrow> bool" where
  "stream_inv s \<longleftrightarrow> sorted_wrt (<) (map bn_block_number (st_sent s))
     \<and> (\<forall>n \<in> set (st_sent s). \<exists>seen. st_last_block s = Some seen \<and> bn_block_number n \<le> seen)"

lemma stream_inv_initial: "stream_inv BlockStreamer_initial"
  by (simp add: stream_inv_def BlockStreamer_initial_def)

lemma iteration_cases:
  obtains (kept) "st_sent (BlockStreamer_iteration chain_id config sh a asleep s) = st_sent s"
      "st_last_block (BlockStreamer_iteration chain_id config sh a asleep s) = st_last_block s"
  | (advanced) n new where
      "st_last_block (BlockStreamer_iteration chain_id config sh a asleep s) = Some n"
      "\<And>seen. st_last_block s = Some seen \<Longrightarrow> seen < n"
      "st_sent (BlockStreamer_iteration chain_id config sh a asleep s) = st_sent s @ new"
      "new = [] \<or> (\<exists>msg. new = [msg] \<and> bn_block_number msg = n \<and> bn_chain_id msg = chain_id)"
proof (cases sh)
  case True
  then show thesis using kept by (simp add: BlockStreamer_iteration_def)
next
  case False
  show thesis
  proof (cases rule: poll_cases [of a chain_id "st_sent s" "st_last_block s"])
    case (failed e)
    with False show thesis using kept by (simp add: BlockStreamer_iteration_def Let_def)
  next
    case old
    with False show thesis using kept by (simp add: BlockStreamer_iteration_def)
  next
    case (new n header msg)
    with False show thesis
      by (intro advanced [of n "if 0 < pa_receiver_count a then [msg] else []"])
         (auto simp: BlockStreamer_iteration_def)
  qed
qed

interpretation stream: broadcaster "streamer_step chain_id config" st_sent stream_inv
    "\<lambda>n. bn_chain_id n = chain_id" for chain_id config
proof unfold_locales
  fix s s' assume step: "streamer_step chain_id config s s'" and inv: "stream_inv s"
  from step obtain sh a asleep where s': "s' = BlockStreamer_iteration chain_id config sh a asleep s"
    by (auto elim: streamer_step.cases)
  have "stream_inv s' \<and> (\<exists>new. st_sent s' = st_sent s @ new \<and> list_all (\<lambda>n. bn_chain_id n = chain_id) new)"
  proof (cases rule: iteration_cases [of chain_id config sh a asleep s])
    case kept
    with inv show ?thesis by (simp add: s' stream_inv_def)
  next
    case (advanced n new)
    have below: "\<exists>seen. st_last_block s = Some seen \<and> bn_block_number m \<le> seen \<and> seen < n" if "m \<in> set (st_sent s)" for m
      using inv that advanced(2) by (fastforce simp: stream_inv_def)
    then have "bn_block_number m < n" if "m \<in> set (st_sent s)" for m
      using that by (fastforce intro: le_less_trans)
    with inv advanced show ?thesis
      by (auto simp: s' stream_inv_def sorted_wrt_append intro: less_imp_le)
  qed
  then show "stream_inv s'" "\<exists>new. st_sent s' = st_sent s @ new \<and> list_all (\<lambda>n. bn_chain_id n = chain_id) new"
    by blast+
qed

section \<open>Errors and backoff\<close>

lemma calculate_backoff_value:
  "calculate_backoff n base = min (min (base * 2 ^ min (unat n) 5) duration_max) MAX_BACKOFF"
proof -
  define k where "k = min (unat n) 5"
  have k: "unat (min n MAX_CONSECUTIVE_ERRORS) = k"
    by (simp add: k_def MAX_CONSECUTIVE_ERRORS_def min_def word_le_nat_alt)
  have "(2::nat) ^ k \<le> 2 ^ 5" by (intro power_increasing) (simp_all add: k_def)
  then have "min (2 ^ k) (2 ^ 64 - 1) mod 2 ^ 32 = (2::nat) ^ k"
    by (simp add: min_def)
  then show ?thesis
    unfolding calculate_backoff_def Let_def k k_def [symmetric] by (simp only:)
qed


text \<open>Iterations without a shutdown.\<close>

definition iterate_polls ::
    "chain_id \<Rightarrow> block_streamer_config \<Rightarrow> poll_answers list \<Rightarrow> streamer_state \<Rightarrow> streamer_state" where
  "iterate_polls chain_id config as s =
     fold (\<lambda>a. BlockStreamer_iteration chain_id config False a False) as s"




definition sample_poll :: "u64 \<Rightarrow> poll_answers" where
  "sample_poll n = \<lparr>pa_number = Inr n, pa_block = (\<lambda>n. Inr (Some \<lparr>bh_hash = ucast n, bh_timestamp = n,
     bh_parent_hash = 0, bh_base_fee_per_gas = None\<rparr>)), pa_receiver_count = 1\<rparr>"


definition stream_after :: "poll_answers list \<Rightarrow> streamer_state" where
  "stream_after as = iterate_polls Ethereum BlockStreamerConfig_default as BlockStreamer_initial"

lemma iterate_polls_run:
  "st_running s \<Longrightarrow> (streamer_step chain_id config)\<^sup>*\<^sup>* s (iterate_polls chain_id config as s)
     \<and> st_running (iterate_polls chain_id config as s)"
proof (induction as rule: rev_induct)
  case (snoc a as)
  then have "streamer_step chain_id config (iterate_polls chain_id config as s)
      (BlockStreamer_iteration chain_id config False a False (iterate_polls chain_id config as s))"
    by (intro streamer_step.iteration) simp
  moreover have "st_running (BlockStreamer_iteration chain_id config False a False t)" for t
    by (cases rule: poll_cases [of a chain_id "st_sent t" "st_last_block t"])
       (auto simp: BlockStreamer_iteration_def Let_def)
  ultimately show ?case
    using snoc by (auto simp: iterate_polls_def intro: rtranclp.rtrancl_into_rtrancl)
qed (simp add: iterate_polls_def)

lemma stream_after_run: "(streamer_step Ethereum BlockStreamerConfig_default)\<^sup>*\<^sup>* BlockStreamer_initial (stream_after as)"
  unfolding stream_after_def
  using iterate_polls_run [of BlockStreamer_initial] by (simp add: BlockStreamer_initial_def)


text \<open>
  The cap makes the backoff shorter than a poll interval above it: with one poll a minute, a failing
  provider is asked twice as often as a healthy one.
\<close>

lemma backoff_below_interval: "calculate_backoff n (60 * 1000000000) = 30 * 1000000000"
proof -
  define p :: nat where "p = 2 ^ min (unat n) 5"
  have "1 \<le> p" by (simp add: p_def)
  then show ?thesis
    unfolding calculate_backoff_value p_def [symmetric] MAX_BACKOFF_def duration_max_def by (simp add: min_def)
qed

section \<open>Event subscriptions\<close>

text \<open>A log with the fields that are read, and the filter that is sent to the provider.\<close>

record event_log =
  el_block_number :: "u64 option"
  el_transaction_hash :: "b256 option"
  el_topics :: "b256 list"
  el_data :: bytes

record log_filter =
  lf_from_block :: u64
  lf_to_block :: u64
  lf_address :: "address list"
  lf_event_signature :: "b256 list"

record chain_event =
  ce_chain_id :: chain_id
  ce_log :: event_log
  ce_block_number :: u64
  ce_tx_hash :: "b256 option"

definition DEFAULT_EVENT_CHANNEL_CAPACITY :: nat where
  "DEFAULT_EVENT_CHANNEL_CAPACITY = 512"

record event_filter_config =
  ef_addresses :: "address list"
  ef_event_signatures :: "b256 list"
  ef_channel_capacity :: nat

definition EventFilterConfig_new :: "address \<Rightarrow> b256 \<Rightarrow> event_filter_config" where
  "EventFilterConfig_new address event_signature =
     \<lparr>ef_addresses = [address], ef_event_signatures = [event_signature],
      ef_channel_capacity = DEFAULT_EVENT_CHANNEL_CAPACITY\<rparr>"

definition EventFilterConfig_with_addresses :: "address list \<Rightarrow> b256 list \<Rightarrow> event_filter_config" where
  "EventFilterConfig_with_addresses addresses event_signatures =
     \<lparr>ef_addresses = addresses, ef_event_signatures = event_signatures,
      ef_channel_capacity = DEFAULT_EVENT_CHANNEL_CAPACITY\<rparr>"

definition EventFilterConfig_with_capacity :: "nat \<Rightarrow> event_filter_config \<Rightarrow> event_filter_config" where
  "EventFilterConfig_with_capacity capacity config = config\<lparr>ef_channel_capacity := capacity\<rparr>"

text \<open>An unset field of the filter is the empty list.\<close>

definition EventFilterConfig_build_filter :: "u64 \<Rightarrow> u64 \<Rightarrow> event_filter_config \<Rightarrow> log_filter" where
  "EventFilterConfig_build_filter from_block to_block config =
     (let f = \<lparr>lf_from_block = from_block, lf_to_block = to_block, lf_address = [], lf_event_signature = []\<rparr>;
          f = (if ef_addresses config \<noteq> [] then f\<lparr>lf_address := ef_addresses config\<rparr> else f)
      in if ef_event_signatures config \<noteq> [] then f\<lparr>lf_event_signature := ef_event_signatures config\<rparr> else f)"

definition logs_to_events :: "chain_id \<Rightarrow> event_log list \<Rightarrow> chain_event list" where
  "logs_to_events chain_id logs =
     map (\<lambda>log. \<lparr>ce_chain_id = chain_id, ce_log = log,
       ce_block_number = (case el_block_number log of Some b \<Rightarrow> b | None \<Rightarrow> 0),
       ce_tx_hash = el_transaction_hash log\<rparr>) logs"

definition fetch_and_broadcast_logs ::
    "(log_filter \<Rightarrow> string + event_log list) \<Rightarrow> chain_id \<Rightarrow> event_filter_config \<Rightarrow> nat \<Rightarrow> u64 \<Rightarrow>
     chain_event list \<Rightarrow> chain_event list \<times> (chain_error + unit)" where
  "fetch_and_broadcast_logs get_logs chain_id config receiver_count block_number sender =
     (case get_logs (EventFilterConfig_build_filter block_number block_number config) of
        Inl e \<Rightarrow> (sender, Inl (ProviderError chain_id
          (Fmt ''failed to get logs at block {block_number}: {e}'' [Num (uint block_number), Str e])))
      | Inr logs \<Rightarrow>
          (if 0 < receiver_count then sender @ logs_to_events chain_id logs else sender, Inr ()))"

definition EventSubscription_get_historical_logs ::
    "(log_filter \<Rightarrow> string + event_log list) \<Rightarrow> chain_id \<Rightarrow> event_filter_config \<Rightarrow> u64 \<Rightarrow> u64 \<Rightarrow>
     chain_error + chain_event list" where
  "EventSubscription_get_historical_logs get_logs chain_id config from_block to_block =
     (case get_logs (EventFilterConfig_build_filter from_block to_block config) of
        Inl e \<Rightarrow> Inl (ProviderError chain_id (Fmt ''failed to get logs: {e}'' [Str e]))
      | Inr logs \<Rightarrow> Inr (logs_to_events chain_id logs))"

text \<open>
  An iteration of the subscription: what \<open>select!\<close> took first, a block, the report that blocks were
  skipped, the end of the block stream, or a shutdown.
\<close>

datatype subscription_input =
    Recv_Block block_notification "log_filter \<Rightarrow> string + event_log list" nat
  | Recv_Lagged nat
  | Recv_Closed
  | Recv_Shutdown

record subscription_state =
  su_sent :: "chain_event list"
  su_running :: bool

fun EventSubscription_iteration ::
    "chain_id \<Rightarrow> event_filter_config \<Rightarrow> subscription_input \<Rightarrow> subscription_state \<Rightarrow> subscription_state" where
  "EventSubscription_iteration chain_id config (Recv_Block block get_logs receiver_count) s =
     s\<lparr>su_sent := fst (fetch_and_broadcast_logs get_logs chain_id config receiver_count
          (bn_block_number block) (su_sent s))\<rparr>"
| "EventSubscription_iteration chain_id config (Recv_Lagged skipped) s = s"
| "EventSubscription_iteration chain_id config Recv_Closed s = s\<lparr>su_running := False\<rparr>"
| "EventSubscription_iteration chain_id config Recv_Shutdown s = s\<lparr>su_running := False\<rparr>"

inductive subscription_step ::
    "chain_id \<Rightarrow> event_filter_config \<Rightarrow> subscription_state \<Rightarrow> subscription_state \<Rightarrow> bool"
  for chain_id config where
  iteration: "su_running s \<Longrightarrow> subscription_step chain_id config s (EventSubscription_iteration chain_id config i s)"

interpretation events: broadcaster "subscription_step chain_id config" su_sent "\<lambda>_. True"
    "\<lambda>e. ce_chain_id e = chain_id \<and> ce_tx_hash e = el_transaction_hash (ce_log e)" for chain_id config
proof unfold_locales
  fix s s' assume "subscription_step chain_id config s s'"
  then obtain i where s': "s' = EventSubscription_iteration chain_id config i s"
    by (auto elim: subscription_step.cases)
  show "\<exists>new. su_sent s' = su_sent s @ new
      \<and> list_all (\<lambda>e. ce_chain_id e = chain_id \<and> ce_tx_hash e = el_transaction_hash (ce_log e)) new"
    by (cases i) (auto simp: s' fetch_and_broadcast_logs_def logs_to_events_def list_all_iff split: sum.split)
qed simp

text \<open>The subscription that is driven by a list of notifications, without lag or shutdown.\<close>

definition drive_subscription ::
    "chain_id \<Rightarrow> event_filter_config \<Rightarrow> (log_filter \<Rightarrow> string + event_log list) \<Rightarrow> block_notification list \<Rightarrow>
     subscription_state \<Rightarrow> subscription_state" where
  "drive_subscription chain_id config get_logs blocks s =
     fold (\<lambda>b. EventSubscription_iteration chain_id config (Recv_Block b get_logs 1)) blocks s"

definition block_events ::
    "chain_id \<Rightarrow> event_filter_config \<Rightarrow> (log_filter \<Rightarrow> string + event_log list) \<Rightarrow> u64 \<Rightarrow> chain_event list" where
  "block_events chain_id config get_logs n =
     (case get_logs (EventFilterConfig_build_filter n n config) of
        Inl _ \<Rightarrow> [] | Inr logs \<Rightarrow> logs_to_events chain_id logs)"

lemma drive_subscription_sent:
  "su_sent (drive_subscription chain_id config get_logs blocks s) =
     su_sent s @ concat (map (\<lambda>b. block_events chain_id config get_logs (bn_block_number b)) blocks)"
  by (induction blocks arbitrary: s)
     (auto simp: drive_subscription_def fetch_and_broadcast_logs_def block_events_def split: sum.splits)

lemma drive_subscription_blocks:
  "map bn_block_number blocks = ns \<Longrightarrow> su_sent (drive_subscription chain_id config get_logs blocks s) =
     su_sent s @ concat (map (block_events chain_id config get_logs) ns)"
  by (auto simp: drive_subscription_sent comp_def)

text \<open>
  From polls to events: a subscriber that follows a run of the streamer gets exactly the events of
  the blocks the streamer notified, each block's once and in the order of the blocks; the filter
  asks for that block only.  What lies in a block the streamer skipped (a poll that finds the
  number risen by more than one) is not fetched.
\<close>

theorem subscription_follows_stream:
  assumes "(streamer_step chain_id config)\<^sup>*\<^sup>* BlockStreamer_initial s"
  shows "(let blocks = map bn_block_number (st_sent s) in
      su_sent (drive_subscription chain_id filter_config get_logs (st_sent s) \<lparr>su_sent = [], su_running = True\<rparr>)
        = concat (map (block_events chain_id filter_config get_logs) blocks)
      \<and> sorted_wrt (<) blocks
      \<and> (\<forall>n. lf_from_block (EventFilterConfig_build_filter n n filter_config) = n
           \<and> lf_to_block (EventFilterConfig_build_filter n n filter_config) = n
           \<and> lf_address (EventFilterConfig_build_filter n n filter_config) = ef_addresses filter_config
           \<and> lf_event_signature (EventFilterConfig_build_filter n n filter_config) = ef_event_signatures filter_config))"
proof -
  have "sorted_wrt (<) (map bn_block_number (st_sent s))"
    using stream.run [OF assms stream_inv_initial] by (simp add: stream_inv_def)
  then show ?thesis
    by (simp add: drive_subscription_sent comp_def EventFilterConfig_build_filter_def Let_def)
qed

lemma sample_run_blocks:
  "map bn_block_number (st_sent (stream_after [sample_poll 5, sample_poll 8])) = [5, 8]"
  by (simp add: stream_after_def iterate_polls_def BlockStreamer_iteration_def poll_latest_block_def
      sample_poll_def BlockStreamer_initial_def Let_def word_le_nat_alt)

definition transfer_log :: "u64 \<Rightarrow> event_log" where
  "transfer_log n = \<lparr>el_block_number = Some n, el_transaction_hash = Some 1, el_topics = [7], el_data = []\<rparr>"

definition sample_logs :: "log_filter \<Rightarrow> string + event_log list" where
  "sample_logs f = Inr [transfer_log (lf_from_block f)]"

theorem subscription_follows_stream_witness:
  "(let s = drive_subscription Ethereum (EventFilterConfig_new 96 7) sample_logs
      (st_sent (stream_after [sample_poll 5, sample_poll 8])) \<lparr>su_sent = [], su_running = True\<rparr>
    in map ce_block_number (su_sent s) = [5, 8])"
  using subscription_follows_stream [OF stream_after_run [of "[sample_poll 5, sample_poll 8]"],
      of "EventFilterConfig_new 96 7" sample_logs]
  by (simp add: sample_run_blocks Let_def block_events_def sample_logs_def logs_to_events_def transfer_log_def
      EventFilterConfig_build_filter_def)

text \<open>The events of blocks 6 and 7 are lost in this run although the provider has them.\<close>

lemma missed_blocks_lose_events:
  "6 \<notin> set (map ce_block_number (su_sent (drive_subscription Ethereum (EventFilterConfig_new 96 7) sample_logs
      (st_sent (stream_after [sample_poll 5, sample_poll 8])) \<lparr>su_sent = [], su_running = True\<rparr>)))
   \<and> EventSubscription_get_historical_logs sample_logs Ethereum (EventFilterConfig_new 96 7) 6 6
       = Inr (logs_to_events Ethereum [transfer_log 6])"
  by (simp add: drive_subscription_blocks [OF sample_run_blocks] block_events_def sample_logs_def
      logs_to_events_def transfer_log_def EventFilterConfig_build_filter_def EventFilterConfig_new_def Let_def
      EventSubscription_get_historical_logs_def)

end
