(* ===== verification/Mempool.thy ===== *)
theory Mempool
  imports Block_Stream
begin

text \<open>
  The mempool monitor, \<open>phantom-chain/src/mempool.rs\<close>: a loop in the sense of the locale
  \<open>broadcaster\<close>.  The pending block and the transactions the provider answers are arguments.
\<close>

section \<open>Polling the pending block\<close>

definition MAX_SEEN_CAPACITY :: nat where
  "MAX_SEEN_CAPACITY = 10000"

definition DEFAULT_MEMPOOL_POLL_INTERVAL :: duration where
  "DEFAULT_MEMPOOL_POLL_INTERVAL = 500 * 1000000"

definition DEFAULT_MEMPOOL_CHANNEL_CAPACITY :: nat where
  "DEFAULT_MEMPOOL_CHANNEL_CAPACITY = 1024"

record pending_transaction =
  pt_chain_id :: chain_id
  pt_tx_hash :: b256
  pt_from :: "address option"
  pt_to :: "address option"
  pt_value :: "u256 option"
  pt_input :: "bytes option"

record mempool_config =
  mp_poll_interval :: duration
  mp_channel_capacity :: nat
  mp_watched_addresses :: "address list"

definition MempoolConfig_default :: mempool_config where
  "MempoolConfig_default =
     \<lparr>mp_poll_interval = DEFAULT_MEMPOOL_POLL_INTERVAL,
      mp_channel_capacity = DEFAULT_MEMPOOL_CHANNEL_CAPACITY, mp_watched_addresses = []\<rparr>"

definition MempoolConfig_watching :: "address list \<Rightarrow> mempool_config" where
  "MempoolConfig_watching addresses = MempoolConfig_default\<lparr>mp_watched_addresses := addresses\<rparr>"

text \<open>The fields of a transaction that are read.\<close>

record rpc_transaction =
  rt_from :: address
  rt_to :: "address option"
  rt_value :: u256
  rt_input :: bytes

text \<open>The state of a poll: the channel, the hashes seen, and the count of new ones.\<close>

type_synonym mempool_poll = "pending_transaction list \<times> b256 set \<times> nat"

definition poll_hash ::
    "(b256 \<Rightarrow> string + rpc_transaction option) \<Rightarrow> chain_id \<Rightarrow> nat \<Rightarrow> address list \<Rightarrow> b256 \<Rightarrow>
     mempool_poll \<Rightarrow> mempool_poll" where
  "poll_hash get_tx chain_id receiver_count watched_addresses tx_hash = (\<lambda>(sender, seen_hashes, new_count).
     if tx_hash \<in> seen_hashes then (sender, seen_hashes, new_count)
     else
       let seen_hashes = insert tx_hash seen_hashes in
       if watched_addresses \<noteq> [] then
         (case get_tx tx_hash of
            Inr (Some tx) \<Rightarrow>
              if \<not> (case rt_to tx of Some to_addr \<Rightarrow> to_addr \<in> set watched_addresses | None \<Rightarrow> False)
              then (sender, seen_hashes, new_count)
              else
                (if 0 < receiver_count
                 then sender @ [\<lparr>pt_chain_id = chain_id, pt_tx_hash = tx_hash, pt_from = Some (rt_from tx),
                        pt_to = rt_to tx, pt_value = Some (rt_value tx), pt_input = Some (rt_input tx)\<rparr>]
                 else sender, seen_hashes, new_count + 1)
          | _ \<Rightarrow> (sender, seen_hashes, new_count + 1))
       else
         (if 0 < receiver_count
          then sender @ [\<lparr>pt_chain_id = chain_id, pt_tx_hash = tx_hash, pt_from = None,
                 pt_to = None, pt_value = None, pt_input = None\<rparr>]
          else sender, seen_hashes, new_count + 1))"

record mempool_answers =
  ma_pending_block :: "string + b256 list option"
  ma_transaction :: "b256 \<Rightarrow> string + rpc_transaction option"
  ma_receiver_count :: nat

definition poll_pending_transactions ::
    "mempool_answers \<Rightarrow> chain_id \<Rightarrow> address list \<Rightarrow> pending_transaction list \<times> b256 set \<Rightarrow>
     (pending_transaction list \<times> b256 set) \<times> (chain_error + nat)" where
  "poll_pending_transactions a chain_id watched_addresses = (\<lambda>(sender, seen_hashes).
     case ma_pending_block a of
       Inl e \<Rightarrow> ((sender, seen_hashes),
         Inl (ProviderError chain_id (Fmt ''failed to get pending block: {e}'' [Str e])))
     | Inr None \<Rightarrow> ((sender, seen_hashes), Inr 0)
     | Inr (Some tx_hashes) \<Rightarrow>
         let (sender, seen_hashes, new_count) =
           fold (poll_hash (ma_transaction a) chain_id (ma_receiver_count a) watched_addresses)
             tx_hashes (sender, seen_hashes, 0)
         in ((sender, seen_hashes), Inr new_count))"

definition matches_selector :: "bytes \<Rightarrow> bytes \<Rightarrow> bool" where
  "matches_selector input selector \<longleftrightarrow> 4 \<le> length input \<and> take 4 input = selector"

section \<open>The loop\<close>

record mempool_state =
  ms_sent :: "pending_transaction list"
  ms_seen_hashes :: "b256 set"
  ms_running :: bool

definition MempoolMonitor_initial :: mempool_state where
  "MempoolMonitor_initial = \<lparr>ms_sent = [], ms_seen_hashes = {}, ms_running = True\<rparr>"

definition MempoolMonitor_iteration ::
    "chain_id \<Rightarrow> mempool_config \<Rightarrow> bool \<Rightarrow> mempool_answers \<Rightarrow> bool \<Rightarrow> mempool_state \<Rightarrow> mempool_state" where
  "MempoolMonitor_iteration chain_id config shutdown a shutdown_asleep s =
     (if shutdown then s\<lparr>ms_running := False\<rparr>
      else
        let ((sender, seen_hashes), result) =
              poll_pending_transactions a chain_id (mp_watched_addresses config) (ms_sent s, ms_seen_hashes s);
            seen_hashes = (if MAX_SEEN_CAPACITY < card seen_hashes then {} else seen_hashes)
        in s\<lparr>ms_sent := sender, ms_seen_hashes := seen_hashes, ms_running := \<not> shutdown_asleep\<rparr>)"

inductive mempool_step :: "chain_id \<Rightarrow> mempool_config \<Rightarrow> mempool_state \<Rightarrow> mempool_state \<Rightarrow> bool"
  for chain_id config where
  iteration: "ms_running s \<Longrightarrow>
    mempool_step chain_id config s (MempoolMonitor_iteration chain_id config shutdown a shutdown_asleep s)"

section \<open>What is notified\<close>

text \<open>
  A notification is of the monitored chain and, where addresses are watched, of a transaction to
  one of them, with its details.
\<close>

definition relevant :: "chain_id \<Rightarrow> address list \<Rightarrow> pending_transaction \<Rightarrow> bool" where
  "relevant chain_id watched p \<longleftrightarrow> pt_chain_id p = chain_id
     \<and> (if watched = [] then pt_to p = None
        else (\<exists>addr \<in> set watched. pt_to p = Some addr) \<and> pt_from p \<noteq> None \<and> pt_value p \<noteq> None \<and> pt_input p \<noteq> None)"

lemma poll_hash_cases:
  obtains (known) "h \<in> seen" "poll_hash get_tx c rc watched h (sender, seen, n) = (sender, seen, n)"
  | (marked) n' where "h \<notin> seen" "poll_hash get_tx c rc watched h (sender, seen, n) = (sender, insert h seen, n')"
      "n \<le> n'" "n' \<le> Suc n"
  | (emitted) p where "h \<notin> seen" "pt_tx_hash p = h" "relevant c watched p"
      "poll_hash get_tx c rc watched h (sender, seen, n) = (sender @ [p], insert h seen, Suc n)"
proof (cases "h \<in> seen")
  case True
  then show thesis using known by (simp add: poll_hash_def)
next
  case False
  show thesis
  proof (cases "watched = []")
    case True
    with False show thesis
      using marked emitted [of "\<lparr>pt_chain_id = c, pt_tx_hash = h, pt_from = None, pt_to = None,
        pt_value = None, pt_input = None\<rparr>"]
      by (cases "0 < rc") (auto simp: poll_hash_def Let_def relevant_def)
  next
    case watching: False
    show thesis
    proof (cases "get_tx h")
      case (Inl e)
      with False watching show thesis using marked by (auto simp: poll_hash_def Let_def)
    next
      case (Inr t)
      show thesis
      proof (cases t)
        case None
        with Inr False watching show thesis using marked by (auto simp: poll_hash_def Let_def)
      next
        case (Some tx)
        let ?p = "\<lparr>pt_chain_id = c, pt_tx_hash = h, pt_from = Some (rt_from tx), pt_to = rt_to tx,
          pt_value = Some (rt_value tx), pt_input = Some (rt_input tx)\<rparr>"
        show thesis
        proof (cases "\<exists>addr \<in> set watched. rt_to tx = Some addr")
          case True
          then have "relevant c watched ?p" using watching by (simp add: relevant_def)
          with True Some Inr False watching show thesis
            using marked emitted [of ?p] by (cases "0 < rc") (auto simp: poll_hash_def Let_def)
        next
          case no: False
          then have "\<not> (case rt_to tx of Some to_addr \<Rightarrow> to_addr \<in> set watched | None \<Rightarrow> False)"
            by (auto split: option.split)
          with Some Inr False watching show thesis
            using marked by (auto simp: poll_hash_def Let_def)
        qed
      qed
    qed
  qed
qed

lemma poll_hashes:
  assumes "fold (poll_hash get_tx c rc watched) hs (sender, seen, n) = (sender', seen', n')"
  shows "\<exists>new. sender' = sender @ new \<and> list_all (relevant c watched) new
    \<and> distinct (map pt_tx_hash new) \<and> pt_tx_hash ` set new \<subseteq> set hs - seen \<and> seen' = seen \<union> set hs
    \<and> n' \<le> n + card (set hs - seen) \<and> n + length new \<le> n'"
  using assms
proof (induction hs arbitrary: sender seen n)
  case Nil
  then show ?case by simp
next
  case (Cons h hs)
  have card: "card (set (h # hs) - seen) = Suc (card (set hs - insert h seen))" if "h \<notin> seen"
  proof -
    have "set (h # hs) - seen = insert h (set hs - insert h seen)" using that by auto
    then show ?thesis by simp
  qed
  show ?case
  proof (cases rule: poll_hash_cases [of h seen get_tx c rc watched sender n])
    case known
    with Cons.prems have "fold (poll_hash get_tx c rc watched) hs (sender, seen, n) = (sender', seen', n')" by simp
    from Cons.IH [OF this] known show ?thesis by (auto simp: insert_Diff_if insert_absorb)
  next
    case (marked m)
    with Cons.prems have "fold (poll_hash get_tx c rc watched) hs (sender, insert h seen, m) = (sender', seen', n')"
      by simp
    from Cons.IH [OF this] obtain new where "sender' = sender @ new" "list_all (relevant c watched) new"
      "distinct (map pt_tx_hash new)" "pt_tx_hash ` set new \<subseteq> set hs - insert h seen"
      "seen' = insert h seen \<union> set hs" "n' \<le> m + card (set hs - insert h seen)"
      "m + length new \<le> n'"
      by blast
    then show ?thesis
      using card [OF marked(1)] marked(3,4) by (intro exI [of _ new]) auto
  next
    case (emitted p)
    with Cons.prems have
      "fold (poll_hash get_tx c rc watched) hs (sender @ [p], insert h seen, Suc n) = (sender', seen', n')"
      by simp
    from Cons.IH [OF this] obtain new where "sender' = (sender @ [p]) @ new" "list_all (relevant c watched) new"
      "distinct (map pt_tx_hash new)" "pt_tx_hash ` set new \<subseteq> set hs - insert h seen"
      "seen' = insert h seen \<union> set hs" "n' \<le> Suc n + card (set hs - insert h seen)"
      "Suc n + length new \<le> n'"
      by blast
    then show ?thesis
      using card [OF emitted(1)] emitted(1-3) by (intro exI [of _ "p # new"]) auto
  qed
qed

text \<open>The hashes of the pending block of a poll.\<close>

definition pending_hashes :: "mempool_answers \<Rightarrow> b256 list" where
  "pending_hashes a = (case ma_pending_block a of Inr (Some hs) \<Rightarrow> hs | _ \<Rightarrow> [])"

definition mempool_inv :: "mempool_state \<Rightarrow> bool" where
  "mempool_inv s \<longleftrightarrow> finite (ms_seen_hashes s) \<and> card (ms_seen_hashes s) \<le> MAX_SEEN_CAPACITY"

lemma mempool_inv_initial: "mempool_inv MempoolMonitor_initial"
  by (simp add: mempool_inv_def MempoolMonitor_initial_def)

lemma iteration_effect:
  "\<exists>new. ms_sent (MempoolMonitor_iteration chain_id config False a asleep s) = ms_sent s @ new
    \<and> list_all (relevant chain_id (mp_watched_addresses config)) new
    \<and> distinct (map pt_tx_hash new) \<and> pt_tx_hash ` set new \<subseteq> set (pending_hashes a) - ms_seen_hashes s
    \<and> ms_seen_hashes (MempoolMonitor_iteration chain_id config False a asleep s) =
        (if MAX_SEEN_CAPACITY < card (ms_seen_hashes s \<union> set (pending_hashes a)) then {}
         else ms_seen_hashes s \<union> set (pending_hashes a))"
proof -
  let ?w = "mp_watched_addresses config"
  consider hs where "ma_pending_block a = Inr (Some hs)" | "ma_pending_block a = Inr None" | e where "ma_pending_block a = Inl e"
    by (metis not_None_eq sumE)
  then show ?thesis
  proof cases
    case 1
    obtain sender' seen' n' where run: "fold (poll_hash (ma_transaction a) chain_id (ma_receiver_count a) ?w) hs
        (ms_sent s, ms_seen_hashes s, 0) = (sender', seen', n')"
      by (metis prod_cases3)
    from poll_hashes [OF this] obtain new where "sender' = ms_sent s @ new" "list_all (relevant chain_id ?w) new"
      "distinct (map pt_tx_hash new)" "pt_tx_hash ` set new \<subseteq> set hs - ms_seen_hashes s"
      "seen' = ms_seen_hashes s \<union> set hs"
      by blast
    with 1 run show ?thesis
      by (intro exI [of _ new])
         (simp add: MempoolMonitor_iteration_def poll_pending_transactions_def pending_hashes_def Let_def)
  qed (simp_all add: MempoolMonitor_iteration_def poll_pending_transactions_def pending_hashes_def Let_def)
qed

interpretation mempool: broadcaster "mempool_step chain_id config" ms_sent mempool_inv
    "relevant chain_id (mp_watched_addresses config)" for chain_id config
proof unfold_locales
  fix s s' assume step: "mempool_step chain_id config s s'" and inv: "mempool_inv s"
  from step obtain sh a asleep where s': "s' = MempoolMonitor_iteration chain_id config sh a asleep s"
    by (auto elim: mempool_step.cases)
  have "mempool_inv s' \<and> (\<exists>new. ms_sent s' = ms_sent s @ new
      \<and> list_all (relevant chain_id (mp_watched_addresses config)) new)"
  proof (cases sh)
    case True
    with inv show ?thesis by (simp add: s' MempoolMonitor_iteration_def mempool_inv_def)
  next
    case False
    with iteration_effect [of chain_id config a asleep s] inv show ?thesis
      by (auto simp: s' mempool_inv_def)
  qed
  then show "mempool_inv s'" "\<exists>new. ms_sent s' = ms_sent s @ new
      \<and> list_all (relevant chain_id (mp_watched_addresses config)) new" by blast+
qed

definition iterate_mempool :: "chain_id \<Rightarrow> mempool_config \<Rightarrow> mempool_answers list \<Rightarrow> mempool_state \<Rightarrow> mempool_state" where
  "iterate_mempool chain_id config as s = fold (\<lambda>a. MempoolMonitor_iteration chain_id config False a False) as s"

definition pending_answers :: "b256 list \<Rightarrow> (b256 \<Rightarrow> string + rpc_transaction option) \<Rightarrow> mempool_answers" where
  "pending_answers hs get_tx = \<lparr>ma_pending_block = Inr (Some hs), ma_transaction = get_tx, ma_receiver_count = 1\<rparr>"

definition sample_tx :: "b256 \<Rightarrow> string + rpc_transaction option" where
  "sample_tx h = Inr (Some \<lparr>rt_from = 5, rt_to = Some (if h = 2 then 96 else 97), rt_value = 0, rt_input = []\<rparr>)"

text \<open>
  A watched transaction whose details cannot be fetched once is never notified: its hash
  is already marked as seen when the next poll finds it again (although it is counted as new).
\<close>

lemma failed_fetch_loses_transaction:
  "ms_sent (iterate_mempool Ethereum (MempoolConfig_watching [96])
     [pending_answers [2] (\<lambda>_. Inl ''timeout''), pending_answers [2] sample_tx] MempoolMonitor_initial) = []
   \<and> snd (poll_pending_transactions (pending_answers [2] (\<lambda>_. Inl ''timeout'')) Ethereum [96] ([], {})) = Inr 1"
  by (simp add: pending_answers_def MAX_SEEN_CAPACITY_def iterate_mempool_def Let_def
      MempoolMonitor_iteration_def poll_pending_transactions_def poll_hash_def
      MempoolConfig_watching_def MempoolConfig_default_def MempoolMonitor_initial_def)

end
