(* ===== verification/Service.thy ===== *)
theory Service
  imports Mempool
begin

text \<open>
  The objects around the loops of \<open>phantom-chain\<close> (\<open>stream.rs\<close>, \<open>mempool.rs\<close>, \<open>events.rs\<close>): their
  broadcast channel with its receivers, their shutdown flag and the tasks that \<open>start\<close> spawned.  Tasks
  and calls interleave; a call that arrives while a task polls is the flag of that iteration.
  The locale \<open>stoppable\<close> states what \<open>stop\<close> promises of a service.
\<close>

section \<open>Stopping\<close>

text \<open>
  A service runs tasks on a shared flag.  Once the flag is set it stays set, nothing more is sent, and a
  task that moves ends.
\<close>

locale stoppable =
  fixes step :: "'v \<Rightarrow> 'v \<Rightarrow> bool"
    and task :: "nat \<Rightarrow> 'a \<Rightarrow> 'v \<Rightarrow> 'v"
    and tasks :: "'v \<Rightarrow> 't list"
    and running :: "'t \<Rightarrow> bool"
    and sent :: "'v \<Rightarrow> 'm list"
    and stopped :: "'v \<Rightarrow> bool"
  assumes stays: "step v v' \<Longrightarrow> stopped v \<Longrightarrow> stopped v'"
    and quiet: "step v v' \<Longrightarrow> stopped v \<Longrightarrow> sent v' = sent v"
    and task_ends: "stopped v \<Longrightarrow> k < length (tasks v) \<Longrightarrow>
      \<exists>t. tasks (task k a v) = (tasks v)[k := t] \<and> \<not> running t"
    and task_stays: "stopped v \<Longrightarrow> stopped (task k a v)"
begin

lemma stopped_run: "step\<^sup>*\<^sup>* v v' \<Longrightarrow> stopped v \<Longrightarrow> stopped v' \<and> sent v' = sent v"
  by (induction rule: rtranclp_induct) (use stays quiet in auto)

text \<open>Each task that moves once more has ended; so one more turn of every task ends them all.\<close>

lemma turns:
  "stopped v \<Longrightarrow> n \<le> length (tasks v) \<Longrightarrow>
    (let v' = fold (\<lambda>k. task k (as k)) [0..<n] v in
       stopped v' \<and> length (tasks v') = length (tasks v) \<and> (\<forall>k < n. \<not> running (tasks v' ! k)))"
proof (induction n)
  case (Suc n)
  define u where "u = fold (\<lambda>k. task k (as k)) [0..<n] v"
  have u: "stopped u" "length (tasks u) = length (tasks v)" "\<forall>k < n. \<not> running (tasks u ! k)"
    using Suc by (simp_all add: Let_def u_def)
  then obtain t where "tasks (task n (as n) u) = (tasks u)[n := t]" "\<not> running t"
    using task_ends [of u n "as n"] Suc.prems by auto
  then show ?case
    using u Suc.prems task_stays [OF u(1)]
    by (auto simp: Let_def nth_list_update less_Suc_eq simp flip: u_def)
qed simp

lemma all_ended:
  assumes "stopped v"
  shows "list_all (\<lambda>t. \<not> running t) (tasks (fold (\<lambda>k. task k (as k)) [0..<length (tasks v)] v))"
  using turns [OF assms le_refl, of as] by (simp add: Let_def list_all_length)

end

section \<open>The block streamer\<close>

record block_streamer =
  bl_chain_id :: chain_id
  bl_config :: block_streamer_config
  bl_sent :: "block_notification list"
  bl_receivers :: nat
  bl_shutdown :: bool
  bl_tasks :: "streamer_state list"

definition BlockStreamer_new :: "chain_id \<Rightarrow> block_streamer_config \<Rightarrow> block_streamer" where
  "BlockStreamer_new chain_id config =
     \<lparr>bl_chain_id = chain_id, bl_config = config, bl_sent = [], bl_receivers = 0, bl_shutdown = False,
      bl_tasks = []\<rparr>"

definition BlockStreamer_with_defaults :: "chain_id \<Rightarrow> block_streamer" where
  "BlockStreamer_with_defaults chain_id = BlockStreamer_new chain_id BlockStreamerConfig_default"

definition BlockStreamer_subscribe :: "block_streamer \<Rightarrow> block_streamer" where
  "BlockStreamer_subscribe v = v\<lparr>bl_receivers := bl_receivers v + 1\<rparr>"

definition BlockStreamer_subscriber_count :: "block_streamer \<Rightarrow> nat" where
  "BlockStreamer_subscriber_count v = bl_receivers v"

definition BlockStreamer_start :: "block_streamer \<Rightarrow> block_streamer" where
  "BlockStreamer_start v = v\<lparr>bl_tasks := bl_tasks v @ [BlockStreamer_initial]\<rparr>"


text \<open>
  An iteration of a task: the provider's answers, and whether \<open>stop\<close> is called while it polls or sleeps
  (dropping the streamer closes the shutdown channel, which ends the sleep in the same way).  A receiver
  that is dropped leaves the count.
\<close>

definition BlockStreamer_task :: "nat \<Rightarrow> poll_answers \<times> bool \<Rightarrow> block_streamer \<Rightarrow> block_streamer" where
  "BlockStreamer_task k = (\<lambda>(a, stop) v.
     let s = BlockStreamer_iteration (bl_chain_id v) (bl_config v) (bl_shutdown v)
           (a\<lparr>pa_receiver_count := bl_receivers v\<rparr>) stop ((bl_tasks v ! k)\<lparr>st_sent := bl_sent v\<rparr>)
     in v\<lparr>bl_sent := st_sent s, bl_shutdown := bl_shutdown v \<or> stop, bl_tasks := (bl_tasks v)[k := s]\<rparr>)"



lemma task_stopped: "bl_shutdown v \<Longrightarrow> BlockStreamer_task k a v =
    v\<lparr>bl_tasks := (bl_tasks v)[k := (bl_tasks v ! k)\<lparr>st_sent := bl_sent v, st_running := False\<rparr>]\<rparr>"
  by (cases a) (simp add: BlockStreamer_task_def BlockStreamer_iteration_def Let_def)








definition sample_streamer :: block_streamer where
  "sample_streamer = BlockStreamer_start (BlockStreamer_new Ethereum BlockStreamerConfig_default)"

definition streamed :: "block_streamer \<Rightarrow> block_streamer" where
  "streamed v = fold (\<lambda>a. BlockStreamer_task 0 (a, False)) [sample_poll 5, sample_poll 4, sample_poll 8]
     (BlockStreamer_subscribe v)"

lemmas streamer_eval = streamed_def sample_streamer_def BlockStreamer_start_def BlockStreamer_new_def
  BlockStreamer_subscribe_def BlockStreamer_task_def BlockStreamer_iteration_def poll_latest_block_def
  sample_poll_def BlockStreamer_initial_def Let_def word_le_nat_alt



text \<open>
  Nothing keeps \<open>start\<close> from being called again: the tasks do not share what they have seen, and
  every block is sent once per task.
\<close>

lemma started_twice_sends_twice:
  "map bn_block_number (bl_sent (BlockStreamer_task 1 (sample_poll 5, False) (BlockStreamer_task 0 (sample_poll 5, False)
     (BlockStreamer_subscribe (BlockStreamer_start sample_streamer))))) = [5, 5]"
  by (simp add: streamer_eval)

text \<open>A stopped streamer cannot be started again: the new task ends without a poll.\<close>

lemma no_restart:
  "bl_shutdown v \<Longrightarrow> k = length (bl_tasks v) \<Longrightarrow>
     bl_tasks (BlockStreamer_task k a (BlockStreamer_start v)) =
       bl_tasks v @ [BlockStreamer_initial\<lparr>st_sent := bl_sent v, st_running := False\<rparr>]"
  by (simp add: BlockStreamer_start_def task_stopped)

section \<open>The mempool monitor\<close>

record mempool_monitor =
  mm_chain_id :: chain_id
  mm_config :: mempool_config
  mm_sent :: "pending_transaction list"
  mm_receivers :: nat
  mm_shutdown :: bool
  mm_tasks :: "mempool_state list"

definition MempoolMonitor_new :: "chain_id \<Rightarrow> mempool_config \<Rightarrow> mempool_monitor" where
  "MempoolMonitor_new chain_id config =
     \<lparr>mm_chain_id = chain_id, mm_config = config, mm_sent = [], mm_receivers = 0, mm_shutdown = False,
      mm_tasks = []\<rparr>"

definition MempoolMonitor_with_defaults :: "chain_id \<Rightarrow> mempool_monitor" where
  "MempoolMonitor_with_defaults chain_id = MempoolMonitor_new chain_id MempoolConfig_default"

definition MempoolMonitor_subscribe :: "mempool_monitor \<Rightarrow> mempool_monitor" where
  "MempoolMonitor_subscribe v = v\<lparr>mm_receivers := mm_receivers v + 1\<rparr>"

definition MempoolMonitor_subscriber_count :: "mempool_monitor \<Rightarrow> nat" where
  "MempoolMonitor_subscriber_count v = mm_receivers v"

definition MempoolMonitor_start :: "mempool_monitor \<Rightarrow> mempool_monitor" where
  "MempoolMonitor_start v = v\<lparr>mm_tasks := mm_tasks v @ [MempoolMonitor_initial]\<rparr>"

definition MempoolMonitor_stop :: "mempool_monitor \<Rightarrow> mempool_monitor" where
  "MempoolMonitor_stop v = v\<lparr>mm_shutdown := True\<rparr>"

definition MempoolMonitor_task :: "nat \<Rightarrow> mempool_answers \<times> bool \<Rightarrow> mempool_monitor \<Rightarrow> mempool_monitor" where
  "MempoolMonitor_task k = (\<lambda>(a, stop) v.
     let s = MempoolMonitor_iteration (mm_chain_id v) (mm_config v) (mm_shutdown v)
           (a\<lparr>ma_receiver_count := mm_receivers v\<rparr>) stop ((mm_tasks v ! k)\<lparr>ms_sent := mm_sent v\<rparr>)
     in v\<lparr>mm_sent := ms_sent s, mm_shutdown := mm_shutdown v \<or> stop, mm_tasks := (mm_tasks v)[k := s]\<rparr>)"

inductive monitor_op :: "mempool_monitor \<Rightarrow> mempool_monitor \<Rightarrow> bool" where
  subscribe: "monitor_op v (MempoolMonitor_subscribe v)"
| unsubscribe: "0 < mm_receivers v \<Longrightarrow> monitor_op v (v\<lparr>mm_receivers := mm_receivers v - 1\<rparr>)"
| start: "monitor_op v (MempoolMonitor_start v)"
| stop: "monitor_op v (MempoolMonitor_stop v)"
| task: "k < length (mm_tasks v) \<Longrightarrow> ms_running (mm_tasks v ! k) \<Longrightarrow> monitor_op v (MempoolMonitor_task k a v)"

lemma monitor_task_stopped: "mm_shutdown v \<Longrightarrow> MempoolMonitor_task k a v =
    v\<lparr>mm_tasks := (mm_tasks v)[k := (mm_tasks v ! k)\<lparr>ms_sent := mm_sent v, ms_running := False\<rparr>]\<rparr>"
  by (cases a) (simp add: MempoolMonitor_task_def MempoolMonitor_iteration_def Let_def)

interpretation monitor: stoppable monitor_op MempoolMonitor_task mm_tasks ms_running mm_sent mm_shutdown
proof unfold_locales
  fix v v' assume "monitor_op v v'" "mm_shutdown v"
  then show "mm_shutdown v'" "mm_sent v' = mm_sent v"
    by (auto elim!: monitor_op.cases simp: MempoolMonitor_subscribe_def MempoolMonitor_stop_def
        MempoolMonitor_start_def monitor_task_stopped)
qed (auto simp: monitor_task_stopped)














lemma stopped_monitor_quiet:
  "monitor_op\<^sup>*\<^sup>* v v' \<Longrightarrow> mm_shutdown v \<Longrightarrow> mm_sent v' = mm_sent v
    \<and> list_all (\<lambda>t. \<not> ms_running t)
        (mm_tasks (fold (\<lambda>k. MempoolMonitor_task k (as k)) [0..<length (mm_tasks v')] v'))"
  using monitor.stopped_run monitor.all_ended by blast

section \<open>Event subscriptions\<close>

text \<open>
  The task of a subscription does not look at the flag first: \<open>select!\<close> takes the shutdown, which is
  ready from \<open>stop\<close> on, or what the block stream has ready.
\<close>

record event_subscription =
  es_chain_id :: chain_id
  es_config :: event_filter_config
  es_sent :: "chain_event list"
  es_receivers :: nat
  es_shutdown :: bool
  es_tasks :: "subscription_state list"

definition EventSubscription_new :: "chain_id \<Rightarrow> event_filter_config \<Rightarrow> event_subscription" where
  "EventSubscription_new chain_id config =
     \<lparr>es_chain_id = chain_id, es_config = config, es_sent = [], es_receivers = 0, es_shutdown = False,
      es_tasks = []\<rparr>"

definition EventSubscription_subscribe :: "event_subscription \<Rightarrow> event_subscription" where
  "EventSubscription_subscribe v = v\<lparr>es_receivers := es_receivers v + 1\<rparr>"

definition EventSubscription_subscriber_count :: "event_subscription \<Rightarrow> nat" where
  "EventSubscription_subscriber_count v = es_receivers v"

definition EventSubscription_start :: "event_subscription \<Rightarrow> event_subscription" where
  "EventSubscription_start v = v\<lparr>es_tasks := es_tasks v @ [\<lparr>su_sent = [], su_running = True\<rparr>]\<rparr>"

definition EventSubscription_stop :: "event_subscription \<Rightarrow> event_subscription" where
  "EventSubscription_stop v = v\<lparr>es_shutdown := True\<rparr>"

definition EventSubscription_task ::
    "nat \<Rightarrow> subscription_input \<Rightarrow> event_subscription \<Rightarrow> event_subscription" where
  "EventSubscription_task k i v =
     (let i = (case i of Recv_Block block get_logs _ \<Rightarrow> Recv_Block block get_logs (es_receivers v) | _ \<Rightarrow> i);
          s = EventSubscription_iteration (es_chain_id v) (es_config v) i ((es_tasks v ! k)\<lparr>su_sent := es_sent v\<rparr>)
      in v\<lparr>es_sent := su_sent s, es_tasks := (es_tasks v)[k := s]\<rparr>)"

text \<open>
  So a stopped subscription can still broadcast the logs of a block: the branch of the block may be
  taken first.
\<close>

lemma stopped_subscription_sends:
  "(let v = EventSubscription_stop (EventSubscription_subscribe (EventSubscription_start
          (EventSubscription_new Ethereum (EventFilterConfig_new 96 7))));
        block = \<lparr>bn_chain_id = Ethereum, bn_block_number = 5, bn_block_hash = 0, bn_timestamp = 0,
          bn_parent_hash = 0, bn_base_fee_per_gas = None\<rparr>
    in map ce_block_number (es_sent (EventSubscription_task 0 (Recv_Block block sample_logs 0) v)) = [5]
       \<and> es_tasks (EventSubscription_task 0 Recv_Shutdown v) = [\<lparr>su_sent = [], su_running = False\<rparr>])"
  by (simp add: Let_def EventSubscription_stop_def EventSubscription_subscribe_def EventSubscription_start_def
      EventSubscription_new_def EventSubscription_task_def fetch_and_broadcast_logs_def sample_logs_def
      logs_to_events_def transfer_log_def EventFilterConfig_build_filter_def EventFilterConfig_new_def)

section \<open>The subscription manager\<close>

text \<open>A subscription and whether a task handle is kept for it.\<close>

record subscription_manager =
  sm_subscriptions :: "(event_subscription \<times> bool) list"

definition EventSubscriptionManager_new :: subscription_manager where
  "EventSubscriptionManager_new = \<lparr>sm_subscriptions = []\<rparr>"

definition EventSubscriptionManager_add :: "event_subscription \<Rightarrow> subscription_manager \<Rightarrow> subscription_manager" where
  "EventSubscriptionManager_add subscription sm =
     sm\<lparr>sm_subscriptions := sm_subscriptions sm @ [(subscription, False)]\<rparr>"

definition EventSubscriptionManager_start_all :: "subscription_manager \<Rightarrow> subscription_manager" where
  "EventSubscriptionManager_start_all sm = sm\<lparr>sm_subscriptions :=
     map (\<lambda>(sub, handle). if \<not> handle then (EventSubscription_start sub, True) else (sub, handle))
       (sm_subscriptions sm)\<rparr>"

definition EventSubscriptionManager_stop_all :: "subscription_manager \<Rightarrow> subscription_manager" where
  "EventSubscriptionManager_stop_all sm = sm\<lparr>sm_subscriptions :=
     map (\<lambda>(sub, handle). (EventSubscription_stop sub, handle)) (sm_subscriptions sm)\<rparr>"

definition EventSubscriptionManager_subscription_count :: "subscription_manager \<Rightarrow> nat" where
  "EventSubscriptionManager_subscription_count sm = length (sm_subscriptions sm)"

text \<open>
  Subscriptions that are added before they are started: each has one task exactly when it has a
  handle, however often and in whatever order all are started and stopped.
\<close>

inductive manager_op :: "subscription_manager \<Rightarrow> subscription_manager \<Rightarrow> bool" where
  add: "manager_op sm (EventSubscriptionManager_add (EventSubscription_new chain_id config) sm)"
| start: "manager_op sm (EventSubscriptionManager_start_all sm)"
| stop: "manager_op sm (EventSubscriptionManager_stop_all sm)"
| task: "i < length (sm_subscriptions sm) \<Longrightarrow> sm_subscriptions sm ! i = (sub, handle) \<Longrightarrow>
    k < length (es_tasks sub) \<Longrightarrow>
    manager_op sm (sm\<lparr>sm_subscriptions := (sm_subscriptions sm)[i := (EventSubscription_task k inp sub, handle)]\<rparr>)"

definition manager_inv :: "subscription_manager \<Rightarrow> bool" where
  "manager_inv sm \<longleftrightarrow> list_all (\<lambda>x. length (es_tasks (fst x)) = of_bool (snd x)) (sm_subscriptions sm)"

lemma manager_inv_op: "manager_op sm sm' \<Longrightarrow> manager_inv sm \<Longrightarrow> manager_inv sm'"
proof (induction rule: manager_op.induct)
  case (task i sm sub handle k inp)
  have "length (es_tasks (EventSubscription_task k inp sub)) = length (es_tasks sub)"
    by (simp add: EventSubscription_task_def Let_def)
  moreover have "length (es_tasks sub) = of_bool handle"
    using task by (auto simp: manager_inv_def list_all_length)
  ultimately show ?case
    using task by (auto simp: manager_inv_def list_all_length nth_list_update)
qed (fastforce simp: manager_inv_def list_all_iff EventSubscriptionManager_add_def EventSubscription_new_def
      EventSubscriptionManager_start_all_def EventSubscription_start_def EventSubscriptionManager_stop_all_def
      EventSubscription_stop_def split: if_splits)+

lemma subscriptions_started_once:
  assumes "manager_op\<^sup>*\<^sup>* EventSubscriptionManager_new sm"
  shows "list_all (\<lambda>x. length (es_tasks (fst x)) = of_bool (snd x)) (sm_subscriptions sm)
    \<and> list_all snd (sm_subscriptions (EventSubscriptionManager_start_all sm))
    \<and> list_all (\<lambda>x. es_shutdown (fst x)) (sm_subscriptions (EventSubscriptionManager_stop_all sm))"
proof -
  have "manager_inv sm"
    using assms
  proof (induction rule: rtranclp_induct)
    case base
    show ?case by (simp add: manager_inv_def EventSubscriptionManager_new_def)
  next
    case (step sm sm')
    then show ?case by (blast intro: manager_inv_op)
  qed
  then show ?thesis
    by (auto simp: manager_inv_def list_all_iff EventSubscriptionManager_start_all_def
        EventSubscriptionManager_stop_all_def EventSubscription_stop_def)
qed

end
