(* ===== verification/Price_Sources.thy ===== *)
theory Price_Sources
  imports Aggregator
begin

text \<open>
  The on-chain price sources, \<open>phantom-pricing/src/sources.rs\<close>, with the addresses and fee tiers of
  \<open>dex_abi.rs\<close> and the well-known tokens of \<open>tokens.rs\<close>.  The provider's \<open>eth_call\<close> and the ABI
  encoder and decoder of each contract call are the record \<open>dex_client\<close>, the clock an argument.
\<close>

section \<open>Addresses, fee tiers, tokens\<close>

definition CURVE_3POOL_MAINNET :: address where
  "CURVE_3POOL_MAINNET = 0xbEbc44782C7dB0a1A60Cb6fe97d0b483032FF1C7"

definition BALANCER_VAULT :: address where
  "BALANCER_VAULT = 0xBA12222222228d8Ba445958a75a0704d566BF2C8"

definition UNISWAP_V3_QUOTER_MAINNET :: address where
  "UNISWAP_V3_QUOTER_MAINNET = 0x61fFE014bA17989E743c5F6cB21bF9697530B21e"

definition UNISWAP_V3_QUOTER_ARBITRUM :: address where
  "UNISWAP_V3_QUOTER_ARBITRUM = 0x61fFE014bA17989E743c5F6cB21bF9697530B21e"

definition uniswap_v3_quoter :: "u64 \<Rightarrow> address option" where
  "uniswap_v3_quoter chain =
     (if chain = 1 then Some UNISWAP_V3_QUOTER_MAINNET
      else if chain = 42161 then Some UNISWAP_V3_QUOTER_ARBITRUM
      else None)"

definition ALL_FEE_TIERS :: "u32 list" where
  "ALL_FEE_TIERS = [100, 500, 3000, 10000]"

record known_token =
  kt_address :: address
  kt_symbol :: string
  kt_decimals :: u8

definition MAINNET_TOKENS :: "known_token list" where
  "MAINNET_TOKENS =
     [\<lparr>kt_address = 0xC02aaA39b223FE8D0A0e5C4F27eAD9083C756Cc2, kt_symbol = ''WETH'', kt_decimals = 18\<rparr>,
      \<lparr>kt_address = 0xA0b86991c6218b36c1d19D4a2e9Eb0cE3606eB48, kt_symbol = ''USDC'', kt_decimals = 6\<rparr>,
      \<lparr>kt_address = 0xdAC17F958D2ee523a2206206994597C13D831ec7, kt_symbol = ''USDT'', kt_decimals = 6\<rparr>,
      \<lparr>kt_address = 0x6B175474E89094C44Da98b954EedeAC495271d0F, kt_symbol = ''DAI'', kt_decimals = 18\<rparr>,
      \<lparr>kt_address = 0x2260FAC5E5542a773Aa44fBCfeDf7C193bc2C599, kt_symbol = ''WBTC'', kt_decimals = 8\<rparr>]"

definition ARBITRUM_TOKENS :: "known_token list" where
  "ARBITRUM_TOKENS =
     [\<lparr>kt_address = 0x82aF49447D8a07e3bd95BD0d56f35241523fBab1, kt_symbol = ''WETH'', kt_decimals = 18\<rparr>,
      \<lparr>kt_address = 0xaf88d065e77c8cC2239327C5EDb3A432268e5831, kt_symbol = ''USDC'', kt_decimals = 6\<rparr>]"

fun known_tokens :: "chain_id \<Rightarrow> known_token list" where
  "known_tokens Ethereum = MAINNET_TOKENS"
| "known_tokens Arbitrum = ARBITRUM_TOKENS"
| "known_tokens _ = []"

definition find_by_address :: "chain_id \<Rightarrow> address \<Rightarrow> known_token option" where
  "find_by_address chain_id address = find (\<lambda>t. kt_address t = address) (known_tokens chain_id)"

definition find_by_symbol :: "chain_id \<Rightarrow> string \<Rightarrow> known_token option" where
  "find_by_symbol chain_id symbol = find (\<lambda>t. kt_symbol t = symbol) (known_tokens chain_id)"

section \<open>Quotes and calls\<close>

record price_quote =
  qu_price :: u256
  qu_source :: string
  qu_timestamp :: datetime
  qu_gas_estimate :: "u256 option"

definition PriceQuote_new :: "u256 \<Rightarrow> string \<Rightarrow> datetime \<Rightarrow> price_quote" where
  "PriceQuote_new price source now =
     \<lparr>qu_price = price, qu_source = source, qu_timestamp = now, qu_gas_estimate = None\<rparr>"

definition PriceQuote_with_gas_estimate :: "u256 \<Rightarrow> price_quote \<Rightarrow> price_quote" where
  "PriceQuote_with_gas_estimate gas q = q\<lparr>qu_gas_estimate := Some gas\<rparr>"

definition PriceQuote_age_seconds :: "datetime \<Rightarrow> price_quote \<Rightarrow> u64" where
  "PriceQuote_age_seconds now q = unsigned_abs (num_seconds (now - qu_timestamp q))"

definition PriceQuote_is_stale :: "datetime \<Rightarrow> u64 \<Rightarrow> price_quote \<Rightarrow> bool" where
  "PriceQuote_is_stale now max_age_seconds q \<longleftrightarrow> max_age_seconds < PriceQuote_age_seconds now q"

record ('q, 'r) dex_client =
  dx_call :: "address \<Rightarrow> bytes \<Rightarrow> string + bytes"
  dx_encode :: "'q \<Rightarrow> bytes"
  dx_decode :: "bytes \<Rightarrow> string + 'r"

definition eth_call :: "('q, 'r) dex_client \<Rightarrow> address \<Rightarrow> bytes \<Rightarrow> pricing_error + bytes" where
  "eth_call client to_addr calldata =
     (case dx_call client to_addr calldata of
        Inl e \<Rightarrow> Inl (SourceUnavailable (Fmt ''eth_call failed: {e}'' [Str e]))
      | Inr result \<Rightarrow> Inr result)"

text \<open>\<open>U256::pow\<close> wraps.\<close>

definition one_unit :: "token \<Rightarrow> u256" where
  "one_unit base = 10 ^ unat (tk_decimals base)"

section \<open>Uniswap V3\<close>

text \<open>The parameters of a quote and what is read of its result: the amount out and the gas.\<close>

record quote_params =
  qp_token_in :: address
  qp_token_out :: address
  qp_amount_in :: u256
  qp_fee :: "24 word"
  qp_sqrt_price_limit :: address

type_synonym quoter_client = "(quote_params, u256 \<times> u256) dex_client"

record uniswap_v3_source =
  us_quoter_address :: address
  us_chain_id :: chain_id

definition UniswapV3Source_new :: "address \<Rightarrow> chain_id \<Rightarrow> uniswap_v3_source" where
  "UniswapV3Source_new quoter_address chain_id = \<lparr>us_quoter_address = quoter_address, us_chain_id = chain_id\<rparr>"

definition UniswapV3Source_for_chain :: "chain_id \<Rightarrow> uniswap_v3_source option" where
  "UniswapV3Source_for_chain chain_id =
     map_option (\<lambda>addr. \<lparr>us_quoter_address = addr, us_chain_id = chain_id\<rparr>)
       (uniswap_v3_quoter (ChainId_as_u64 chain_id))"

definition UniswapV3Source_quote_single ::
    "quoter_client \<Rightarrow> datetime \<Rightarrow> address \<Rightarrow> address \<Rightarrow> u256 \<Rightarrow> u32 \<Rightarrow> uniswap_v3_source \<Rightarrow>
     pricing_error + price_quote" where
  "UniswapV3Source_quote_single client now token_in token_out amount_in fee us =
     (if 2 ^ 24 \<le> unat fee then Inl (SourceUnavailable (lit ''invalid fee tier''))
      else
        let call = \<lparr>qp_token_in = token_in, qp_token_out = token_out, qp_amount_in = amount_in,
                    qp_fee = ucast fee, qp_sqrt_price_limit = 0\<rparr>
        in case eth_call client (us_quoter_address us) (dx_encode client call) of
             Inl e \<Rightarrow> Inl e
           | Inr result_bytes \<Rightarrow>
               (case dx_decode client result_bytes of
                  Inl e \<Rightarrow> Inl (SourceUnavailable (Fmt ''failed to decode uniswap v3 quote: {e}'' [Str e]))
                | Inr (amount_out, gas_estimate) \<Rightarrow>
                    Inr (PriceQuote_with_gas_estimate gas_estimate
                      (PriceQuote_new amount_out ''uniswap_v3'' now))))"

fun best_quote_loop :: "(u32 \<Rightarrow> pricing_error + price_quote) \<Rightarrow> u32 list \<Rightarrow> price_quote option \<Rightarrow> price_quote option" where
  "best_quote_loop quote_of [] best = best"
| "best_quote_loop quote_of (fee # fees) best =
     (case quote_of fee of
        Inr q \<Rightarrow>
          best_quote_loop quote_of fees
            (if (case best of None \<Rightarrow> True | Some b \<Rightarrow> qu_price b < qu_price q) then Some q else best)
      | Inl e \<Rightarrow> best_quote_loop quote_of fees best)"

text \<open>The clock is read for each tier; \<open>show_address\<close> is the \<open>Display\<close> of an address.\<close>

definition UniswapV3Source_best_quote ::
    "(address \<Rightarrow> string) \<Rightarrow> quoter_client \<Rightarrow> (u32 \<Rightarrow> datetime) \<Rightarrow> address \<Rightarrow> address \<Rightarrow> u256 \<Rightarrow> uniswap_v3_source \<Rightarrow>
     pricing_error + price_quote" where
  "UniswapV3Source_best_quote show_address client clock token_in token_out amount_in us =
     (case best_quote_loop
        (\<lambda>fee. UniswapV3Source_quote_single client (clock fee) token_in token_out amount_in fee us)
        ALL_FEE_TIERS None of
        Some q \<Rightarrow> Inr q
      | None \<Rightarrow> Inl (NoPriceAvailable (show_address token_in) (show_address token_out) (us_chain_id us)))"

definition UniswapV3Source_get_price ::
    "(address \<Rightarrow> string) \<Rightarrow> quoter_client \<Rightarrow> (u32 \<Rightarrow> datetime) \<Rightarrow> uniswap_v3_source \<Rightarrow>
     token \<Rightarrow> token \<Rightarrow> chain_id \<Rightarrow> pricing_error + u256" where
  "UniswapV3Source_get_price show_address client clock us base qtoken chain_id =
     (if chain_id \<noteq> us_chain_id us
      then Inl (SourceUnavailable (Fmt ''uniswap v3 source configured for {:?}, requested {:?}''
        [Str (ChainId_name (us_chain_id us)), Str (ChainId_name chain_id)]))
      else case UniswapV3Source_best_quote show_address client clock (tk_address base) (tk_address qtoken)
          (one_unit base) us of
        Inl e \<Rightarrow> Inl e
      | Inr result \<Rightarrow> Inr (qu_price result))"

section \<open>Curve and Balancer\<close>

record curve_source =
  cs_pool_address :: address
  cs_chain_id :: chain_id
  cs_coin_indices :: "(address \<times> i128) list"

definition CurveSource_new :: "address \<Rightarrow> chain_id \<Rightarrow> (address \<times> i128) list \<Rightarrow> curve_source" where
  "CurveSource_new pool_address chain_id coin_indices =
     \<lparr>cs_pool_address = pool_address, cs_chain_id = chain_id, cs_coin_indices = coin_indices\<rparr>"

definition CurveSource_coin_index :: "address \<Rightarrow> curve_source \<Rightarrow> i128 option" where
  "CurveSource_coin_index token cs =
     map_option snd (find (\<lambda>(addr, _). addr = token) (cs_coin_indices cs))"

text \<open>The call \<open>get_dy(i, j, dx)\<close> and its result.\<close>

type_synonym curve_client = "(i128 \<times> i128 \<times> u256, u256) dex_client"

definition CurveSource_get_price ::
    "curve_client \<Rightarrow> curve_source \<Rightarrow> token \<Rightarrow> token \<Rightarrow> chain_id \<Rightarrow> pricing_error + u256" where
  "CurveSource_get_price client cs base qtoken chain_id =
     (if chain_id \<noteq> cs_chain_id cs
      then Inl (SourceUnavailable (Fmt ''curve source configured for {:?}, requested {:?}''
        [Str (ChainId_name (cs_chain_id cs)), Str (ChainId_name chain_id)]))
      else case CurveSource_coin_index (tk_address base) cs of
        None \<Rightarrow> Inl (NoPriceAvailable (tk_symbol base) (tk_symbol qtoken) chain_id)
      | Some i \<Rightarrow>
          (case CurveSource_coin_index (tk_address qtoken) cs of
             None \<Rightarrow> Inl (NoPriceAvailable (tk_symbol base) (tk_symbol qtoken) chain_id)
           | Some j \<Rightarrow>
               (case eth_call client (cs_pool_address cs) (dx_encode client (i, j, one_unit base)) of
                  Inl e \<Rightarrow> Inl e
                | Inr result_bytes \<Rightarrow>
                    (case dx_decode client result_bytes of
                       Inl e \<Rightarrow> Inl (SourceUnavailable (Fmt ''failed to decode curve get_dy: {e}'' [Str e]))
                     | Inr decoded \<Rightarrow> Inr decoded))))"

record balancer_source =
  ls_vault_address :: address
  ls_chain_id :: chain_id
  ls_pool_id :: b256

definition BalancerSource_new :: "address \<Rightarrow> chain_id \<Rightarrow> b256 \<Rightarrow> balancer_source" where
  "BalancerSource_new vault_address chain_id pool_id =
     \<lparr>ls_vault_address = vault_address, ls_chain_id = chain_id, ls_pool_id = pool_id\<rparr>"

datatype swap_kind = GIVEN_IN | GIVEN_OUT

record single_swap =
  sw_pool_id :: b256
  sw_kind :: swap_kind
  sw_asset_in :: address
  sw_asset_out :: address
  sw_amount :: u256
  sw_user_data :: bytes

record fund_management =
  fm_sender :: address
  fm_from_internal_balance :: bool
  fm_recipient :: address
  fm_to_internal_balance :: bool

type_synonym balancer_client = "(single_swap \<times> fund_management, u256) dex_client"

definition BalancerSource_get_price ::
    "balancer_client \<Rightarrow> balancer_source \<Rightarrow> token \<Rightarrow> token \<Rightarrow> chain_id \<Rightarrow> pricing_error + u256" where
  "BalancerSource_get_price client bs base qtoken chain_id =
     (if chain_id \<noteq> ls_chain_id bs
      then Inl (SourceUnavailable (Fmt ''balancer source configured for {:?}, requested {:?}''
        [Str (ChainId_name (ls_chain_id bs)), Str (ChainId_name chain_id)]))
      else
        let call = (\<lparr>sw_pool_id = ls_pool_id bs, sw_kind = GIVEN_IN, sw_asset_in = tk_address base,
                     sw_asset_out = tk_address qtoken, sw_amount = one_unit base, sw_user_data = []\<rparr>,
                    \<lparr>fm_sender = address_zero, fm_from_internal_balance = False,
                     fm_recipient = address_zero, fm_to_internal_balance = False\<rparr>)
        in case eth_call client (ls_vault_address bs) (dx_encode client call) of
             Inl e \<Rightarrow> Inl e
           | Inr result_bytes \<Rightarrow>
               (case dx_decode client result_bytes of
                  Inl e \<Rightarrow> Inl (SourceUnavailable (Fmt ''failed to decode balancer querySwap: {e}'' [Str e]))
                | Inr decoded \<Rightarrow> Inr decoded))"

section \<open>The best tier\<close>

text \<open>The amount a fee tier quotes, if its call and its decoding succeed.\<close>

definition tier_amount :: "quoter_client \<Rightarrow> uniswap_v3_source \<Rightarrow> token \<Rightarrow> token \<Rightarrow> u32 \<Rightarrow> u256 option" where
  "tier_amount client us base qtoken fee =
     (case dx_call client (us_quoter_address us) (dx_encode client
        \<lparr>qp_token_in = tk_address base, qp_token_out = tk_address qtoken, qp_amount_in = one_unit base,
         qp_fee = ucast fee, qp_sqrt_price_limit = 0\<rparr>) of
        Inr result \<Rightarrow> (case dx_decode client result of Inr (amount, _) \<Rightarrow> Some amount | Inl _ \<Rightarrow> None)
      | Inl _ \<Rightarrow> None)"

lemma best_quote_loop_result:
  "case best_quote_loop f fees best of
     None \<Rightarrow> best = None \<and> (\<forall>fee \<in> set fees. \<exists>e. f fee = Inl e)
   | Some q \<Rightarrow> (best = Some q \<or> (\<exists>fee \<in> set fees. f fee = Inr q))
       \<and> (\<forall>b. best = Some b \<longrightarrow> qu_price b \<le> qu_price q)
       \<and> (\<forall>fee \<in> set fees. \<forall>q'. f fee = Inr q' \<longrightarrow> qu_price q' \<le> qu_price q)"
proof (induction fees arbitrary: best)
  case Nil
  then show ?case by (cases best) auto
next
  case (Cons fee fees)
  show ?case
  proof (cases "f fee")
    case (Inl e)
    with Cons [of best] show ?thesis by (auto split: option.splits)
  next
    case (Inr q)
    show ?thesis
    proof (cases "case best of None \<Rightarrow> True | Some b \<Rightarrow> qu_price b < qu_price q")
      case True
      with Cons [of "Some q"] Inr show ?thesis
        by (auto split: option.splits dest: less_imp_le intro: order_trans less_imp_le)
    next
      case False
      then obtain b where "best = Some b" "qu_price q \<le> qu_price b" by (auto split: option.splits)
      with Cons [of best] Inr False show ?thesis
        by (auto split: option.splits intro: order_trans)
    qed
  qed
qed

lemma quote_single_amount:
  assumes "fee \<in> set ALL_FEE_TIERS"
  shows "map_option qu_price (case UniswapV3Source_quote_single client now (tk_address base) (tk_address qtoken)
      (one_unit base) fee us of Inr q \<Rightarrow> Some q | Inl _ \<Rightarrow> None) = tier_amount client us base qtoken fee"
  using assms
  by (auto simp: ALL_FEE_TIERS_def UniswapV3Source_quote_single_def eth_call_def tier_amount_def Let_def
      PriceQuote_with_gas_estimate_def PriceQuote_new_def split: sum.splits)

lemma one_unit_exact: "unat (tk_decimals base) < 78 \<Longrightarrow> unat (one_unit base) = 10 ^ unat (tk_decimals base)"
proof -
  assume d: "unat (tk_decimals base) < 78"
  have "(10::nat) ^ unat (tk_decimals base) \<le> 10 ^ 77" using d by (intro power_increasing) auto
  also have "\<dots> < 2 ^ 256" by simp
  finally have "(10::nat) ^ unat (tk_decimals base) < 2 ^ 256" .
  moreover have "one_unit base = word_of_nat (10 ^ unat (tk_decimals base))"
    by (simp add: one_unit_def)
  ultimately show ?thesis
    by (intro of_nat_inverse) simp_all
qed

text \<open>
  The Uniswap source quotes one whole base token in every fee tier and answers the greatest amount
  any tier gives; it fails exactly for another chain or when no tier can be quoted.
\<close>

theorem uniswap_best_tier:
  "case UniswapV3Source_get_price show_address client clock us base qtoken chain of
     Inr price \<Rightarrow> chain = us_chain_id us
       \<and> Some price \<in> tier_amount client us base qtoken ` set ALL_FEE_TIERS
       \<and> list_all (\<lambda>fee. case tier_amount client us base qtoken fee of Some a \<Rightarrow> a \<le> price | None \<Rightarrow> True)
           ALL_FEE_TIERS
   | Inl e \<Rightarrow> (if chain = us_chain_id us
       then e = NoPriceAvailable (show_address (tk_address base)) (show_address (tk_address qtoken)) chain
         \<and> tier_amount client us base qtoken ` set ALL_FEE_TIERS = {None}
       else True)"
proof -
  let ?f = "\<lambda>fee. UniswapV3Source_quote_single client (clock fee) (tk_address base) (tk_address qtoken)
    (one_unit base) fee us"
  have amount: "tier_amount client us base qtoken fee =
      map_option qu_price (case ?f fee of Inr q \<Rightarrow> Some q | Inl _ \<Rightarrow> None)" if "fee \<in> set ALL_FEE_TIERS" for fee
    using quote_single_amount [OF that] by simp
  show ?thesis
  proof (cases "chain = us_chain_id us")
    case False
    then show ?thesis by (simp add: UniswapV3Source_get_price_def)
  next
    case True
    show ?thesis
    proof (cases "best_quote_loop ?f ALL_FEE_TIERS None")
      case None
      with best_quote_loop_result [where f = ?f and fees = ALL_FEE_TIERS and best = None] have "\<forall>fee \<in> set ALL_FEE_TIERS. \<exists>e. ?f fee = Inl e"
        by simp
      then have "tier_amount client us base qtoken ` set ALL_FEE_TIERS = {None}"
        using amount by (force simp: ALL_FEE_TIERS_def)
      with None True show ?thesis
        by (simp add: UniswapV3Source_get_price_def UniswapV3Source_best_quote_def)
    next
      case (Some q)
      with best_quote_loop_result [where f = ?f and fees = ALL_FEE_TIERS and best = None]
      have q: "\<exists>fee \<in> set ALL_FEE_TIERS. ?f fee = Inr q"
        and ge: "\<And>fee q'. fee \<in> set ALL_FEE_TIERS \<Longrightarrow> ?f fee = Inr q' \<Longrightarrow> qu_price q' \<le> qu_price q"
        by auto
      from q obtain fee where "fee \<in> set ALL_FEE_TIERS" "?f fee = Inr q" by blast
      with amount [of fee] have "Some (qu_price q) \<in> tier_amount client us base qtoken ` set ALL_FEE_TIERS"
        by (intro image_eqI [of _ _ fee]) simp_all
      moreover have "list_all (\<lambda>fee. case tier_amount client us base qtoken fee of
          Some a \<Rightarrow> a \<le> qu_price q | None \<Rightarrow> True) ALL_FEE_TIERS"
        unfolding list_all_iff using amount ge by (auto split: sum.split)
      ultimately show ?thesis
        using Some True by (simp add: UniswapV3Source_get_price_def UniswapV3Source_best_quote_def)
    qed
  qed
qed

section \<open>Sources behind the aggregator\<close>


fun source_answer_of :: "(pricing_error + u256) option \<Rightarrow> source_answer" where
  "source_answer_of (Some (Inr price)) = Price price"
| "source_answer_of (Some (Inl e)) = Source_Error"
| "source_answer_of None = Timed_Out"

lemma source_answer_of_Price: "source_answer_of r = Price p \<longleftrightarrow> r = Some (Inr p)"
  by (cases r rule: source_answer_of.cases) auto

locale chain_bound =
  fixes get_price :: "'s \<Rightarrow> token \<Rightarrow> token \<Rightarrow> chain_id \<Rightarrow> pricing_error + u256"
    and bound_to :: "'s \<Rightarrow> chain_id"
  assumes foreign_chain: "chain \<noteq> bound_to s \<Longrightarrow> \<exists>msg. get_price s base qtoken chain = Inl (SourceUnavailable msg)"
begin

lemma priced_on_own_chain: "get_price s base qtoken chain = Inr p \<Longrightarrow> bound_to s = chain"
  using foreign_chain [of chain s base qtoken] by (cases "chain = bound_to s") auto

end

interpretation uniswap: chain_bound "UniswapV3Source_get_price show_address client clock" us_chain_id
  for show_address client clock
  by unfold_locales (simp add: UniswapV3Source_get_price_def)

interpretation curve: chain_bound "CurveSource_get_price client" cs_chain_id for client
  by unfold_locales (simp add: CurveSource_get_price_def)

interpretation balancer: chain_bound "BalancerSource_get_price client" ls_chain_id for client
  by unfold_locales (simp add: BalancerSource_get_price_def)










section \<open>Examples\<close>







text \<open>
  The amount a source answers is for one whole base token, not for its smallest unit, and for a
  token of 78 or more decimals the amount of one whole token wraps.
\<close>

lemma one_unit_wraps: "one_unit (Token_new a chain 255 symbol) < one_unit (Token_new a chain 77 symbol)"
  by (simp add: one_unit_def Token_new_def word_less_nat_alt)

end
