(* ===== verification/Config.thy ===== *)
theory Config
  imports Types
begin

text \<open>
  The application configuration, \<open>phantom-common/src/config.rs\<close>: defaults, validation, and the
  overrides from the environment.  The TOML parser, the file system and the environment are
  arguments; a parser answers a value or the text of its error.
\<close>

section \<open>Configuration records\<close>

record chain_config =
  hc_chain_id :: chain_id
  hc_rpc_url :: string
  hc_ws_url :: "string option"
  hc_max_concurrent_requests :: nat
  hc_request_timeout_ms :: u64
  hc_mempool_enabled :: bool

record database_config =
  dc_url :: string
  dc_max_connections :: u32
  dc_min_connections :: u32
  dc_connect_timeout_secs :: u64

record redis_config =
  rd_url :: string
  rd_pool_size :: nat

record strategy_config =
  sf_min_profit_bps :: u32
  sf_max_gas_price_gwei :: u64
  sf_evaluation_timeout_ms :: u64
  sf_enabled_strategies :: "string list"

record execution_config =
  xc_private_key :: "string option"
  xc_flashbots_enabled :: bool
  xc_flashbots_relay_url :: "string option"
  xc_max_retries :: u32
  xc_retry_delay_ms :: u64

record api_settings =
  ai_host :: string
  ai_port :: u16
  ai_websocket_enabled :: bool

record metrics_settings =
  me_enabled :: bool
  me_port :: u16
  me_log_level :: string
  me_json_logs :: bool

text \<open>The map of chains is listed in its order of iteration, which is unspecified.\<close>

record app_config =
  ac_chains :: "(string \<times> chain_config) list"
  ac_database :: database_config
  ac_redis :: redis_config
  ac_strategy :: strategy_config
  ac_execution :: execution_config
  ac_api :: api_settings
  ac_metrics :: metrics_settings

definition default_max_concurrent_requests :: nat where "default_max_concurrent_requests = 64"
definition default_request_timeout_ms :: u64 where "default_request_timeout_ms = 5000"
definition default_max_connections :: u32 where "default_max_connections = 10"
definition default_min_connections :: u32 where "default_min_connections = 2"
definition default_connect_timeout_secs :: u64 where "default_connect_timeout_secs = 10"
definition default_redis_pool_size :: nat where "default_redis_pool_size = 16"
definition default_min_profit_bps :: u32 where "default_min_profit_bps = 10"
definition default_max_gas_price_gwei :: u64 where "default_max_gas_price_gwei = 100"
definition default_evaluation_timeout_ms :: u64 where "default_evaluation_timeout_ms = 50"
definition default_enabled_strategies :: "string list" where "default_enabled_strategies = [''simple_arb'']"
definition default_max_retries :: u32 where "default_max_retries = 3"
definition default_retry_delay_ms :: u64 where "default_retry_delay_ms = 1000"
definition default_api_host :: string where "default_api_host = ''127.0.0.1''"
definition default_api_port :: u16 where "default_api_port = 8080"
definition default_metrics_port :: u16 where "default_metrics_port = 9090"
definition default_log_level :: string where "default_log_level = ''info''"
definition default_true :: bool where "default_true = True"

datatype config_error =
    FileRead string string
  | ParseError string
  | Validation message

section \<open>Validation and loading\<close>

fun validate_chains :: "(string \<times> chain_config) list \<Rightarrow> config_error option" where
  "validate_chains [] = None"
| "validate_chains ((name, cc) # rest) =
     (if hc_rpc_url cc = []
      then Some (Validation (Fmt (''chain '' @ [CHR 0x27] @ ''{name}'' @ [CHR 0x27] @ '' has empty rpc_url'') [Str name]))
      else validate_chains rest)"

definition AppConfig_validate :: "app_config \<Rightarrow> config_error + unit" where
  "AppConfig_validate c =
     (if ac_chains c = [] then Inl (Validation (lit ''at least one chain must be configured''))
      else case validate_chains (ac_chains c) of
        Some e \<Rightarrow> Inl e
      | None \<Rightarrow>
          if dc_url (ac_database c) = [] then Inl (Validation (lit ''database.url must not be empty''))
          else if rd_url (ac_redis c) = [] then Inl (Validation (lit ''redis.url must not be empty''))
          else if dc_max_connections (ac_database c) = 0
          then Inl (Validation (lit ''database.max_connections must be > 0''))
          else Inr ())"

definition AppConfig_from_toml_str ::
    "(string \<Rightarrow> string + app_config) \<Rightarrow> string \<Rightarrow> config_error + app_config" where
  "AppConfig_from_toml_str parse content =
     (case parse content of
        Inl e \<Rightarrow> Inl (ParseError e)
      | Inr config \<Rightarrow>
          (case AppConfig_validate config of
             Inl e \<Rightarrow> Inl e
           | Inr _ \<Rightarrow> Inr config))"

definition AppConfig_from_file ::
    "(string \<Rightarrow> string + string) \<Rightarrow> (string \<Rightarrow> string + app_config) \<Rightarrow> string \<Rightarrow> config_error + app_config" where
  "AppConfig_from_file read_file parse path =
     (case read_file path of
        Inl e \<Rightarrow> Inl (FileRead path e)
      | Inr content \<Rightarrow> AppConfig_from_toml_str parse content)"

text \<open>\<open>str::parse::<u16>\<close>: an optional plus sign and decimal digits, below 2^16.\<close>

definition parse_u16 :: "string \<Rightarrow> u16 option" where
  "parse_u16 s =
     (let digits = (if s \<noteq> [] \<and> hd s = CHR ''+'' then tl s else s) in
      if digits = [] \<or> \<not> list_all is_digit digits then None
      else if decimal_value digits < 2 ^ 16 then Some (of_nat (decimal_value digits)) else None)"

text \<open>\<open>env\<close> is \<open>std::env::var\<close>; each \<open>if let\<close> is one step.\<close>

definition override :: "(string \<Rightarrow> string option) \<Rightarrow> string \<Rightarrow> (string \<Rightarrow> app_config \<Rightarrow> app_config) \<Rightarrow>
    app_config \<Rightarrow> app_config" where
  "override env var set_val c = (case env var of Some val \<Rightarrow> set_val val c | None \<Rightarrow> c)"

definition AppConfig_apply_env_overrides :: "(string \<Rightarrow> string option) \<Rightarrow> app_config \<Rightarrow> app_config" where
  "AppConfig_apply_env_overrides env c =
     (let c = override env ''PHANTOM_DATABASE_URL'' (\<lambda>v c. c\<lparr>ac_database := (ac_database c)\<lparr>dc_url := v\<rparr>\<rparr>) c;
          c = override env ''PHANTOM_REDIS_URL'' (\<lambda>v c. c\<lparr>ac_redis := (ac_redis c)\<lparr>rd_url := v\<rparr>\<rparr>) c;
          c = override env ''PHANTOM_API_HOST'' (\<lambda>v c. c\<lparr>ac_api := (ac_api c)\<lparr>ai_host := v\<rparr>\<rparr>) c;
          c = override env ''PHANTOM_API_PORT'' (\<lambda>v c. case parse_u16 v of
                Some port \<Rightarrow> c\<lparr>ac_api := (ac_api c)\<lparr>ai_port := port\<rparr>\<rparr> | None \<Rightarrow> c) c;
          c = override env ''PHANTOM_LOG_LEVEL'' (\<lambda>v c. c\<lparr>ac_metrics := (ac_metrics c)\<lparr>me_log_level := v\<rparr>\<rparr>) c
      in override env ''PHANTOM_PRIVATE_KEY''
           (\<lambda>v c. c\<lparr>ac_execution := (ac_execution c)\<lparr>xc_private_key := Some v\<rparr>\<rparr>) c)"

section \<open>Accepted configurations\<close>

definition config_valid :: "app_config \<Rightarrow> bool" where
  "config_valid c \<longleftrightarrow> ac_chains c \<noteq> [] \<and> list_all (\<lambda>(_, cc). hc_rpc_url cc \<noteq> []) (ac_chains c)
     \<and> dc_url (ac_database c) \<noteq> [] \<and> rd_url (ac_redis c) \<noteq> [] \<and> 0 < unat (dc_max_connections (ac_database c))"

lemma validate_chains_None:
  "validate_chains ccs = None \<longleftrightarrow> list_all (\<lambda>(_, cc). hc_rpc_url cc \<noteq> []) ccs"
  by (induction ccs rule: validate_chains.induct) auto

lemma validate_iff: "AppConfig_validate c = Inr () \<longleftrightarrow> config_valid c"
  by (cases "validate_chains (ac_chains c)")
     (auto simp: AppConfig_validate_def config_valid_def unat_gt_0 simp flip: validate_chains_None)

text \<open>What the overrides leave: each of the six settings from the environment or as it was.\<close>

definition overridden :: "(string \<Rightarrow> string option) \<Rightarrow> app_config \<Rightarrow> app_config" where
  "overridden env c =
     c\<lparr>ac_database := (ac_database c)\<lparr>dc_url := (case env ''PHANTOM_DATABASE_URL'' of
         Some v \<Rightarrow> v | None \<Rightarrow> dc_url (ac_database c))\<rparr>,
       ac_redis := (ac_redis c)\<lparr>rd_url := (case env ''PHANTOM_REDIS_URL'' of
         Some v \<Rightarrow> v | None \<Rightarrow> rd_url (ac_redis c))\<rparr>,
       ac_api := (ac_api c)\<lparr>ai_host := (case env ''PHANTOM_API_HOST'' of
           Some v \<Rightarrow> v | None \<Rightarrow> ai_host (ac_api c)),
         ai_port := (case Option.bind (env ''PHANTOM_API_PORT'') parse_u16 of
           Some p \<Rightarrow> p | None \<Rightarrow> ai_port (ac_api c))\<rparr>,
       ac_metrics := (ac_metrics c)\<lparr>me_log_level := (case env ''PHANTOM_LOG_LEVEL'' of
         Some v \<Rightarrow> v | None \<Rightarrow> me_log_level (ac_metrics c))\<rparr>,
       ac_execution := (ac_execution c)\<lparr>xc_private_key := (case env ''PHANTOM_PRIVATE_KEY'' of
         Some v \<Rightarrow> Some v | None \<Rightarrow> xc_private_key (ac_execution c))\<rparr>\<rparr>"

lemma apply_env_overrides_eq: "AppConfig_apply_env_overrides env c = overridden env c"
proof -
  have db: "override env var (\<lambda>v c. c\<lparr>ac_database := (ac_database c)\<lparr>dc_url := v\<rparr>\<rparr>) c =
      c\<lparr>ac_database := (ac_database c)\<lparr>dc_url := (case env var of Some v \<Rightarrow> v | None \<Rightarrow> dc_url (ac_database c))\<rparr>\<rparr>" for var c
    by (cases "env var") (simp_all add: override_def)
  have rd: "override env var (\<lambda>v c. c\<lparr>ac_redis := (ac_redis c)\<lparr>rd_url := v\<rparr>\<rparr>) c =
      c\<lparr>ac_redis := (ac_redis c)\<lparr>rd_url := (case env var of Some v \<Rightarrow> v | None \<Rightarrow> rd_url (ac_redis c))\<rparr>\<rparr>" for var c
    by (cases "env var") (simp_all add: override_def)
  have host: "override env var (\<lambda>v c. c\<lparr>ac_api := (ac_api c)\<lparr>ai_host := v\<rparr>\<rparr>) c =
      c\<lparr>ac_api := (ac_api c)\<lparr>ai_host := (case env var of Some v \<Rightarrow> v | None \<Rightarrow> ai_host (ac_api c))\<rparr>\<rparr>" for var c
    by (cases "env var") (simp_all add: override_def)
  have port: "override env var (\<lambda>v c. case parse_u16 v of
        Some port \<Rightarrow> c\<lparr>ac_api := (ac_api c)\<lparr>ai_port := port\<rparr>\<rparr> | None \<Rightarrow> c) c =
      c\<lparr>ac_api := (ac_api c)\<lparr>ai_port := (case Option.bind (env var) parse_u16 of
        Some p \<Rightarrow> p | None \<Rightarrow> ai_port (ac_api c))\<rparr>\<rparr>" for var c
    by (cases "env var"; cases "parse_u16 (the (env var))") (simp_all add: override_def)
  have level: "override env var (\<lambda>v c. c\<lparr>ac_metrics := (ac_metrics c)\<lparr>me_log_level := v\<rparr>\<rparr>) c =
      c\<lparr>ac_metrics := (ac_metrics c)\<lparr>me_log_level :=
        (case env var of Some v \<Rightarrow> v | None \<Rightarrow> me_log_level (ac_metrics c))\<rparr>\<rparr>" for var c
    by (cases "env var") (simp_all add: override_def)
  have key: "override env var (\<lambda>v c. c\<lparr>ac_execution := (ac_execution c)\<lparr>xc_private_key := Some v\<rparr>\<rparr>) c =
      c\<lparr>ac_execution := (ac_execution c)\<lparr>xc_private_key :=
        (case env var of Some v \<Rightarrow> Some v | None \<Rightarrow> xc_private_key (ac_execution c))\<rparr>\<rparr>" for var c
    by (cases "env var") (simp_all add: override_def)
  show ?thesis
    by (simp only: AppConfig_apply_env_overrides_def overridden_def Let_def db rd host port level key) (simp cong: option.case_cong)
qed

text \<open>Every port reads back from its decimal text, with or without a plus sign.\<close>

lemma parse_u16_decimal: "parse_u16 (decimal (unat p)) = Some p" "parse_u16 (CHR ''+'' # decimal (unat p)) = Some p"
proof -
  have "\<not> is_digit CHR ''+''" by (simp add: is_digit_def of_char_Char)
  then have "hd (decimal (unat p)) \<noteq> CHR ''+''"
    using decimal_digits [of "unat p"] by (cases "decimal (unat p)") auto
  then show "parse_u16 (decimal (unat p)) = Some p"
    using decimal_digits [of "unat p"] unat_lt2p [of p] by (simp add: parse_u16_def Let_def)
  show "parse_u16 (CHR ''+'' # decimal (unat p)) = Some p"
    using decimal_digits [of "unat p"] unat_lt2p [of p] by (simp add: parse_u16_def Let_def)
qed

text \<open>
  C35: Loading accepts exactly the parsed configurations that are valid (a chain, each with an RPC
  endpoint, a database and a Redis URL, and at least one connection) and changes nothing in
  them; the error of a configuration that parses is a validation error, never silence.  The
  overrides replace exactly the six settings whose variables are set (the port only by the text of
  a port, which reads back exactly), are idempotent, and touch nothing else.
\<close>

theorem config_loading_exact:
  "(case AppConfig_from_toml_str parse content of
      Inr c \<Rightarrow> parse content = Inr c \<and> config_valid c
    | Inl (ParseError e) \<Rightarrow> parse content = Inl e
    | Inl (Validation msg) \<Rightarrow> (\<exists>c. parse content = Inr c \<and> \<not> config_valid c)
    | Inl (FileRead _ _) \<Rightarrow> False)
   \<and> AppConfig_apply_env_overrides env c = overridden env c
   \<and> AppConfig_apply_env_overrides env (AppConfig_apply_env_overrides env c) = AppConfig_apply_env_overrides env c
   \<and> (let c' = AppConfig_apply_env_overrides (env(''PHANTOM_API_PORT'' \<mapsto> decimal (unat p))) c in
      ai_port (ac_api c') = p \<and> ac_chains c' = ac_chains c \<and> ac_strategy c' = ac_strategy c)"
proof -
  have val: "\<exists>msg. e = Validation msg" if "AppConfig_validate d = Inl e" for d e
  proof -
    have "\<exists>msg. e = Validation msg" if "validate_chains ccs = Some e" for ccs
      using that by (induction ccs rule: validate_chains.induct) (auto split: if_splits)
    with that show ?thesis by (auto simp: AppConfig_validate_def split: if_splits option.splits)
  qed
  have load: "case AppConfig_from_toml_str parse content of
      Inr c \<Rightarrow> parse content = Inr c \<and> config_valid c
    | Inl (ParseError e) \<Rightarrow> parse content = Inl e
    | Inl (Validation msg) \<Rightarrow> (\<exists>c. parse content = Inr c \<and> \<not> config_valid c)
    | Inl (FileRead _ _) \<Rightarrow> False"
  proof (cases "parse content")
    case (Inl e)
    then show ?thesis by (simp add: AppConfig_from_toml_str_def)
  next
    case (Inr d)
    show ?thesis
    proof (cases "AppConfig_validate d")
      case (Inl e)
      moreover have "\<not> config_valid d" using Inl validate_iff [of d] by auto
      ultimately show ?thesis using Inr val [OF Inl] by (auto simp: AppConfig_from_toml_str_def)
    next
      case valid: (Inr u)
      then have "config_valid d" using validate_iff [of d] by simp
      with valid Inr show ?thesis by (simp add: AppConfig_from_toml_str_def)
    qed
  qed
  have "overridden env (overridden env c) = overridden env c"
    by (auto simp: overridden_def split: option.split)
  moreover have "ai_port (ac_api (overridden (env(''PHANTOM_API_PORT'' \<mapsto> decimal (unat p))) c)) = p"
    by (simp add: overridden_def parse_u16_decimal)
  ultimately show ?thesis
    using load by (simp add: apply_env_overrides_eq Let_def) (simp add: overridden_def)
qed

text \<open>
  The overrides are applied after validation: with an empty variable the configuration the program
  runs with is one that validation rejects.
\<close>

lemma override_invalidates:
  assumes "env ''PHANTOM_DATABASE_URL'' = Some []"
  shows "\<not> config_valid (AppConfig_apply_env_overrides env c)"
  by (simp add: apply_env_overrides_eq overridden_def config_valid_def assms)

end
