(* ===== verification/Provider.thy ===== *)
theory Provider
  imports Config Dash_Map
begin

text \<open>
  The provider manager, \<open>phantom-chain/src/provider.rs\<close>.  A connected provider is a value of the
  parameter type \<open>'p\<close>; the URL parser, the HTTP connector and the providers' answers are arguments.
\<close>

section \<open>The manager\<close>

record 'p provider_manager =
  vm_providers :: "(chain_id, 'p) dashmap"
  vm_configs :: "(chain_id, chain_config) dashmap"

definition ProviderManager_new :: "'p provider_manager" where
  "ProviderManager_new = \<lparr>vm_providers = dm_empty, vm_configs = dm_empty\<rparr>"

definition ProviderManager_add_chain ::
    "(string \<Rightarrow> string + 'u) \<Rightarrow> ('u \<Rightarrow> 'p) \<Rightarrow> chain_config \<Rightarrow> 'p provider_manager \<Rightarrow>
     'p provider_manager \<times> (chain_error + unit)" where
  "ProviderManager_add_chain parse_url connect config vm =
     (let chain_id = hc_chain_id config in
      case parse_url (hc_rpc_url config) of
        Inl e \<Rightarrow> (vm, Inl (ConnectionFailed chain_id (Fmt ''invalid RPC URL: {e}'' [Str e])))
      | Inr rpc_url \<Rightarrow>
          let provider = connect rpc_url;
              vm = vm\<lparr>vm_providers := dm_insert chain_id provider (vm_providers vm)\<rparr>;
              vm = vm\<lparr>vm_configs := dm_insert chain_id config (vm_configs vm)\<rparr>
          in (vm, Inr ()))"

fun add_chains ::
    "(string \<Rightarrow> string + 'u) \<Rightarrow> ('u \<Rightarrow> 'p) \<Rightarrow> (string \<times> chain_config) list \<Rightarrow> 'p provider_manager \<Rightarrow>
     chain_error + 'p provider_manager" where
  "add_chains parse_url connect [] vm = Inr vm"
| "add_chains parse_url connect ((name, config) # configs) vm =
     (case ProviderManager_add_chain parse_url connect config vm of
        (vm, Inl e) \<Rightarrow> Inl e
      | (vm, Inr _) \<Rightarrow> add_chains parse_url connect configs vm)"

definition ProviderManager_from_configs ::
    "(string \<Rightarrow> string + 'u) \<Rightarrow> ('u \<Rightarrow> 'p) \<Rightarrow> (string \<times> chain_config) list \<Rightarrow>
     chain_error + 'p provider_manager" where
  "ProviderManager_from_configs parse_url connect configs =
     add_chains parse_url connect configs ProviderManager_new"

definition ProviderManager_get_provider :: "chain_id \<Rightarrow> 'p provider_manager \<Rightarrow> chain_error + 'p" where
  "ProviderManager_get_provider chain_id vm =
     (case dm_get chain_id (vm_providers vm) of
        Some provider \<Rightarrow> Inr provider
      | None \<Rightarrow> Inl (UnsupportedChain chain_id))"

definition ProviderManager_get_config :: "chain_id \<Rightarrow> 'p provider_manager \<Rightarrow> chain_config option" where
  "ProviderManager_get_config chain_id vm = dm_get chain_id (vm_configs vm)"

definition ProviderManager_connected_chains :: "'p provider_manager \<Rightarrow> chain_id list" where
  "ProviderManager_connected_chains vm = map fst (dm_iter (vm_providers vm))"

text \<open>\<open>block_number\<close> is the provider's \<open>get_block_number\<close>.\<close>

definition ProviderManager_check_health ::
    "('p \<Rightarrow> string + u64) \<Rightarrow> chain_id \<Rightarrow> 'p provider_manager \<Rightarrow> chain_error + u64" where
  "ProviderManager_check_health block_number chain_id vm =
     (case ProviderManager_get_provider chain_id vm of
        Inl e \<Rightarrow> Inl e
      | Inr provider \<Rightarrow>
          (case block_number provider of
             Inl e \<Rightarrow> Inl (ProviderError chain_id (Fmt ''health check failed: {e}'' [Str e]))
           | Inr n \<Rightarrow> Inr n))"

definition ProviderManager_check_all_health ::
    "('p \<Rightarrow> string + u64) \<Rightarrow> 'p provider_manager \<Rightarrow> (chain_id \<times> (chain_error + u64)) list" where
  "ProviderManager_check_all_health block_number vm =
     map (\<lambda>chain_id. (chain_id, ProviderManager_check_health block_number chain_id vm))
       (ProviderManager_connected_chains vm)"

definition ProviderManager_remove_chain :: "chain_id \<Rightarrow> 'p provider_manager \<Rightarrow> 'p provider_manager \<times> bool" where
  "ProviderManager_remove_chain chain_id vm =
     (let removed = dm_contains chain_id (vm_providers vm);
          vm = vm\<lparr>vm_providers := dm_remove chain_id (vm_providers vm)\<rparr>
      in (vm\<lparr>vm_configs := dm_remove chain_id (vm_configs vm)\<rparr>, removed))"

definition ProviderManager_chain_count :: "'p provider_manager \<Rightarrow> nat" where
  "ProviderManager_chain_count vm = dm_len (vm_providers vm)"

section \<open>Providers and configurations agree\<close>

text \<open>
  Both maps have the same chains, and the provider of a chain is the one connected to the
  endpoint of the configuration stored for that chain.
\<close>

definition providers_agree :: "(string \<Rightarrow> string + 'u) \<Rightarrow> ('u \<Rightarrow> 'p) \<Rightarrow> 'p provider_manager \<Rightarrow> bool" where
  "providers_agree parse_url connect vm \<longleftrightarrow> dm_wf (vm_providers vm) \<and> dm_wf (vm_configs vm)
     \<and> (\<forall>c. case dm_get c (vm_configs vm) of
          None \<Rightarrow> dm_get c (vm_providers vm) = None
        | Some config \<Rightarrow> hc_chain_id config = c
            \<and> (\<exists>url. parse_url (hc_rpc_url config) = Inr url \<and> dm_get c (vm_providers vm) = Some (connect url)))"

lemma providers_agree_new: "providers_agree parse_url connect ProviderManager_new"
  by (simp add: providers_agree_def ProviderManager_new_def)

lemma providers_agree_at:
  "providers_agree parse_url connect vm \<Longrightarrow> (case dm_get c (vm_configs vm) of
      None \<Rightarrow> dm_get c (vm_providers vm) = None
    | Some config \<Rightarrow> hc_chain_id config = c
        \<and> (\<exists>url. parse_url (hc_rpc_url config) = Inr url \<and> dm_get c (vm_providers vm) = Some (connect url)))"
  by (simp add: providers_agree_def)

lemma providers_agree_add:
  assumes "providers_agree parse_url connect vm"
  shows "providers_agree parse_url connect (fst (ProviderManager_add_chain parse_url connect config vm))"
proof (cases "parse_url (hc_rpc_url config)")
  case (Inl e)
  with assms show ?thesis by (simp add: ProviderManager_add_chain_def Let_def)
next
  case (Inr url)
  show ?thesis
    unfolding providers_agree_def
  proof (intro conjI allI)
    fix c
    show "case dm_get c (vm_configs (fst (ProviderManager_add_chain parse_url connect config vm))) of
        None \<Rightarrow> dm_get c (vm_providers (fst (ProviderManager_add_chain parse_url connect config vm))) = None
      | Some config' \<Rightarrow> hc_chain_id config' = c
          \<and> (\<exists>url. parse_url (hc_rpc_url config') = Inr url
            \<and> dm_get c (vm_providers (fst (ProviderManager_add_chain parse_url connect config vm))) = Some (connect url))"
      using providers_agree_at [OF assms, of c] Inr
      by (cases "dm_get c (vm_configs vm)") (auto simp: ProviderManager_add_chain_def Let_def)
  qed (use assms Inr in \<open>auto simp: providers_agree_def ProviderManager_add_chain_def Let_def intro: wf_intros\<close>)
qed

lemma providers_agree_remove:
  assumes "providers_agree parse_url connect vm"
  shows "providers_agree parse_url connect (fst (ProviderManager_remove_chain d vm))"
  unfolding providers_agree_def
proof (intro conjI allI)
  fix c
  show "case dm_get c (vm_configs (fst (ProviderManager_remove_chain d vm))) of
      None \<Rightarrow> dm_get c (vm_providers (fst (ProviderManager_remove_chain d vm))) = None
    | Some config' \<Rightarrow> hc_chain_id config' = c
        \<and> (\<exists>url. parse_url (hc_rpc_url config') = Inr url
          \<and> dm_get c (vm_providers (fst (ProviderManager_remove_chain d vm))) = Some (connect url))"
    using providers_agree_at [OF assms, of c]
    by (cases "dm_get c (vm_configs vm)") (auto simp: ProviderManager_remove_chain_def Let_def)
qed (use assms in \<open>auto simp: providers_agree_def ProviderManager_remove_chain_def Let_def intro: wf_intros\<close>)

inductive provider_step ::
    "(string \<Rightarrow> string + 'u) \<Rightarrow> ('u \<Rightarrow> 'p) \<Rightarrow> 'p provider_manager \<Rightarrow> 'p provider_manager \<Rightarrow> bool"
  for parse_url connect where
  add: "provider_step parse_url connect vm (fst (ProviderManager_add_chain parse_url connect config vm))"
| remove: "provider_step parse_url connect vm (fst (ProviderManager_remove_chain c vm))"

lemma provider_run_agree:
  "(provider_step parse_url connect)\<^sup>*\<^sup>* vm vm' \<Longrightarrow> providers_agree parse_url connect vm \<Longrightarrow>
     providers_agree parse_url connect vm'"
  by (induction rule: rtranclp_induct)
     (auto elim: provider_step.cases intro: providers_agree_add providers_agree_remove)

text \<open>
  C36: After any additions and removals of chains, the manager has a provider for a chain exactly
  when it has its configuration, connected to the endpoint of that configuration; the health of
  every connected chain is checked exactly once, with the answer of its own provider; and a
  chain that is not connected is reported as unsupported.
\<close>

theorem providers_match_configs:
  assumes "(provider_step parse_url connect)\<^sup>*\<^sup>* ProviderManager_new vm"
  shows "(case ProviderManager_get_provider c vm of
      Inl e \<Rightarrow> e = UnsupportedChain c \<and> ProviderManager_get_config c vm = None
    | Inr p \<Rightarrow> (\<exists>config url. ProviderManager_get_config c vm = Some config \<and> hc_chain_id config = c
        \<and> parse_url (hc_rpc_url config) = Inr url \<and> p = connect url))
    \<and> (let results = ProviderManager_check_all_health block_number vm in
        distinct (map fst results) \<and> length results = ProviderManager_chain_count vm
        \<and> (c \<in> set (map fst results) \<longleftrightarrow> ProviderManager_get_config c vm \<noteq> None)
        \<and> (\<forall>c r. (c, r) \<in> set results \<longleftrightarrow> c \<in> set (ProviderManager_connected_chains vm)
              \<and> r = ProviderManager_check_health block_number c vm))"
proof -
  have agree: "providers_agree parse_url connect vm"
    using provider_run_agree [OF assms providers_agree_new] .
  then have wf: "dm_wf (vm_providers vm)" by (simp add: providers_agree_def)
  have c: "case dm_get c (vm_configs vm) of
      None \<Rightarrow> dm_get c (vm_providers vm) = None
    | Some config \<Rightarrow> hc_chain_id config = c
        \<and> (\<exists>url. parse_url (hc_rpc_url config) = Inr url \<and> dm_get c (vm_providers vm) = Some (connect url))" for c
    using agree by (simp add: providers_agree_def)
  have connected: "c \<in> set (ProviderManager_connected_chains vm) \<longleftrightarrow> dm_get c (vm_configs vm) \<noteq> None" for c
  proof -
    have "c \<in> set (ProviderManager_connected_chains vm) \<longleftrightarrow> (\<exists>p. (c, p) \<in> set (dm_iter (vm_providers vm)))"
      by (force simp: ProviderManager_connected_chains_def)
    also have "\<dots> \<longleftrightarrow> dm_get c (vm_configs vm) \<noteq> None"
      using c [of c] by (auto simp: dm.iter_get [OF wf] split: option.splits)
    finally show ?thesis .
  qed
  have names: "map fst (ProviderManager_check_all_health block_number vm) = ProviderManager_connected_chains vm"
    by (simp add: ProviderManager_check_all_health_def comp_def)
  have "distinct (ProviderManager_connected_chains vm)"
    using dm.distinct_iter [OF wf] by (simp add: ProviderManager_connected_chains_def)
  moreover have "length (ProviderManager_check_all_health block_number vm) = ProviderManager_chain_count vm"
    by (simp add: ProviderManager_check_all_health_def ProviderManager_connected_chains_def
        ProviderManager_chain_count_def)
  moreover have "(d, r) \<in> set (ProviderManager_check_all_health block_number vm) \<longleftrightarrow>
      d \<in> set (ProviderManager_connected_chains vm) \<and> r = ProviderManager_check_health block_number d vm" for d r
    by (auto simp: ProviderManager_check_all_health_def)
  ultimately show ?thesis
    using c [of c] connected unfolding Let_def names ProviderManager_get_provider_def ProviderManager_get_config_def
    by (auto split: option.splits)
qed

definition two_chains :: "nat provider_manager" where
  "two_chains = fst (ProviderManager_add_chain (\<lambda>u. Inr (length u)) id
     \<lparr>hc_chain_id = Arbitrum, hc_rpc_url = ''https://arb'', hc_ws_url = None, hc_max_concurrent_requests = 64,
      hc_request_timeout_ms = 5000, hc_mempool_enabled = False\<rparr> ProviderManager_new)"

lemma two_chains_run: "(provider_step (\<lambda>u. Inr (length u)) id)\<^sup>*\<^sup>* ProviderManager_new two_chains"
  unfolding two_chains_def by (rule r_into_rtranclp) (rule provider_step.add)

theorem providers_match_configs_witness:
  "ProviderManager_get_provider Arbitrum two_chains = Inr 11
   \<and> ProviderManager_get_provider Base two_chains = Inl (UnsupportedChain Base)
   \<and> ProviderManager_check_all_health (\<lambda>p. Inr (of_nat p)) two_chains = [(Arbitrum, Inr 11)]"
proof -
  have "ProviderManager_get_config Base two_chains = None"
    by (simp add: two_chains_def ProviderManager_get_config_def ProviderManager_add_chain_def
        ProviderManager_new_def Let_def)
  then have "ProviderManager_get_provider Base two_chains = Inl (UnsupportedChain Base)"
    using providers_match_configs [OF two_chains_run, of Base "\<lambda>_. Inl []", THEN conjunct1] by (auto split: sum.splits)
  then show ?thesis
    by (simp add: two_chains_def ProviderManager_add_chain_def ProviderManager_new_def
        ProviderManager_get_provider_def ProviderManager_check_all_health_def
        ProviderManager_connected_chains_def ProviderManager_check_health_def Let_def
        dm_iter_def dm_insert_def dm_get_def)
qed

text \<open>
  Building the manager from a configuration stops at the first endpoint that does not parse;
  otherwise it has a provider for every configured chain.
\<close>

lemma add_chains_all:
  "add_chains parse_url connect configs vm = Inr vm' \<Longrightarrow>
     (\<forall>c \<in> set (map snd configs). \<exists>url. parse_url (hc_rpc_url c) = Inr url)
     \<and> (provider_step parse_url connect)\<^sup>*\<^sup>* vm vm'"
proof (induction configs arbitrary: vm)
  case (Cons x configs)
  obtain name config where x: "x = (name, config)" by (cases x)
  obtain vm1 r where add: "ProviderManager_add_chain parse_url connect config vm = (vm1, r)"
    by (cases "ProviderManager_add_chain parse_url connect config vm")
  with Cons.prems have r: "r = Inr ()" "add_chains parse_url connect configs vm1 = Inr vm'"
    by (auto simp: x split: sum.splits)
  have "\<exists>url. parse_url (hc_rpc_url config) = Inr url"
    using add r(1) by (auto simp: ProviderManager_add_chain_def Let_def split: sum.splits)
  moreover have "provider_step parse_url connect vm vm1"
    using provider_step.add [of parse_url connect vm config] by (simp add: add)
  ultimately show ?case
    using Cons.IH [OF r(2)] by (auto simp: x intro: converse_rtranclp_into_rtranclp)
qed simp

section \<open>Overlapping additions\<close>

text \<open>
  \<open>add_chain\<close> writes the two maps one after the other.  Two additions of a chain that overlap can
  leave the provider of one with the configuration of the other: the agreement above rests on
  additions of one chain not overlapping.
\<close>

definition ProviderManager_put_provider :: "chain_id \<Rightarrow> 'p \<Rightarrow> 'p provider_manager \<Rightarrow> 'p provider_manager" where
  "ProviderManager_put_provider chain_id provider vm =
     vm\<lparr>vm_providers := dm_insert chain_id provider (vm_providers vm)\<rparr>"

definition ProviderManager_put_config :: "chain_config \<Rightarrow> 'p provider_manager \<Rightarrow> 'p provider_manager" where
  "ProviderManager_put_config config vm = vm\<lparr>vm_configs := dm_insert (hc_chain_id config) config (vm_configs vm)\<rparr>"

lemma add_chain_parts:
  "parse_url (hc_rpc_url config) = Inr url \<Longrightarrow>
     ProviderManager_add_chain parse_url connect config vm =
       (ProviderManager_put_config config (ProviderManager_put_provider (hc_chain_id config) (connect url) vm), Inr ())"
  by (simp add: ProviderManager_add_chain_def ProviderManager_put_provider_def ProviderManager_put_config_def Let_def)

lemma overlapping_additions:
  assumes "parse_url (hc_rpc_url config) = Inr url" "parse_url (hc_rpc_url config') = Inr url'"
    and "hc_chain_id config = c" "hc_chain_id config' = c" "connect url \<noteq> connect url'"
  shows "\<not> providers_agree parse_url connect
    (ProviderManager_put_config config (ProviderManager_put_config config'
      (ProviderManager_put_provider c (connect url') (ProviderManager_put_provider c (connect url) vm))))"
  using assms
  by (auto simp: providers_agree_def ProviderManager_put_provider_def ProviderManager_put_config_def
      intro!: exI [of _ c])

end
