(* ===== verification/Logging.thy ===== *)
theory Logging
  imports Prelude
begin

text \<open>
  The logging setup, \<open>phantom-metrics/src/logging.rs\<close>: the configuration, the filter it builds and
  the layer it installs.  \<open>EnvFilter\<close> and the subscriber belong to \<open>tracing\<close>: a filter is the text
  of its directives, and whether the global subscriber could be set is an argument.
\<close>

section \<open>Configuration\<close>

datatype log_format = Pretty | Json | Compact

record logging_config =
  lo_enabled :: bool
  lo_level :: string
  lo_format :: log_format
  lo_module_filters :: "string list"
  lo_include_location :: bool
  lo_include_span :: bool
  lo_include_thread_id :: bool
  lo_include_target :: bool

definition LoggingConfig_default :: logging_config where
  "LoggingConfig_default =
     \<lparr>lo_enabled = True, lo_level = ''info'', lo_format = Pretty, lo_module_filters = [],
      lo_include_location = False, lo_include_span = True, lo_include_thread_id = False,
      lo_include_target = True\<rparr>"

text \<open>\<open>[a, b, c].join(",")\<close>.\<close>

fun join :: "string \<Rightarrow> string list \<Rightarrow> string" where
  "join sep [] = []"
| "join sep [x] = x"
| "join sep (x # y # xs) = x @ sep @ join sep (y # xs)"

definition LoggingConfig_build_filter :: "(string \<Rightarrow> string option) \<Rightarrow> logging_config \<Rightarrow> string" where
  "LoggingConfig_build_filter env lo =
     (case env ''RUST_LOG'' of
        Some rust_log \<Rightarrow> rust_log
      | None \<Rightarrow> join '','' (lo_level lo # lo_module_filters lo))"

datatype level_filter = LF_Trace | LF_Debug | LF_Info | LF_Warn | LF_Error | LF_Off

text \<open>
  The names are lower-case ASCII, and no other character has a letter of one of them as its lower
  case, so lower-casing the ASCII letters decides the match exactly.
\<close>

definition level_filter_of :: "string \<Rightarrow> level_filter" where
  "level_filter_of s =
     (if s = ''trace'' then LF_Trace
      else if s = ''debug'' then LF_Debug
      else if s = ''info'' then LF_Info
      else if s = ''warn'' then LF_Warn
      else if s = ''error'' then LF_Error
      else if s = ''off'' then LF_Off
      else LF_Info)"

definition LoggingConfig_level_filter :: "logging_config \<Rightarrow> level_filter" where
  "LoggingConfig_level_filter lo = level_filter_of (to_lowercase (lo_level lo))"

datatype level = Trace | Debug | Info | Warn | Error

fun level_to_string :: "level \<Rightarrow> string" where
  "level_to_string Trace = ''trace''"
| "level_to_string Debug = ''debug''"
| "level_to_string Info = ''info''"
| "level_to_string Warn = ''warn''"
| "level_to_string Error = ''error''"

section \<open>Initialization\<close>

text \<open>The formatting layer: the format and what is switched on; \<open>None\<close> leaves the span list alone.\<close>

record fmt_layer =
  ly_format :: log_format
  ly_target :: bool
  ly_file :: bool
  ly_line_number :: bool
  ly_thread_ids :: bool
  ly_span_list :: "bool option"

definition logging_layer :: "logging_config \<Rightarrow> fmt_layer" where
  "logging_layer lo =
     \<lparr>ly_format = lo_format lo, ly_target = lo_include_target lo, ly_file = lo_include_location lo,
      ly_line_number = lo_include_location lo, ly_thread_ids = lo_include_thread_id lo,
      ly_span_list = (case lo_format lo of Json \<Rightarrow> Some (lo_include_span lo) | Pretty \<Rightarrow> None | Compact \<Rightarrow> None)\<rparr>"

text \<open>The filter and the layer that are installed; \<open>None\<close> when logging is disabled.\<close>

definition init_logging ::
    "(string \<Rightarrow> string option) \<Rightarrow> (string \<times> fmt_layer \<Rightarrow> string + unit) \<Rightarrow> logging_config \<Rightarrow>
     message + (string \<times> fmt_layer) option" where
  "init_logging env try_init lo =
     (if \<not> lo_enabled lo then Inr None
      else let env_filter = LoggingConfig_build_filter env lo; layer = logging_layer lo in
        case try_init (env_filter, layer) of
          Inl e \<Rightarrow> Inl (Fmt ''failed to initialize logging: {e}'' [Str e])
        | Inr _ \<Rightarrow> Inr (Some (env_filter, layer)))"

section \<open>Span and field names\<close>

definition span_names :: "string list" where
  "span_names = [''order_processing'', ''fill_execution'', ''price_fetch'', ''strategy_eval'',
     ''rpc_call'', ''settlement'', ''risk_check'']"

definition field_names :: "string list" where
  "field_names = [''chain_id'', ''order_id'', ''tx_hash'', ''token'', ''strategy'', ''duration_ms'',
     ''pnl_wei'', ''gas_used'', ''block_number'']"

lemma names_distinct: "distinct (span_names @ field_names)"
  by (simp add: span_names_def field_names_def)

section \<open>Levels\<close>

fun filter_of_level :: "level \<Rightarrow> level_filter" where
  "filter_of_level Trace = LF_Trace"
| "filter_of_level Debug = LF_Debug"
| "filter_of_level Info = LF_Info"
| "filter_of_level Warn = LF_Warn"
| "filter_of_level Error = LF_Error"

text \<open>A level's name, in any case, is the filter of that level.\<close>

lemma level_filter_roundtrip:
  assumes "to_lowercase (lo_level lo) = level_to_string l"
  shows "LoggingConfig_level_filter lo = filter_of_level l"
  using assms by (cases l) (simp_all add: LoggingConfig_level_filter_def level_filter_of_def)

lemma level_names_lower: "to_lowercase (level_to_string l) = level_to_string l"
proof -
  have "list_all (\<lambda>c. to_lower c = c) (level_to_string l)"
    by (cases l; simp add: to_lower_def of_char_Char)
  then show ?thesis by (simp add: to_lowercase_def list_all_iff map_idI)
qed

text \<open>
  Splitting the filter at its commas gives back the level and the module directives, so none of
  them is lost or merged.
\<close>

fun split_commas :: "string \<Rightarrow> string \<Rightarrow> string list" where
  "split_commas acc [] = [rev acc]"
| "split_commas acc (c # s) = (if c = CHR '','' then rev acc # split_commas [] s else split_commas (c # acc) s)"

lemma split_commas_append:
  "CHR '','' \<notin> set x \<Longrightarrow> split_commas acc (x @ s) = split_commas (rev x @ acc) s"
  by (induction x arbitrary: acc) auto

lemma split_join:
  assumes "list_all (\<lambda>x. CHR '','' \<notin> set x) xs" "xs \<noteq> []"
  shows "split_commas [] (join '','' xs) = xs"
  using assms
proof (induction "'','' :: string" xs rule: join.induct)
  case (2 x)
  then show ?case using split_commas_append [of x "[]" "[]"] by simp
next
  case (3 x y xs)
  then show ?case by (simp add: split_commas_append)
qed simp

lemma filter_directives:
  assumes "env ''RUST_LOG'' = None" "list_all (\<lambda>x. CHR '','' \<notin> set x) (lo_level lo # lo_module_filters lo)"
  shows "split_commas [] (LoggingConfig_build_filter env lo) = lo_level lo # lo_module_filters lo"
  using split_join [OF assms(2)] assms(1) by (simp add: LoggingConfig_build_filter_def)

end
