(* ===== verification/Metrics.thy ===== *)
theory Metrics
  imports Float64
begin

text \<open>
  The Prometheus metrics, \<open>phantom-metrics/src/prometheus.rs\<close>: names, descriptions, the helpers and
  the exporter's configuration.  A helper is the operation it emits on the global recorder of the
  \<open>metrics\<close> crate: the kind of metric, its name, its labels and what it does to it.  Installing the
  recorder is an argument.
\<close>

section \<open>Names\<close>

definition order_DISCOVERED :: string where "order_DISCOVERED = ''phantom_orders_discovered_total''"
definition order_FILLED :: string where "order_FILLED = ''phantom_orders_filled_total''"
definition order_EXPIRED :: string where "order_EXPIRED = ''phantom_orders_expired_total''"
definition order_REVERTED :: string where "order_REVERTED = ''phantom_orders_reverted_total''"
definition order_ACTIVE :: string where "order_ACTIVE = ''phantom_orders_active''"

definition execution_FILL_LATENCY :: string where
  "execution_FILL_LATENCY = ''phantom_execution_fill_latency_seconds''"
definition execution_GAS_SPENT :: string where "execution_GAS_SPENT = ''phantom_execution_gas_spent_wei_total''"
definition execution_PENDING_FILLS :: string where
  "execution_PENDING_FILLS = ''phantom_execution_pending_fills''"
definition execution_TX_SUBMITTED :: string where
  "execution_TX_SUBMITTED = ''phantom_execution_tx_submitted_total''"
definition execution_TX_CONFIRMED :: string where
  "execution_TX_CONFIRMED = ''phantom_execution_tx_confirmed_total''"

definition pricing_FETCH_LATENCY :: string where
  "pricing_FETCH_LATENCY = ''phantom_pricing_fetch_latency_seconds''"
definition pricing_STALE_PRICES :: string where "pricing_STALE_PRICES = ''phantom_pricing_stale_prices''"
definition pricing_FETCHES_TOTAL :: string where "pricing_FETCHES_TOTAL = ''phantom_pricing_fetches_total''"

definition risk_DAILY_PNL :: string where "risk_DAILY_PNL = ''phantom_risk_daily_pnl_wei''"
definition risk_TOTAL_PNL :: string where "risk_TOTAL_PNL = ''phantom_risk_total_pnl_wei''"
definition risk_POSITION_UTILIZATION :: string where
  "risk_POSITION_UTILIZATION = ''phantom_risk_position_utilization''"

definition chain_BLOCK_HEIGHT :: string where "chain_BLOCK_HEIGHT = ''phantom_chain_block_height''"
definition chain_RPC_LATENCY :: string where "chain_RPC_LATENCY = ''phantom_chain_rpc_latency_seconds''"
definition chain_CONNECTION_STATUS :: string where
  "chain_CONNECTION_STATUS = ''phantom_chain_connection_status''"
definition chain_RPC_ERRORS :: string where "chain_RPC_ERRORS = ''phantom_chain_rpc_errors_total''"

definition system_UPTIME :: string where "system_UPTIME = ''phantom_system_uptime_seconds''"
definition system_ACTIVE_TASKS :: string where "system_ACTIVE_TASKS = ''phantom_system_active_tasks''"

definition LABEL_CHAIN :: string where "LABEL_CHAIN = ''chain_id''"
definition LABEL_TOKEN :: string where "LABEL_TOKEN = ''token''"
definition LABEL_STRATEGY :: string where "LABEL_STRATEGY = ''strategy''"
definition LABEL_RELAY :: string where "LABEL_RELAY = ''relay''"

lemmas metric_names = order_DISCOVERED_def order_FILLED_def order_EXPIRED_def order_REVERTED_def
  order_ACTIVE_def execution_FILL_LATENCY_def execution_GAS_SPENT_def execution_PENDING_FILLS_def
  execution_TX_SUBMITTED_def execution_TX_CONFIRMED_def pricing_FETCH_LATENCY_def
  pricing_STALE_PRICES_def pricing_FETCHES_TOTAL_def risk_DAILY_PNL_def risk_TOTAL_PNL_def
  risk_POSITION_UTILIZATION_def chain_BLOCK_HEIGHT_def chain_RPC_LATENCY_def
  chain_CONNECTION_STATUS_def chain_RPC_ERRORS_def system_UPTIME_def system_ACTIVE_TASKS_def

section \<open>Descriptions\<close>

datatype metric_kind = Counter | Gauge | Histogram

definition register_descriptions :: "(metric_kind \<times> string \<times> string) list" where
  "register_descriptions =
    [(Counter, order_DISCOVERED, ''Total orders discovered across all chains''),
     (Counter, order_FILLED, ''Total orders successfully filled''),
     (Counter, order_EXPIRED, ''Total orders that expired unfilled''),
     (Counter, order_REVERTED, ''Total fill transactions that reverted''),
     (Gauge, order_ACTIVE, ''Current number of active open orders''),
     (Histogram, execution_FILL_LATENCY, ''Time from order discovery to fill submission in seconds''),
     (Counter, execution_GAS_SPENT, ''Total gas spent in wei''),
     (Gauge, execution_PENDING_FILLS, ''Currently pending unconfirmed fill transactions''),
     (Counter, execution_TX_SUBMITTED, ''Total transactions submitted to the network''),
     (Counter, execution_TX_CONFIRMED, ''Total transactions confirmed on-chain''),
     (Histogram, pricing_FETCH_LATENCY, ''Price fetch latency in seconds''),
     (Gauge, pricing_STALE_PRICES, ''Number of stale price entries''),
     (Counter, pricing_FETCHES_TOTAL, ''Total price fetch operations''),
     (Gauge, risk_DAILY_PNL, ''Daily realized P&L in wei''),
     (Gauge, risk_TOTAL_PNL, ''Total realized P&L in wei''),
     (Gauge, risk_POSITION_UTILIZATION, ''Position utilization ratio from 0.0 to 1.0''),
     (Gauge, chain_BLOCK_HEIGHT, ''Latest block number per chain''),
     (Histogram, chain_RPC_LATENCY, ''RPC call latency in seconds''),
     (Gauge, chain_CONNECTION_STATUS, ''Chain connection status (1=connected, 0=disconnected)''),
     (Counter, chain_RPC_ERRORS, ''Total RPC errors per chain''),
     (Gauge, system_UPTIME, ''Process uptime in seconds''),
     (Gauge, system_ACTIVE_TASKS, ''Number of active tokio tasks'')]"

section \<open>The helpers\<close>

datatype metric_update = Increment u64 | Set f64 | Observe f64

record metric_op =
  mo_kind :: metric_kind
  mo_name :: string
  mo_labels :: "(string \<times> string) list"
  mo_update :: metric_update

abbreviation counter :: "string \<Rightarrow> (string \<times> string) list \<Rightarrow> u64 \<Rightarrow> metric_op" where
  "counter name labels n \<equiv> \<lparr>mo_kind = Counter, mo_name = name, mo_labels = labels, mo_update = Increment n\<rparr>"

abbreviation gauge :: "string \<Rightarrow> (string \<times> string) list \<Rightarrow> f64 \<Rightarrow> metric_op" where
  "gauge name labels x \<equiv> \<lparr>mo_kind = Gauge, mo_name = name, mo_labels = labels, mo_update = Set x\<rparr>"

abbreviation histogram :: "string \<Rightarrow> (string \<times> string) list \<Rightarrow> f64 \<Rightarrow> metric_op" where
  "histogram name labels x \<equiv> \<lparr>mo_kind = Histogram, mo_name = name, mo_labels = labels, mo_update = Observe x\<rparr>"

abbreviation chain_label :: "u64 \<Rightarrow> (string \<times> string) list" where
  "chain_label chain_id \<equiv> [(LABEL_CHAIN, decimal (unat chain_id))]"

definition record_order_discovered :: "u64 \<Rightarrow> metric_op" where
  "record_order_discovered chain_id = counter order_DISCOVERED (chain_label chain_id) 1"

definition record_order_filled :: "u64 \<Rightarrow> metric_op" where
  "record_order_filled chain_id = counter order_FILLED (chain_label chain_id) 1"

definition record_order_expired :: "u64 \<Rightarrow> metric_op" where
  "record_order_expired chain_id = counter order_EXPIRED (chain_label chain_id) 1"

definition record_order_reverted :: "u64 \<Rightarrow> metric_op" where
  "record_order_reverted chain_id = counter order_REVERTED (chain_label chain_id) 1"

definition set_active_orders :: "u64 \<Rightarrow> metric_op" where
  "set_active_orders n = gauge order_ACTIVE [] (f64_of_u64 n)"

definition record_fill_latency :: "f64 \<Rightarrow> u64 \<Rightarrow> metric_op" where
  "record_fill_latency seconds chain_id = histogram execution_FILL_LATENCY (chain_label chain_id) seconds"

definition record_gas_spent :: "u64 \<Rightarrow> u64 \<Rightarrow> metric_op" where
  "record_gas_spent wei chain_id = counter execution_GAS_SPENT (chain_label chain_id) wei"

definition set_pending_fills :: "u64 \<Rightarrow> metric_op" where
  "set_pending_fills n = gauge execution_PENDING_FILLS [] (f64_of_u64 n)"

definition record_tx_submitted :: "u64 \<Rightarrow> metric_op" where
  "record_tx_submitted chain_id = counter execution_TX_SUBMITTED (chain_label chain_id) 1"

definition record_tx_confirmed :: "u64 \<Rightarrow> metric_op" where
  "record_tx_confirmed chain_id = counter execution_TX_CONFIRMED (chain_label chain_id) 1"

definition record_price_fetch_latency :: "f64 \<Rightarrow> metric_op" where
  "record_price_fetch_latency seconds = histogram pricing_FETCH_LATENCY [] seconds"

definition set_stale_prices :: "u64 \<Rightarrow> metric_op" where
  "set_stale_prices n = gauge pricing_STALE_PRICES [] (f64_of_u64 n)"

definition record_price_fetch :: metric_op where
  "record_price_fetch = counter pricing_FETCHES_TOTAL [] 1"

definition set_daily_pnl :: "f64 \<Rightarrow> metric_op" where
  "set_daily_pnl wei = gauge risk_DAILY_PNL [] wei"

definition set_total_pnl :: "f64 \<Rightarrow> metric_op" where
  "set_total_pnl wei = gauge risk_TOTAL_PNL [] wei"

definition set_position_utilization :: "f64 \<Rightarrow> metric_op" where
  "set_position_utilization ratio = gauge risk_POSITION_UTILIZATION [] ratio"

definition set_block_height :: "u64 \<Rightarrow> u64 \<Rightarrow> metric_op" where
  "set_block_height chain_id height = gauge chain_BLOCK_HEIGHT (chain_label chain_id) (f64_of_u64 height)"

definition record_rpc_latency :: "f64 \<Rightarrow> u64 \<Rightarrow> metric_op" where
  "record_rpc_latency seconds chain_id = histogram chain_RPC_LATENCY (chain_label chain_id) seconds"

definition set_chain_connected :: "u64 \<Rightarrow> bool \<Rightarrow> metric_op" where
  "set_chain_connected chain_id status =
     gauge chain_CONNECTION_STATUS (chain_label chain_id) (if status then Finite 1 else Finite 0)"

definition record_rpc_error :: "u64 \<Rightarrow> metric_op" where
  "record_rpc_error chain_id = counter chain_RPC_ERRORS (chain_label chain_id) 1"

definition set_uptime :: "f64 \<Rightarrow> metric_op" where
  "set_uptime seconds = gauge system_UPTIME [] seconds"

definition set_active_tasks :: "u64 \<Rightarrow> metric_op" where
  "set_active_tasks n = gauge system_ACTIVE_TASKS [] (f64_of_u64 n)"

section \<open>Configuration and initialization\<close>

record metrics_config =
  mt_enabled :: bool
  mt_listen_addr :: string
  mt_listen_port :: u16

definition MetricsConfig_default :: metrics_config where
  "MetricsConfig_default = \<lparr>mt_enabled = True, mt_listen_addr = ''0.0.0.0'', mt_listen_port = 9090\<rparr>"

text \<open>
  \<open>SocketAddr::from_str\<close> of the standard library: an IPv4 address of four numbers below 256, of
  at most three digits and without leading zeros, a colon, and a port below 2^16.  What it makes of
  other texts (an IPv6 address in brackets) is an argument.
\<close>

datatype 'a socket_address = V4 nat nat nat nat nat | Other 'a

definition read_number :: "nat option \<Rightarrow> bool \<Rightarrow> nat \<Rightarrow> string \<Rightarrow> (nat \<times> string) option" where
  "read_number max_digits allow_zero_prefix bound s =
     (let digits = takeWhile is_digit s; rest = dropWhile is_digit s in
      if digits = [] then None
      else if (case max_digits of Some m \<Rightarrow> m < length digits | None \<Rightarrow> False) then None
      else if \<not> allow_zero_prefix \<and> hd digits = digit_char 0 \<and> 1 < length digits then None
      else if bound \<le> decimal_value digits then None
      else Some (decimal_value digits, rest))"

fun read_char :: "char \<Rightarrow> string \<Rightarrow> string option" where
  "read_char c [] = None"
| "read_char c (d # s) = (if c = d then Some s else None)"

definition read_octet :: "string \<Rightarrow> (nat \<times> string) option" where
  "read_octet s = read_number (Some 3) False 256 s"

definition parse_socket_v4 :: "string \<Rightarrow> (nat \<times> nat \<times> nat \<times> nat \<times> nat) option" where
  "parse_socket_v4 s =
     Option.bind (read_octet s) (\<lambda>(a, s).
     Option.bind (Option.bind (read_char CHR ''.'' s) read_octet) (\<lambda>(b, s).
     Option.bind (Option.bind (read_char CHR ''.'' s) read_octet) (\<lambda>(c, s).
     Option.bind (Option.bind (read_char CHR ''.'' s) read_octet) (\<lambda>(d, s).
     Option.bind (Option.bind (read_char CHR '':'' s) (read_number None True (2 ^ 16))) (\<lambda>(p, s).
     if s = [] then Some (a, b, c, d, p) else None)))))"

definition MetricsConfig_socket_addr ::
    "(string \<Rightarrow> 'a option) \<Rightarrow> metrics_config \<Rightarrow> 'a socket_address option" where
  "MetricsConfig_socket_addr parse_other config =
     (let s = mt_listen_addr config @ '':'' @ decimal (unat (mt_listen_port config)) in
      case parse_socket_v4 s of
        Some (a, b, c, d, p) \<Rightarrow> Some (V4 a b c d p)
      | None \<Rightarrow> map_option Other (parse_other s))"

text \<open>
  \<open>init_metrics\<close>: the error of \<open>anyhow\<close>, or the address the exporter listens on with the
  descriptions it registers; \<open>None\<close> when metrics are disabled.  \<open>install\<close> answers an error text or
  success.
\<close>

definition init_metrics ::
    "(string \<Rightarrow> 'a option) \<Rightarrow> ('a socket_address \<Rightarrow> string + unit) \<Rightarrow> metrics_config \<Rightarrow>
     message + ('a socket_address \<times> (metric_kind \<times> string \<times> string) list) option" where
  "init_metrics parse_other install config =
     (if \<not> mt_enabled config then Inr None
      else case MetricsConfig_socket_addr parse_other config of
        None \<Rightarrow> Inl (Fmt ''invalid metrics listen address: {e}'' [Str ''invalid socket address syntax''])
      | Some addr \<Rightarrow>
          (case install addr of
             Inl e \<Rightarrow> Inl (Fmt ''failed to install Prometheus recorder: {e}'' [Str e])
           | Inr _ \<Rightarrow> Inr (Some (addr, register_descriptions))))"

section \<open>Every metric that is emitted is described\<close>

text \<open>The operations a helper can emit, one predicate for all of them.\<close>

inductive helper_emits :: "metric_op \<Rightarrow> bool" where
  "helper_emits (record_order_discovered c)"
| "helper_emits (record_order_filled c)"
| "helper_emits (record_order_expired c)"
| "helper_emits (record_order_reverted c)"
| "helper_emits (set_active_orders n)"
| "helper_emits (record_fill_latency x c)"
| "helper_emits (record_gas_spent w c)"
| "helper_emits (set_pending_fills n)"
| "helper_emits (record_tx_submitted c)"
| "helper_emits (record_tx_confirmed c)"
| "helper_emits (record_price_fetch_latency x)"
| "helper_emits (set_stale_prices n)"
| "helper_emits record_price_fetch"
| "helper_emits (set_daily_pnl x)"
| "helper_emits (set_total_pnl x)"
| "helper_emits (set_position_utilization x)"
| "helper_emits (set_block_height c h)"
| "helper_emits (record_rpc_latency x c)"
| "helper_emits (set_chain_connected c b)"
| "helper_emits (record_rpc_error c)"
| "helper_emits (set_uptime x)"
| "helper_emits (set_active_tasks n)"

lemmas helper_defs = record_order_discovered_def record_order_filled_def record_order_expired_def
  record_order_reverted_def set_active_orders_def record_fill_latency_def record_gas_spent_def
  set_pending_fills_def record_tx_submitted_def record_tx_confirmed_def record_price_fetch_latency_def
  set_stale_prices_def record_price_fetch_def set_daily_pnl_def set_total_pnl_def
  set_position_utilization_def set_block_height_def record_rpc_latency_def set_chain_connected_def
  record_rpc_error_def set_uptime_def set_active_tasks_def

text \<open>What kind of update a kind of metric takes.\<close>

fun update_fits :: "metric_kind \<Rightarrow> metric_update \<Rightarrow> bool" where
  "update_fits Counter (Increment _) = True"
| "update_fits Gauge (Set _) = True"
| "update_fits Histogram (Observe _) = True"
| "update_fits _ _ = False"

lemma helper_described:
  "helper_emits m \<Longrightarrow> (mo_kind m, mo_name m) \<in> set (map (\<lambda>(k, n, _). (k, n)) register_descriptions)"
  by (induction rule: helper_emits.induct) (simp_all add: helper_defs register_descriptions_def)

lemma helper_update_fits: "helper_emits m \<Longrightarrow> update_fits (mo_kind m) (mo_update m)"
  by (induction rule: helper_emits.induct) (simp_all add: helper_defs)

lemma descriptions_distinct: "distinct (map (\<lambda>(_, n, _). n) register_descriptions)"
  by (simp add: register_descriptions_def metric_names)

text \<open>The \<open>_total\<close> suffix, the naming convention of counters.\<close>

lemma counters_end_in_total:
  "list_all (\<lambda>(k, n, _). k = Counter \<longleftrightarrow> drop (length n - 6) n = ''_total'') register_descriptions"
  by (simp add: register_descriptions_def metric_names)

section \<open>The exporter's address\<close>

lemma not_digit_sep: "\<not> is_digit CHR ''.''" "\<not> is_digit CHR '':''"
  by (simp_all add: is_digit_def of_char_Char)

lemma take_drop_digits:
  assumes "s = [] \<or> \<not> is_digit (hd s)"
  shows "takeWhile is_digit (decimal n @ s) = decimal n" "dropWhile is_digit (decimal n @ s) = s"
  using decimal_digits [of n] assms
  by (cases s; simp add: takeWhile_append2 dropWhile_append2 list_all_iff)+

lemma decimal_length: "n < 1000 \<Longrightarrow> length (decimal n) \<le> 3"
proof -
  have one: "length (decimal n) = 1" if "n < 10" for n using that by (subst decimal.simps) simp
  have two: "length (decimal n) \<le> 2" if "n < 100" for n
    using that one [of "n div 10"] by (subst decimal.simps) (simp add: one)
  show ?thesis if "n < 1000"
    using that two [of "n div 10"] by (subst decimal.simps) (auto simp: one)
qed

lemma decimal_no_leading_zero: "hd (decimal n) = digit_char 0 \<Longrightarrow> length (decimal n) = 1"
proof (induction n rule: decimal.induct)
  case (1 n)
  show ?case
  proof (cases "n < 10")
    case False
    then have d: "decimal n = decimal (n div 10) @ [digit_char (n mod 10)]" by (subst decimal.simps) simp
    with 1 False have "length (decimal (n div 10)) = 1" by simp
    then obtain c where c: "decimal (n div 10) = [c]" by (cases "decimal (n div 10)") auto
    with 1 d have "c = digit_char 0" by simp
    with c have "decimal_value (decimal (n div 10)) = 0"
      by (simp add: decimal_value_def of_char_digit)
    with False show ?thesis by simp
  qed (subst decimal.simps, simp)
qed

lemma read_octet_decimal:
  assumes "n < 256" "s = [] \<or> \<not> is_digit (hd s)"
  shows "read_octet (decimal n @ s) = Some (n, s)"
  using assms decimal_length [of n] decimal_no_leading_zero [of n]
  by (auto simp: read_octet_def read_number_def take_drop_digits Let_def)

lemma read_port_decimal: "n < 65536 \<Longrightarrow> read_number None True 65536 (decimal n) = Some (n, [])"
  by (simp add: read_number_def Let_def take_drop_digits [of "[]" n, unfolded append_Nil2, simplified simp_thms])

text \<open>The exporter listens on the address and port of its configuration, as written.\<close>

lemma socket_addr_v4:
  assumes "a < 256" "b < 256" "c < 256" "d < 256"
    and "mt_listen_addr config = decimal a @ ''.'' @ decimal b @ ''.'' @ decimal c @ ''.'' @ decimal d"
  shows "MetricsConfig_socket_addr parse_other config = Some (V4 a b c d (unat (mt_listen_port config)))"
  using assms unat_lt2p [of "mt_listen_port config"]
  by (simp add: MetricsConfig_socket_addr_def parse_socket_v4_def Let_def read_octet_decimal
      read_port_decimal not_digit_sep)

text \<open>
  C40: Every helper emits a metric that is described, under exactly one description of its own kind and
  with an update of that kind, so no sample of one kind lands in a metric of another; and an enabled
  exporter configured with an IPv4 address listens there with all descriptions registered, or fails
  only because the recorder could not be installed.
\<close>

theorem metrics_consistent:
  assumes "helper_emits m" "mt_enabled config" "a < 256" "b < 256" "c < 256" "d < 256"
    and "mt_listen_addr config = decimal a @ ''.'' @ decimal b @ ''.'' @ decimal c @ ''.'' @ decimal d"
  shows "length (filter (\<lambda>(_, n, _). n = mo_name m) register_descriptions) = 1
    \<and> (mo_kind m, mo_name m) \<in> set (map (\<lambda>(k, n, _). (k, n)) register_descriptions)
    \<and> update_fits (mo_kind m) (mo_update m)
    \<and> init_metrics parse_other install config =
        (let addr = V4 a b c d (unat (mt_listen_port config)) in
         case install addr of Inl e \<Rightarrow> Inl (Fmt ''failed to install Prometheus recorder: {e}'' [Str e])
         | Inr _ \<Rightarrow> Inr (Some (addr, register_descriptions)))"
proof -
  have one: "length (filter (\<lambda>(_, n, _). n = x) ds) = 1"
    if "distinct (map (\<lambda>(_, n, _). n) ds)" "(k, x) \<in> set (map (\<lambda>(k, n, _). (k, n)) ds)"
    for x k and ds :: "(metric_kind \<times> string \<times> string) list"
    using that
  proof (induction ds)
    case (Cons y ys)
    show ?case
    proof (cases "fst (snd y) = x")
      case True
      with Cons.prems(1) have "\<forall>z\<in>set ys. fst (snd z) \<noteq> x"
        by (cases y) (force simp: case_prod_beta)
      then have "filter (\<lambda>z. fst (snd z) = x) ys = []"
        by (auto simp: filter_empty_conv)
      with True show ?thesis by (simp add: case_prod_beta)
    next
      case False
      with Cons show ?thesis by (auto simp: case_prod_beta)
    qed
  qed simp
  show ?thesis
    using one [OF descriptions_distinct helper_described [OF assms(1)]] helper_described [OF assms(1)]
      helper_update_fits [OF assms(1)] assms(2) socket_addr_v4 [OF assms(3-7), of parse_other]
    by (simp add: init_metrics_def Let_def)
qed

theorem metrics_consistent_witness:
  "init_metrics (\<lambda>_. None :: nat option) (\<lambda>_. Inr ()) MetricsConfig_default =
     Inr (Some (V4 0 0 0 0 9090, register_descriptions))
   \<and> length (filter (\<lambda>(_, n, _). n = mo_name record_price_fetch) register_descriptions) = 1"
proof -
  have "mt_listen_addr MetricsConfig_default = decimal 0 @ ''.'' @ decimal 0 @ ''.'' @ decimal 0 @ ''.'' @ decimal 0"
    by (simp add: MetricsConfig_default_def decimal.simps digit_char_def) code_simp
  from metrics_consistent [OF helper_emits.intros(13) _ _ _ _ _ this, of "\<lambda>_. None :: nat option" "\<lambda>_. Inr ()"]
  show ?thesis by (simp add: MetricsConfig_default_def)
qed

end
