(* ===== verification/Api.thy ===== *)
theory Api
  imports Health Pnl Balance Risk
begin

text \<open>
  The REST and WebSocket interface, \<open>phantom-api\<close>: errors and responses (\<open>error.rs\<close>), the shared
  state (\<open>state.rs\<close>), the handlers (\<open>handlers.rs\<close>), the configuration (\<open>config.rs\<close>), and the event
  bus with its sockets (\<open>ws.rs\<close>).  A request is handled by one call of a handler; routing and
  the HTTP server are \<open>axum\<close>'s.
\<close>

section \<open>Errors, responses, configuration\<close>

datatype api_error = NotFound message | BadRequest message | Internal message

record 'a api_response =
  rs_success :: bool
  rs_data :: 'a

definition ApiResponse_ok :: "'a \<Rightarrow> 'a api_response" where
  "ApiResponse_ok data = \<lparr>rs_success = True, rs_data = data\<rparr>"

record error_body =
  eb_success :: bool
  eb_error :: message

text \<open>\<open>into_response\<close>: the HTTP status and the body.\<close>

fun ApiError_into_response :: "api_error \<Rightarrow> nat \<times> error_body" where
  "ApiError_into_response (NotFound msg) = (404, \<lparr>eb_success = False, eb_error = msg\<rparr>)"
| "ApiError_into_response (BadRequest msg) = (400, \<lparr>eb_success = False, eb_error = msg\<rparr>)"
| "ApiError_into_response (Internal msg) = (500, \<lparr>eb_success = False, eb_error = msg\<rparr>)"

record api_config =
  af_enabled :: bool
  af_listen_addr :: string
  af_port :: u16
  af_cors_origins :: "string list"
  af_request_timeout_secs :: u64

definition ApiConfig_default :: api_config where
  "ApiConfig_default =
     \<lparr>af_enabled = True, af_listen_addr = ''0.0.0.0'', af_port = 8080, af_cors_origins = [],
      af_request_timeout_secs = 30\<rparr>"

definition ApiConfig_bind_addr :: "api_config \<Rightarrow> string" where
  "ApiConfig_bind_addr config = af_listen_addr config @ '':'' @ decimal (unat (af_port config))"

section \<open>The event bus\<close>

datatype ws_event =
    FillRecorded string u64 i64
  | FillConfirmed string string
  | FillReverted string
  | HealthChanged string string string
  | PnlUpdate i64 u64
  | Heartbeat u64 u64

record event_bus_config =
  eb_channel_capacity :: nat

definition EventBusConfig_default :: event_bus_config where
  "EventBusConfig_default = \<lparr>eb_channel_capacity = 1024\<rparr>"

text \<open>
  The bus: the capacity of its channel (a capacity of 0 makes \<open>broadcast::channel\<close> panic; the
  program only uses the default), what was sent to its receivers, how many there are, and the
  atomic count of clients.
\<close>

record event_bus =
  ev_capacity :: nat
  ev_sent :: "ws_event list"
  ev_receivers :: nat
  ev_connected_clients :: u64

definition EventBus_new :: "event_bus_config \<Rightarrow> event_bus" where
  "EventBus_new config =
     \<lparr>ev_capacity = eb_channel_capacity config, ev_sent = [], ev_receivers = 0, ev_connected_clients = 0\<rparr>"

definition EventBus_with_defaults :: event_bus where
  "EventBus_with_defaults = EventBus_new EventBusConfig_default"

text \<open>\<open>send\<close> fails without receivers, which \<open>unwrap_or_default\<close> turns into 0.\<close>

definition EventBus_publish :: "ws_event \<Rightarrow> event_bus \<Rightarrow> event_bus \<times> nat" where
  "EventBus_publish event bus =
     (if ev_receivers bus = 0 then (bus, 0)
      else (bus\<lparr>ev_sent := ev_sent bus @ [event]\<rparr>, ev_receivers bus))"

definition EventBus_subscribe :: "event_bus \<Rightarrow> event_bus" where
  "EventBus_subscribe bus = bus\<lparr>ev_receivers := ev_receivers bus + 1\<rparr>"

definition EventBus_connected_clients :: "event_bus \<Rightarrow> u64" where
  "EventBus_connected_clients bus = ev_connected_clients bus"

definition EventBus_client_connected :: "event_bus \<Rightarrow> event_bus" where
  "EventBus_client_connected bus = bus\<lparr>ev_connected_clients := ev_connected_clients bus + 1\<rparr>"

definition EventBus_client_disconnected :: "event_bus \<Rightarrow> event_bus" where
  "EventBus_client_disconnected bus = bus\<lparr>ev_connected_clients := ev_connected_clients bus - 1\<rparr>"

text \<open>
  What a turn of the loop of \<open>handle_socket\<close> is about: a result of the receiver or a message of the
  client.  The flag says whether sending to the client succeeds; \<open>None\<close> is an event that does
  not serialize.
\<close>

datatype socket_input =
    Bus_Event "string option" bool
  | Bus_Lagged nat
  | Bus_Closed
  | Client_Close
  | Client_Gone
  | Client_Ping bytes bool
  | Client_Other
  | Client_Error

datatype socket_output = Text_Message string | Pong_Message bytes

text \<open>The messages that reach the client until the loop ends, and whether it has ended.\<close>

fun socket_loop :: "socket_input list \<Rightarrow> socket_output list \<times> bool" where
  "socket_loop [] = ([], False)"
| "socket_loop (i # is) =
     (case i of
        Bus_Event (Some json) sent \<Rightarrow>
          if sent then (let (out, ended) = socket_loop is in (Text_Message json # out, ended)) else ([], True)
      | Bus_Event None _ \<Rightarrow> socket_loop is
      | Bus_Lagged _ \<Rightarrow> socket_loop is
      | Bus_Closed \<Rightarrow> ([], True)
      | Client_Close \<Rightarrow> ([], True)
      | Client_Gone \<Rightarrow> ([], True)
      | Client_Ping data sent \<Rightarrow>
          if sent then (let (out, ended) = socket_loop is in (Pong_Message data # out, ended)) else ([], True)
      | Client_Other \<Rightarrow> socket_loop is
      | Client_Error \<Rightarrow> ([], True))"

text \<open>
  Every socket is a task of its own, so the steps of \<open>handle_socket\<close> interleave with those of the
  other sockets and with publishing.  A socket counts itself (\<open>Counted\<close>), subscribes
  (\<open>Streaming\<close>, the loop), uncounts itself after the loop (\<open>Leaving\<close>), and drops its receiver
  when the function returns (\<open>Gone\<close>).
\<close>

datatype socket_phase = Counted | Streaming | Leaving | Gone

fun handle_socket_step :: "socket_phase \<Rightarrow> event_bus \<Rightarrow> socket_phase \<times> event_bus" where
  "handle_socket_step Counted bus = (Streaming, EventBus_subscribe bus)"
| "handle_socket_step Streaming bus = (Leaving, EventBus_client_disconnected bus)"
| "handle_socket_step Leaving bus = (Gone, bus\<lparr>ev_receivers := ev_receivers bus - 1\<rparr>)"
| "handle_socket_step Gone bus = (Gone, bus)"

inductive bus_step :: "event_bus \<times> socket_phase list \<Rightarrow> event_bus \<times> socket_phase list \<Rightarrow> bool" where
  Connect: "bus_step (bus, ps) (EventBus_client_connected bus, ps @ [Counted])"
| Advance: "i < length ps \<Longrightarrow> handle_socket_step (ps ! i) bus = (p, bus') \<Longrightarrow>
    bus_step (bus, ps) (bus', ps[i := p])"
| Publish: "bus_step (bus, ps) (fst (EventBus_publish event bus), ps)"

section \<open>State and handlers\<close>

record app_state =
  as_health :: health_registry
  as_pnl :: pnl_tracker
  as_balances :: balance_tracker
  as_risk :: risk_manager
  as_event_bus :: event_bus

definition AppState_new ::
    "health_registry \<Rightarrow> pnl_tracker \<Rightarrow> balance_tracker \<Rightarrow> risk_manager \<Rightarrow> event_bus \<Rightarrow> app_state" where
  "AppState_new health pnl balances risk bus =
     \<lparr>as_health = health, as_pnl = pnl, as_balances = balances, as_risk = risk, as_event_bus = bus\<rparr>"

definition AppState_with_defaults :: "nat \<Rightarrow> app_state" where
  "AppState_with_defaults now =
     \<lparr>as_health = HealthRegistry_new now, as_pnl = PnlTracker_with_defaults,
      as_balances = BalanceTracker_with_defaults, as_risk = RiskManager_with_defaults,
      as_event_bus = EventBus_with_defaults\<rparr>"

definition get_health_report :: "nat \<Rightarrow> app_state \<Rightarrow> api_error + health_report api_response" where
  "get_health_report now state = Inr (ApiResponse_ok (HealthRegistry_report now (as_health state)))"

record ready_status =
  ry_ready :: bool
  ry_status :: system_status

definition health_ready :: "nat \<Rightarrow> app_state \<Rightarrow> api_error + ready_status api_response" where
  "health_ready now state =
     (let ready = HealthRegistry_is_ready (as_health state);
          report = HealthRegistry_report now (as_health state)
      in Inr (ApiResponse_ok \<lparr>ry_ready = ready, ry_status = hr_status report\<rparr>))"

record live_status =
  lv_alive :: bool

definition health_live :: "live_status api_response" where
  "health_live = ApiResponse_ok \<lparr>lv_alive = True\<rparr>"

definition get_pnl_summary :: "int \<Rightarrow> app_state \<Rightarrow> pnl_summary api_response" where
  "get_pnl_summary today state = ApiResponse_ok (PnlTracker_summary today (as_pnl state))"

definition pnl_daily :: "app_state \<Rightarrow> daily_pnl list api_response" where
  "pnl_daily state = ApiResponse_ok (PnlTracker_all_daily_pnl (as_pnl state))"

definition pnl_tokens :: "app_state \<Rightarrow> token_pnl list api_response" where
  "pnl_tokens state = ApiResponse_ok (PnlTracker_all_token_pnl (as_pnl state))"

definition list_fills :: "nat option \<Rightarrow> app_state \<Rightarrow> fill_record list api_response" where
  "list_fills query_limit state =
     (let limit = min (case query_limit of Some l \<Rightarrow> l | None \<Rightarrow> 50) 500 in
      ApiResponse_ok (PnlTracker_recent_fills limit (as_pnl state)))"

definition get_fill :: "string \<Rightarrow> app_state \<Rightarrow> api_error + fill_record api_response" where
  "get_fill fill_id state =
     (case PnlTracker_get_fill fill_id (as_pnl state) of
        Some r \<Rightarrow> Inr (ApiResponse_ok r)
      | None \<Rightarrow> Inl (NotFound (Fmt ''fill {fill_id}'' [Str fill_id])))"

record risk_status =
  ri_enabled :: bool
  ri_daily_loss_wei :: u64
  ri_pending_fills :: u32
  ri_max_single_fill_value :: string
  ri_daily_loss_limit_wei :: u64
  ri_max_pending_fills :: u32

definition get_risk_status :: "app_state \<Rightarrow> risk_status api_response" where
  "get_risk_status state =
     (let config = rm_config (as_risk state) in
      ApiResponse_ok
        \<lparr>ri_enabled = rc_enabled config,
         ri_daily_loss_wei = RiskManager_daily_loss_wei (as_risk state),
         ri_pending_fills = RiskManager_pending_count (as_risk state),
         ri_max_single_fill_value = decimal (unat (rc_max_single_fill_value config)),
         ri_daily_loss_limit_wei = rc_daily_loss_limit_wei config,
         ri_max_pending_fills = rc_max_pending_fills config\<rparr>)"

record system_info =
  sy_name :: string
  sy_version :: string

definition CARGO_PKG_VERSION :: string where
  "CARGO_PKG_VERSION = ''0.1.0''"

definition system_status_info :: "system_info api_response" where
  "system_status_info = ApiResponse_ok \<lparr>sy_name = ''phantom-filler'', sy_version = CARGO_PKG_VERSION\<rparr>"

section \<open>Clients and receivers are counted exactly\<close>

definition counted_phase :: "socket_phase \<Rightarrow> bool" where
  "counted_phase p \<longleftrightarrow> p = Counted \<or> p = Streaming"

definition receiving_phase :: "socket_phase \<Rightarrow> bool" where
  "receiving_phase p \<longleftrightarrow> p = Streaming \<or> p = Leaving"

definition how_many :: "(socket_phase \<Rightarrow> bool) \<Rightarrow> socket_phase list \<Rightarrow> nat" where
  "how_many P ps = length (filter P ps)"

definition bus_counts :: "event_bus \<times> socket_phase list \<Rightarrow> bool" where
  "bus_counts s \<longleftrightarrow> ev_connected_clients (fst s) = of_nat (how_many counted_phase (snd s))
     \<and> ev_receivers (fst s) = how_many receiving_phase (snd s)"

lemma how_many_snoc [simp]: "how_many P (ps @ [p]) = how_many P ps + (if P p then 1 else 0)"
  by (simp add: how_many_def)

lemma how_many_update:
  assumes "i < length ps"
  shows "how_many P ps + (if P p then 1 else 0) = how_many P (ps[i := p]) + (if P (ps ! i) then 1 else 0)"
proof -
  let ?a = "take i ps" and ?b = "drop (Suc i) ps"
  have "ps = ?a @ ps ! i # ?b" using assms by (rule id_take_nth_drop)
  moreover have "ps[i := p] = ?a @ p # ?b" using assms by (rule upd_conv_take_nth_drop)
  ultimately have "how_many P ps = how_many P (?a @ ps ! i # ?b)" "how_many P (ps[i := p]) = how_many P (?a @ p # ?b)"
    by simp_all
  then show ?thesis by (simp add: how_many_def)
qed

lemma bus_step_counts: "bus_step s s' \<Longrightarrow> bus_counts s \<Longrightarrow> bus_counts s'"
proof (induction rule: bus_step.induct)
  case (Connect bus ps)
  then show ?case
    by (simp add: bus_counts_def EventBus_client_connected_def counted_phase_def receiving_phase_def)
next
  case (Advance i ps bus p bus')
  note upd = how_many_update [OF Advance.hyps(1), of _ p]
  show ?case
    using Advance upd [of counted_phase] upd [of receiving_phase]
    by (cases "ps ! i")
       (auto simp: bus_counts_def counted_phase_def receiving_phase_def EventBus_subscribe_def
         EventBus_client_disconnected_def)
next
  case (Publish bus ps event)
  then show ?case by (simp add: bus_counts_def EventBus_publish_def)
qed

lemma bus_reachable_counts:
  "bus_step\<^sup>*\<^sup>* (EventBus_new config, []) s \<Longrightarrow> bus_counts s"
proof (induction rule: rtranclp_induct)
  case base
  then show ?case by (simp add: bus_counts_def EventBus_new_def how_many_def)
next
  case (step s t)
  then show ?case by (blast intro: bus_step_counts)
qed

text \<open>
  C31: However connections, events and disconnections interleave, the client count is the number of
  sockets that have counted themselves and not yet left (below 2^64 of them), an event is sent to
  exactly the sockets that hold a receiver, and it is kept exactly when there is one.
\<close>

theorem client_count_exact:
  assumes "bus_step\<^sup>*\<^sup>* (EventBus_new config, []) (bus, ps)" "length ps < 2 ^ 64"
  shows "unat (EventBus_connected_clients bus) = how_many counted_phase ps
    \<and> (case EventBus_publish event bus of (bus', n) \<Rightarrow> n = how_many receiving_phase ps
        \<and> ev_sent bus' = ev_sent bus @ (if n = 0 then [] else [event]))"
proof -
  have c: "bus_counts (bus, ps)" using bus_reachable_counts [OF assms(1)] .
  have "how_many counted_phase ps < 2 ^ 64"
    unfolding how_many_def by (rule le_less_trans [OF length_filter_le assms(2)])
  with c show ?thesis
    by (simp add: bus_counts_def EventBus_publish_def EventBus_connected_clients_def unat_of_nat
        take_bit_nat_eq_self)
qed

theorem client_count_exact_witness:
  "\<exists>bus. bus_step\<^sup>*\<^sup>* (EventBus_with_defaults, []) (bus, [Streaming, Counted])
     \<and> unat (EventBus_connected_clients bus) = 2 \<and> snd (EventBus_publish (Heartbeat 1 2) bus) = 1"
proof -
  let ?b1 = "EventBus_client_connected EventBus_with_defaults"
  let ?b2 = "EventBus_subscribe ?b1" let ?b3 = "EventBus_client_connected ?b2"
  have "bus_step (EventBus_with_defaults, []) (?b1, [Counted])"
    using bus_step.Connect [of EventBus_with_defaults "[]"] by simp
  moreover have "bus_step (?b1, [Counted]) (?b2, [Streaming])"
    using bus_step.Advance [of 0 "[Counted]" ?b1 Streaming ?b2] by simp
  moreover have "bus_step (?b2, [Streaming]) (?b3, [Streaming, Counted])"
    using bus_step.Connect [of ?b2 "[Streaming]"] by simp
  ultimately have "bus_step\<^sup>*\<^sup>* (EventBus_with_defaults, []) (?b3, [Streaming, Counted])" by simp
  moreover from this have "bus_step\<^sup>*\<^sup>* (EventBus_new EventBusConfig_default, []) (?b3, [Streaming, Counted])"
    by (simp add: EventBus_with_defaults_def)
  from client_count_exact [OF this, of "Heartbeat 1 2"]
  have "unat (EventBus_connected_clients ?b3) = 2 \<and> snd (EventBus_publish (Heartbeat 1 2) ?b3) = 1"
    by (auto simp: how_many_def counted_phase_def receiving_phase_def split: prod.splits)
  ultimately show ?thesis by blast
qed

section \<open>What a client receives\<close>

text \<open>
  The specification of a stream: which inputs end it, and what each other input sends.
\<close>

fun stream_ends :: "socket_input \<Rightarrow> bool" where
  "stream_ends (Bus_Event (Some _) sent) = (\<not> sent)"
| "stream_ends (Client_Ping _ sent) = (\<not> sent)"
| "stream_ends Bus_Closed = True"
| "stream_ends Client_Close = True"
| "stream_ends Client_Gone = True"
| "stream_ends Client_Error = True"
| "stream_ends _ = False"

fun stream_sends :: "socket_input \<Rightarrow> socket_output list" where
  "stream_sends (Bus_Event (Some json) _) = [Text_Message json]"
| "stream_sends (Client_Ping data _) = [Pong_Message data]"
| "stream_sends _ = []"

lemma socket_loop_step:
  "socket_loop (i # is) = (if stream_ends i then ([], True)
     else (stream_sends i @ fst (socket_loop is), snd (socket_loop is)))"
proof (cases i)
  case (Bus_Event json sent)
  then show ?thesis by (cases json) (auto split: prod.split)
qed (auto split: prod.split)

text \<open>
  A socket forwards every event of the bus that serializes, in the order it received them, and
  answers every ping with its payload, up to the first input that ends the stream: a failed send,
  a closed bus, a close message, a client that is gone or an error.  Lagging, events that do not
  serialize and other messages end nothing.
\<close>

theorem socket_streams_in_order:
  "socket_loop is =
     (concat (map stream_sends (takeWhile (\<lambda>i. \<not> stream_ends i) is)), list_ex stream_ends is)"
proof (induction "is")
  case Nil
  then show ?case by simp
next
  case (Cons i "is")
  then show ?case by (simp only: socket_loop_step) simp
qed

section \<open>The fills endpoints\<close>

lemma get_fill_iff:
  "get_fill i state = Inr resp \<longleftrightarrow>
     (\<exists>r. PnlTracker_get_fill i (as_pnl state) = Some r \<and> resp = ApiResponse_ok r)"
  by (auto simp: get_fill_def split: option.splits)

text \<open>
  The fills endpoint after any fills with distinct ids: the newest first, as many as asked for, 50
  without a limit, and never more than 500 or than the history holds.
\<close>

theorem fills_served:
  assumes "distinct (map (fr_fill_id \<circ> snd) rs)" "length rs < 2 ^ 64"
    "as_pnl state = record_all chrono_date format_date rs (PnlTracker_new config)"
  shows "rs_data (list_fills limit state) =
    take (min (min (case limit of Some l \<Rightarrow> l | None \<Rightarrow> 50) 500) (pc_max_fill_history config))
      (rev (map snd rs))
    \<and> length (rs_data (list_fills limit state)) \<le> 500"
proof -
  let ?l = "min (case limit of Some l \<Rightarrow> l | None \<Rightarrow> 50) 500"
  have "?l < 2 ^ 64" by (rule le_less_trans [of _ 500]) simp_all
  from recent_fills_of_recorded [OF assms(1,2) this, of chrono_date format_date config] assms(3)
  show ?thesis by (simp add: list_fills_def Let_def ApiResponse_ok_def)
qed

theorem fills_served_witness:
  "map fr_fill_id (rs_data (list_fills (Some 2)
     ((AppState_with_defaults 0)\<lparr>as_pnl := record_all exact_date no_format
       [(0, sample_fill ''a'' 1 Fill_Confirmed), (0, sample_fill ''b'' 2 Fill_Pending),
        (1, sample_fill ''c'' 3 Fill_Confirmed)] (PnlTracker_new PnlConfig_default)\<rparr>))) = [''c'', ''b'']"
proof -
  let ?rs = "[(0, sample_fill ''a'' 1 Fill_Confirmed), (0, sample_fill ''b'' 2 Fill_Pending),
    (1, sample_fill ''c'' 3 Fill_Confirmed)]"
  have "distinct (map (fr_fill_id \<circ> snd) ?rs)" by simp
  from fills_served [OF this, of "(AppState_with_defaults 0)\<lparr>as_pnl := record_all exact_date no_format ?rs
      (PnlTracker_new PnlConfig_default)\<rparr>" exact_date no_format PnlConfig_default "Some 2"]
  show ?thesis by (simp add: PnlConfig_default_def)
qed

section \<open>Readiness\<close>

lemma foldr_worst_unhealthy:
  "foldr (\<lambda>e. max (entry_severity e)) es Sys_Healthy = Sys_Unhealthy \<longleftrightarrow>
     list_ex (\<lambda>e. he_status e = Unhealthy \<and> he_critical e) es"
  by (induction es) simp_all

text \<open>
  The readiness probe reports the worst status among the registered components, where a component
  that is not critical can only degrade the system, and it is ready exactly while that worst status
  is not unhealthy; the full report carries the same status.
\<close>

theorem probe_reports_worst:
  "(let worst = foldr (\<lambda>(_, e). max (entry_severity e)) (dm_iter (hg_components (as_health state))) Sys_Healthy in
      health_ready now state = Inr (ApiResponse_ok \<lparr>ry_ready = (worst \<noteq> Sys_Unhealthy), ry_status = worst\<rparr>)
      \<and> map_sum id (hr_status \<circ> rs_data) (get_health_report now state) = Inr worst)"
proof -
  let ?es = "dm_iter (hg_components (as_health state))"
  have fold: "foldr (\<lambda>(_, e). max (entry_severity e)) es s = foldr (\<lambda>e. max (entry_severity e)) (map snd es) s"
    for es :: "(string \<times> health_entry) list" and s
    by (induction es) auto
  have "HealthRegistry_is_ready (as_health state) \<longleftrightarrow>
      \<not> list_ex (\<lambda>e. he_status e = Unhealthy \<and> he_critical e) (map snd ?es)"
    by (auto simp: HealthRegistry_is_ready_def list_ex_iff list_all_iff)
  then have "HealthRegistry_is_ready (as_health state) \<longleftrightarrow>
      foldr (\<lambda>(_, e). max (entry_severity e)) ?es Sys_Healthy \<noteq> Sys_Unhealthy"
    unfolding fold foldr_worst_unhealthy .
  moreover have "HealthRegistry_aggregate_status (as_health state) =
      foldr (\<lambda>(_, e). max (entry_severity e)) ?es Sys_Healthy"
    unfolding HealthRegistry_aggregate_status_def aggregate_is_worst fold by simp
  ultimately show ?thesis
    by (simp add: Let_def health_ready_def get_health_report_def HealthRegistry_report_def ApiResponse_ok_def)
qed

end
