(* ===== verification/Server.thy ===== *)
theory Server
  imports Api
begin

text \<open>
  Routing and startup of the API server, \<open>phantom-api/src/server.rs\<close>.  A router is its list of routes
  (all are GET) with its CORS layer; matching requests against the paths, tracing and serving are
  \<open>axum\<close>'s.
\<close>

datatype endpoint =
    System_Status | Pnl_Summary | Pnl_Daily | Pnl_Tokens | List_Fills | Get_Fill | Risk_Status
  | Health_Report | Health_Live | Health_Ready | Ws_Handler

text \<open>Any origin, or the configured ones that parse; methods and headers are unrestricted.\<close>

datatype 'o cors_layer = Any_Origin | Origins "'o list"

definition build_cors_layer :: "(string \<Rightarrow> 'o option) \<Rightarrow> api_config \<Rightarrow> 'o cors_layer" where
  "build_cors_layer parse config =
     (if af_cors_origins config = [] then Any_Origin
      else Origins (List.map_filter parse (af_cors_origins config)))"

definition api_routes :: "(string \<times> endpoint) list" where
  "api_routes =
    [(''/status'', System_Status),
     (''/pnl'', Pnl_Summary),
     (''/pnl/daily'', Pnl_Daily),
     (''/pnl/tokens'', Pnl_Tokens),
     (''/fills'', List_Fills),
     (''/fills/{id}'', Get_Fill),
     (''/risk'', Risk_Status)]"

text \<open>\<open>nest\<close> prefixes the paths of the inner routes.\<close>

definition nest :: "string \<Rightarrow> (string \<times> endpoint) list \<Rightarrow> (string \<times> endpoint) list" where
  "nest prefix routes = map (\<lambda>(path, e). (prefix @ path, e)) routes"

record 'o router =
  ro_routes :: "(string \<times> endpoint) list"
  ro_cors :: "'o cors_layer"
  ro_state :: app_state

definition create_router_with_config ::
    "(string \<Rightarrow> 'o option) \<Rightarrow> app_state \<Rightarrow> api_config \<Rightarrow> 'o router" where
  "create_router_with_config parse state config =
     \<lparr>ro_routes =
        [(''/health'', Health_Report),
         (''/health/live'', Health_Live),
         (''/health/ready'', Health_Ready),
         (''/ws'', Ws_Handler)] @ nest ''/api/v1'' api_routes,
      ro_cors = build_cors_layer parse config,
      ro_state = state\<rparr>"

definition create_router :: "(string \<Rightarrow> 'o option) \<Rightarrow> app_state \<Rightarrow> 'o router" where
  "create_router parse state =
     \<lparr>ro_routes =
        [(''/health'', Health_Report),
         (''/health/live'', Health_Live),
         (''/health/ready'', Health_Ready),
         (''/ws'', Ws_Handler)] @ nest ''/api/v1'' api_routes,
      ro_cors = build_cors_layer parse ApiConfig_default,
      ro_state = state\<rparr>"

text \<open>
  \<open>start_server\<close>: nothing when disabled, the error of binding, or the router that is served at the
  address.  The result of \<open>bind\<close> is an argument, serving is not modelled.
\<close>

definition start_server ::
    "(string \<Rightarrow> 'o option) \<Rightarrow> (string \<Rightarrow> string + unit) \<Rightarrow> api_config \<Rightarrow> app_state \<Rightarrow>
     string + (string \<times> 'o router) option" where
  "start_server parse bind config state =
     (if \<not> af_enabled config then Inr None
      else let router = create_router_with_config parse state config;
               bind_addr = ApiConfig_bind_addr config in
        case bind bind_addr of
          Inl e \<Rightarrow> Inl e
        | Inr _ \<Rightarrow> Inr (Some (bind_addr, router)))"

section \<open>The routing table\<close>

text \<open>Every endpoint has exactly one path and every path one endpoint, in both routers.\<close>

lemma routes_bijective:
  "map_of (ro_routes (create_router_with_config parse state config)) path = Some e \<Longrightarrow>
   map_of (ro_routes (create_router_with_config parse state config)) path' = Some e \<Longrightarrow> path = path'"
proof -
  let ?r = "ro_routes (create_router_with_config parse state config)"
  assume "map_of ?r path = Some e" "map_of ?r path' = Some e"
  then have "(path, e) \<in> set ?r" "(path', e) \<in> set ?r" by (simp_all add: map_of_SomeD)
  moreover have "distinct (map snd ?r)"
    by (simp add: create_router_with_config_def nest_def api_routes_def)
  ultimately show ?thesis by (metis eq_key_imp_eq_value [of "map prod.swap ?r"] inj_onD
      distinct_map in_set_conv_nth snd_conv prod.inject)
qed

lemma routes_total:
  "\<exists>path. map_of (ro_routes (create_router_with_config parse state config)) path = Some e"
proof -
  let ?r = "ro_routes (create_router_with_config parse state config)"
  have "distinct (map fst ?r)"
    by (simp add: create_router_with_config_def nest_def api_routes_def)
  moreover have "\<exists>path. (path, e) \<in> set ?r"
    by (cases e) (auto simp: create_router_with_config_def nest_def api_routes_def)
  ultimately show ?thesis by (auto simp: map_of_eq_Some_iff)
qed

lemma routers_agree:
  "af_cors_origins config = [] \<Longrightarrow> create_router_with_config parse state config = create_router parse state"
  by (simp add: create_router_def create_router_with_config_def build_cors_layer_def ApiConfig_default_def)

text \<open>An origin that does not parse is dropped silently, possibly leaving none.\<close>

lemma unparsable_origins_dropped:
  assumes "af_cors_origins config = o1 # os" "list_all (\<lambda>s. parse s = None) (o1 # os)"
  shows "build_cors_layer parse config = Origins []"
proof -
  have "List.map_filter parse xs = []" if "list_all (\<lambda>s. parse s = None) xs" for xs
    using that by (induction xs) (auto simp: List.map_filter_def)
  with assms show ?thesis by (simp add: build_cors_layer_def)
qed

end
