(* ===== verification/Startup.thy ===== *)
theory Startup
  imports Config Logging Metrics Server
begin

text \<open>
  The binary, \<open>phantom-filler/src/main.rs\<close>: arguments, configuration, logging, metrics, the shared
  components with their health registrations, and the API server it spawns.  Files, environment,
  clock, global subscribers and sockets are arguments; waiting for the shutdown signal and aborting
  the server leave no state behind.
\<close>

section \<open>Arguments\<close>

text \<open>\<open>args[i] == "--config"\<close> with a following argument, for the first such \<open>i\<close>.\<close>

fun config_argument :: "string list \<Rightarrow> string option" where
  "config_argument [] = None"
| "config_argument (a # rest) =
     (if a = ''--config'' \<and> rest \<noteq> [] then Some (hd rest) else config_argument rest)"

text \<open>\<open>None\<close>: the help is printed and the process exits with 0.\<close>

definition parse_config_path :: "string list \<Rightarrow> string option" where
  "parse_config_path args =
     (if ''--help'' \<in> set args \<or> ''-h'' \<in> set args then None
      else case config_argument args of Some path \<Rightarrow> Some path | None \<Rightarrow> Some ''config.toml'')"

section \<open>Start\<close>

text \<open>What the program reads from the outside; \<open>nw_clock n\<close> is the \<open>n\<close>-th reading of the clock.\<close>

record ('a, 'o) outside =
  nw_args :: "string list"
  nw_read_file :: "string \<Rightarrow> string + string"
  nw_parse_toml :: "string \<Rightarrow> string + app_config"
  nw_env :: "string \<Rightarrow> string option"
  nw_set_logging :: "string \<times> fmt_layer \<Rightarrow> string + unit"
  nw_parse_addr :: "string \<Rightarrow> 'a option"
  nw_install :: "'a socket_address \<Rightarrow> string + unit"
  nw_clock :: "nat \<Rightarrow> nat"
  nw_parse_origin :: "string \<Rightarrow> 'o option"
  nw_bind :: "string \<Rightarrow> string + unit"

datatype main_error = Config_Failed config_error | Setup_Failed message

text \<open>The running program; \<open>rn_api\<close> is what the spawned server task does, an error of it is only logged.\<close>

record ('a, 'o) running =
  rn_config :: app_config
  rn_logging :: "(string \<times> fmt_layer) option"
  rn_metrics :: "('a socket_address \<times> (metric_kind \<times> string \<times> string) list) option"
  rn_state :: app_state
  rn_api :: "string + (string \<times> 'o router) option"

datatype ('a, 'o) main_outcome = Exit_Help | Failed main_error | Running "('a, 'o) running"

definition main_logging_config :: "app_config \<Rightarrow> logging_config" where
  "main_logging_config config =
     LoggingConfig_default\<lparr>lo_enabled := True, lo_level := me_log_level (ac_metrics config),
       lo_format := (if me_json_logs (ac_metrics config) then Json else Pretty)\<rparr>"

definition main_metrics_config :: "app_config \<Rightarrow> metrics_config" where
  "main_metrics_config config =
     \<lparr>mt_enabled = me_enabled (ac_metrics config), mt_listen_addr = ''0.0.0.0'',
      mt_listen_port = me_port (ac_metrics config)\<rparr>"

definition main_api_config :: "app_config \<Rightarrow> api_config" where
  "main_api_config config =
     \<lparr>af_enabled = True, af_listen_addr = ai_host (ac_api config), af_port = ai_port (ac_api config),
      af_cors_origins = [], af_request_timeout_secs = 30\<rparr>"

definition main_register :: "(nat \<Rightarrow> nat) \<Rightarrow> health_registry \<Rightarrow> health_registry" where
  "main_register clock health =
     (let health = HealthRegistry_register (clock 1) ''api'' True health;
          health = HealthRegistry_register (clock 2) ''chain_connector'' True health;
          health = HealthRegistry_register (clock 3) ''order_discovery'' True health;
          health = HealthRegistry_register (clock 4) ''execution_engine'' True health
      in HealthRegistry_register (clock 5) ''settlement'' False health)"

definition main_state :: "(nat \<Rightarrow> nat) \<Rightarrow> app_state" where
  "main_state clock =
     (let health = main_register clock (HealthRegistry_new (clock 0));
          health = HealthRegistry_update (clock 6) ''api'' Healthy ''server starting'' health
      in AppState_new health PnlTracker_with_defaults BalanceTracker_with_defaults
           RiskManager_with_defaults EventBus_with_defaults)"

definition main :: "('a, 'o) outside \<Rightarrow> ('a, 'o) main_outcome" where
  "main nw =
     (case parse_config_path (nw_args nw) of
        None \<Rightarrow> Exit_Help
      | Some config_path \<Rightarrow>
     (case AppConfig_from_file (nw_read_file nw) (nw_parse_toml nw) config_path of
        Inl e \<Rightarrow> Failed (Config_Failed e)
      | Inr config \<Rightarrow>
     (let config = AppConfig_apply_env_overrides (nw_env nw) config in
      case init_logging (nw_env nw) (nw_set_logging nw) (main_logging_config config) of
        Inl e \<Rightarrow> Failed (Setup_Failed e)
      | Inr logging \<Rightarrow>
     (case init_metrics (nw_parse_addr nw) (nw_install nw) (main_metrics_config config) of
        Inl e \<Rightarrow> Failed (Setup_Failed e)
      | Inr metrics \<Rightarrow>
     (let state = main_state (nw_clock nw) in
      Running
        \<lparr>rn_config = config, rn_logging = logging, rn_metrics = metrics, rn_state = state,
         rn_api = start_server (nw_parse_origin nw) (nw_bind nw) (main_api_config config) state\<rparr>)))))"

section \<open>The state at start\<close>

lemma config_argument_SomeD:
  "config_argument args = Some path \<Longrightarrow>
     \<exists>i. Suc i < length args \<and> args ! i = ''--config'' \<and> args ! Suc i = path"
proof (induction args)
  case (Cons a rest)
  show ?case
  proof (cases "a = ''--config'' \<and> rest \<noteq> []")
    case True
    with Cons.prems show ?thesis by (intro exI [of _ 0]) (auto simp: hd_conv_nth)
  next
    case False
    with Cons obtain i where "Suc i < length rest \<and> rest ! i = ''--config'' \<and> rest ! Suc i = path" by auto
    then show ?thesis by (intro exI [of _ "Suc i"]) simp
  qed
qed simp

lemma config_argument_None:
  "config_argument args = None \<longleftrightarrow> ''--config'' \<notin> set (butlast args)"
  by (induction args) auto

lemma main_state_health:
  "hg_components (as_health (main_state clock)) =
     dm_insert ''api'' \<lparr>he_status = Healthy, he_message = ''server starting'',
         he_last_updated = clock 6, he_critical = True\<rparr>
      (hg_components (main_register clock (HealthRegistry_new (clock 0))))"
  by (simp add: main_state_def main_register_def Let_def AppState_new_def HealthRegistry_update_def
      HealthRegistry_register_def)

lemma main_components:
  "dm_get n (hg_components (as_health (main_state clock))) = Some e \<Longrightarrow> he_status e = Healthy"
  by (auto simp: main_state_health main_register_def HealthRegistry_register_def HealthRegistry_new_def
      split: if_splits)

lemma main_wf: "dm_wf (hg_components (as_health (main_state clock)))"
  by (simp add: main_state_health main_register_def HealthRegistry_register_def HealthRegistry_new_def wf_intros)

text \<open>
  The components that nothing of the program ever starts stand as registered, healthy.
\<close>

lemma unstarted_components_healthy:
  "list_all (\<lambda>n. map_option (\<lambda>e. (he_status e, he_message e))
       (dm_get n (hg_components (as_health (main_state clock)))) = Some (Healthy, ''registered''))
     [''chain_connector'', ''order_discovery'', ''execution_engine'', ''settlement'']"
  by (simp add: main_state_health main_register_def HealthRegistry_register_def HealthRegistry_new_def)

lemma main_health:
  "HealthRegistry_component_count (as_health (main_state clock)) = 5"
  "HealthRegistry_aggregate_status (as_health (main_state clock)) = Sys_Healthy"
  "HealthRegistry_is_ready (as_health (main_state clock))"
  by (simp_all add: HealthRegistry_component_count_def HealthRegistry_aggregate_status_def
      HealthRegistry_is_ready_def main_state_health main_register_def HealthRegistry_register_def
      HealthRegistry_new_def dm_insert_def dm_get_def dm_iter_def)

lemma main_metrics:
  "init_metrics parse_addr install (main_metrics_config config) =
     (if me_enabled (ac_metrics config) then
        (let addr = V4 0 0 0 0 (unat (me_port (ac_metrics config))) in
         case install addr of Inl e \<Rightarrow> Inl (Fmt ''failed to install Prometheus recorder: {e}'' [Str e])
         | Inr _ \<Rightarrow> Inr (Some (addr, register_descriptions)))
      else Inr None)"
proof -
  have "mt_listen_addr (main_metrics_config config) = decimal 0 @ ''.'' @ decimal 0 @ ''.'' @ decimal 0 @ ''.'' @ decimal 0"
    by (simp add: main_metrics_config_def decimal.simps digit_char_def) code_simp
  from socket_addr_v4 [OF _ _ _ _ this, of parse_addr] show ?thesis
    by (cases "me_enabled (ac_metrics config)") (simp_all add: init_metrics_def main_metrics_config_def Let_def)
qed

section \<open>Starting the program\<close>

lemma init_logging_cases:
  "init_logging env set_logging (main_logging_config config) =
     (let directives = (case env ''RUST_LOG'' of Some d \<Rightarrow> d | None \<Rightarrow> me_log_level (ac_metrics config));
          layer = logging_layer (main_logging_config config)
      in case set_logging (directives, layer) of
           Inl e \<Rightarrow> Inl (Fmt ''failed to initialize logging: {e}'' [Str e])
         | Inr _ \<Rightarrow> Inr (Some (directives, layer)))"
  by (cases "env ''RUST_LOG''")
     (simp_all add: init_logging_def LoggingConfig_build_filter_def main_logging_config_def
       LoggingConfig_default_def Let_def)

lemma from_file_Inr:
  "AppConfig_from_file read_file parse path = Inr c \<longleftrightarrow>
     (\<exists>content. read_file path = Inr content \<and> parse content = Inr c \<and> config_valid c)"
  by (auto simp: AppConfig_from_file_def AppConfig_from_toml_str_def simp flip: validate_iff
      split: sum.splits)

text \<open>The path of the configuration: the first \<open>--config\<close> that has a value, else the default.\<close>

definition config_path_of :: "string list \<Rightarrow> string" where
  "config_path_of args = (case config_argument args of Some path \<Rightarrow> path | None \<Rightarrow> ''config.toml'')"

lemma main_Running:
  assumes "main nw = Running r"
  obtains content c where "nw_read_file nw (config_path_of (nw_args nw)) = Inr content" "nw_parse_toml nw content = Inr c"
    "config_valid c" "rn_config r = overridden (nw_env nw) c" "rn_state r = main_state (nw_clock nw)"
    "init_metrics (nw_parse_addr nw) (nw_install nw) (main_metrics_config (rn_config r)) = Inr (rn_metrics r)"
    "rn_api r = start_server (nw_parse_origin nw) (nw_bind nw) (main_api_config (rn_config r)) (rn_state r)"
proof -
  let ?from = "AppConfig_from_file (nw_read_file nw) (nw_parse_toml nw) (config_path_of (nw_args nw))"
  have path: "parse_config_path (nw_args nw) = Some (config_path_of (nw_args nw))"
    using assms by (auto simp: main_def parse_config_path_def config_path_of_def split: option.splits if_splits)
  then obtain c where c: "?from = Inr c"
    using assms by (cases ?from) (simp_all add: main_def)
  then obtain content where "nw_read_file nw (config_path_of (nw_args nw)) = Inr content" "nw_parse_toml nw content = Inr c"
    "config_valid c" by (auto simp: from_file_Inr)
  moreover have "rn_config r = overridden (nw_env nw) c \<and> rn_state r = main_state (nw_clock nw)
    \<and> init_metrics (nw_parse_addr nw) (nw_install nw) (main_metrics_config (rn_config r)) = Inr (rn_metrics r)
    \<and> rn_api r = start_server (nw_parse_origin nw) (nw_bind nw) (main_api_config (rn_config r)) (rn_state r)"
    using assms path c
    by (auto simp: main_def Let_def apply_env_overrides_eq split: sum.splits)
  ultimately show ?thesis using that by blast
qed


text \<open>
  The API is marked healthy before its address is bound, and a failure to bind is only logged: the
  program goes on, ready by its own account, with nobody listening.
\<close>

lemma failed_bind_stays_healthy:
  assumes "main nw = Running r" and "rn_api r = Inl e"
  shows "HealthRegistry_is_ready (as_health (rn_state r))
    \<and> map_option he_status (dm_get ''api'' (hg_components (as_health (rn_state r)))) = Some Healthy
    \<and> (\<exists>addr. nw_bind nw addr = Inl e)"
proof -
  have state: "rn_state r = main_state (nw_clock nw)"
    and api: "rn_api r = start_server (nw_parse_origin nw) (nw_bind nw) (main_api_config (rn_config r)) (rn_state r)"
    using main_Running [OF assms(1)] by metis+
  have "\<exists>addr. nw_bind nw addr = Inl e"
    using assms(2) unfolding api by (auto simp: start_server_def Let_def split: if_splits sum.splits)
  then show ?thesis by (simp add: state main_health main_state_health)
qed

definition sample_app_config :: app_config where
  "sample_app_config =
     \<lparr>ac_chains = [(''ethereum'', \<lparr>hc_chain_id = Ethereum, hc_rpc_url = ''http://node'', hc_ws_url = None,
         hc_max_concurrent_requests = default_max_concurrent_requests,
         hc_request_timeout_ms = default_request_timeout_ms, hc_mempool_enabled = False\<rparr>)],
      ac_database = \<lparr>dc_url = ''postgres://db'', dc_max_connections = default_max_connections,
         dc_min_connections = default_min_connections, dc_connect_timeout_secs = default_connect_timeout_secs\<rparr>,
      ac_redis = \<lparr>rd_url = ''redis://cache'', rd_pool_size = default_redis_pool_size\<rparr>,
      ac_strategy = \<lparr>sf_min_profit_bps = default_min_profit_bps, sf_max_gas_price_gwei = default_max_gas_price_gwei,
         sf_evaluation_timeout_ms = default_evaluation_timeout_ms, sf_enabled_strategies = default_enabled_strategies\<rparr>,
      ac_execution = \<lparr>xc_private_key = None, xc_flashbots_enabled = False, xc_flashbots_relay_url = None,
         xc_max_retries = default_max_retries, xc_retry_delay_ms = default_retry_delay_ms\<rparr>,
      ac_api = \<lparr>ai_host = default_api_host, ai_port = default_api_port, ai_websocket_enabled = default_true\<rparr>,
      ac_metrics = \<lparr>me_enabled = False, me_port = default_metrics_port, me_log_level = default_log_level,
         me_json_logs = False\<rparr>\<rparr>"

definition sample_outside :: "(string \<Rightarrow> string option) \<Rightarrow> (nat, nat) outside" where
  "sample_outside env =
     \<lparr>nw_args = [''phantom-filler'', ''--config'', ''a.toml''], nw_read_file = (\<lambda>path. Inr path),
      nw_parse_toml = (\<lambda>_. Inr sample_app_config), nw_env = env,
      nw_set_logging = (\<lambda>_. Inr ()), nw_parse_addr = (\<lambda>_. None), nw_install = (\<lambda>_. Inr ()),
      nw_clock = id, nw_parse_origin = (\<lambda>_. None), nw_bind = (\<lambda>_. Inr ())\<rparr>"

lemma sample_runs: "\<exists>r. main (sample_outside env) = Running r"
proof -
  have "config_valid sample_app_config"
    by (simp add: config_valid_def sample_app_config_def default_max_connections_def)
  then have "AppConfig_from_file (nw_read_file (sample_outside env)) (nw_parse_toml (sample_outside env)) ''a.toml''
      = Inr sample_app_config"
    by (simp add: from_file_Inr sample_outside_def)
  moreover have "parse_config_path (nw_args (sample_outside env)) = Some ''a.toml''"
    by (simp add: sample_outside_def parse_config_path_def)
  moreover have "\<exists>l. init_logging (nw_env (sample_outside env)) (nw_set_logging (sample_outside env))
      (main_logging_config c) = Inr l" for c
    by (simp add: init_logging_cases sample_outside_def Let_def)
  moreover have "\<exists>m. init_metrics (nw_parse_addr (sample_outside env)) (nw_install (sample_outside env))
      (main_metrics_config c) = Inr m" for c
    by (simp add: main_metrics sample_outside_def Let_def)
  ultimately obtain l m where
    "init_logging (nw_env (sample_outside env)) (nw_set_logging (sample_outside env))
      (main_logging_config (AppConfig_apply_env_overrides (nw_env (sample_outside env)) sample_app_config)) = Inr l"
    "init_metrics (nw_parse_addr (sample_outside env)) (nw_install (sample_outside env))
      (main_metrics_config (AppConfig_apply_env_overrides (nw_env (sample_outside env)) sample_app_config)) = Inr m"
    "AppConfig_from_file (nw_read_file (sample_outside env)) (nw_parse_toml (sample_outside env)) ''a.toml''
      = Inr sample_app_config"
    "parse_config_path (nw_args (sample_outside env)) = Some ''a.toml''" by blast
  then show ?thesis by (simp add: main_def Let_def)
qed


text \<open>
  The overrides come after validation: with an empty \<open>PHANTOM_DATABASE_URL\<close> the program runs with a
  configuration that validation rejects.
\<close>

lemma runs_with_invalid_config:
  "\<exists>r. main (sample_outside [''PHANTOM_DATABASE_URL'' \<mapsto> '''']) = Running r \<and> \<not> config_valid (rn_config r)"
proof -
  let ?env = "[''PHANTOM_DATABASE_URL'' \<mapsto> ''''] :: string \<Rightarrow> string option"
  obtain r where run: "main (sample_outside ?env) = Running r" using sample_runs by blast
  then obtain c where "rn_config r = overridden ?env c"
    by (elim main_Running) (simp add: sample_outside_def)
  then have "\<not> config_valid (rn_config r)"
    using override_invalidates [of ?env c] by (simp add: apply_env_overrides_eq)
  with run show ?thesis by blast
qed

end
