(* ===== verification/Fill_Flow.thy ===== *)
theory Fill_Flow
  imports Risk Pnl
begin

text \<open>
  Risk manager and P&L tracker together, in the flow of the integration tests: a fill is started
  only after it passed the risk check, and when it completes its result is recorded in both.  No
  code under \<open>src/\<close> but the tests composes the two; the flow is the contract they are built for.
\<close>

section \<open>The flow\<close>






section \<open>Both ledgers follow the results\<close>

lemma prune_realized [simp]:
  "pt_total_realized_wei (PnlTracker_prune_if_needed pt) = pt_total_realized_wei pt"
  "pt_total_fills (PnlTracker_prune_if_needed pt) = pt_total_fills pt"
proof -
  have "pt_total_realized_wei (fold prune_seq ss pt) = pt_total_realized_wei pt"
    "pt_total_fills (fold prune_seq ss pt) = pt_total_fills pt" for ss pt
    by (induction ss arbitrary: pt) (simp_all add: prune_seq_def split: option.split)
  then show "pt_total_realized_wei (PnlTracker_prune_if_needed pt) = pt_total_realized_wei pt"
    "pt_total_fills (PnlTracker_prune_if_needed pt) = pt_total_fills pt"
    by (simp_all add: PnlTracker_prune_if_needed_def Let_def)
qed














section \<open>The loss of a day is bounded\<close>





end
