(* ===== verification/Order_Flow.thy ===== *)
theory Order_Flow
  imports Order_Book Reactor_Monitor Pipeline
begin

text \<open>
  From discovery to the decision to fill: the order book is filled with decoded and validated orders
  (\<open>phantom-discovery\<close>), and the pipeline (\<open>phantom-strategy\<close>) evaluates an active entry.  The
  crates meet in the order and in the identifier of the decision.
\<close>

section \<open>A book of discovered orders\<close>







section \<open>The decision on an active order\<close>


















end
