(* ===== verification/Error_Text.thy ===== *)
theory Error_Text
  imports Retry Relay "HOL-Library.Sublist"
begin

text \<open>
  The text of errors: \<open>format!\<close> applied to its arguments, the \<open>Display\<close> of the shared types
  (\<open>types/chain.rs\<close>, \<open>types/token.rs\<close>, \<open>types/order.rs\<close>) and of the error enums (the
  \<open>#[error("...")]\<close> attributes of \<open>error.rs\<close>), and what the retry manager, which reads only that
  text, makes of it.  The checksummed text of an address is alloy's: the argument \<open>show_address\<close>.
\<close>

section \<open>Rendering\<close>

definition show_hash :: "b256 \<Rightarrow> string" where
  "show_hash h = (let digits = lower_hex (unat h) in ''0x'' @ replicate (64 - length digits) CHR ''0'' @ digits)"

fun show_arg :: "(address \<Rightarrow> string) \<Rightarrow> fmt_arg \<Rightarrow> string" where
  "show_arg show_address (Num n) = (if n < 0 then CHR ''-'' # decimal (nat (- n)) else decimal (nat n))"
| "show_arg show_address (Str s) = s"
| "show_arg show_address (Addr a) = show_address a"
| "show_arg show_address (Hash h) = show_hash h"

text \<open>Every hole \<open>{...}\<close> takes the next argument; the flag says whether the reader is inside a hole.\<close>

fun fill_holes :: "string list \<Rightarrow> bool \<Rightarrow> string \<Rightarrow> string" where
  "fill_holes args hole [] = []"
| "fill_holes args True (c # s) = fill_holes args (c \<noteq> CHR ''}'') s"
| "fill_holes args False (c # s) =
     (if c = CHR ''{'' then (case args of [] \<Rightarrow> fill_holes [] True s | a # args \<Rightarrow> a @ fill_holes args True s)
      else c # fill_holes args False s)"

definition render :: "(address \<Rightarrow> string) \<Rightarrow> message \<Rightarrow> string" where
  "render show_address m = (case m of Fmt f args \<Rightarrow> fill_holes (map (show_arg show_address) args) False f)"

section \<open>The texts of types and errors\<close>

definition ChainId_display :: "chain_id \<Rightarrow> string" where
  "ChainId_display c = ChainId_name c @ '' ('' @ decimal (unat (ChainId_as_u64 c)) @ '')''"

definition Token_display :: "(address \<Rightarrow> string) \<Rightarrow> token \<Rightarrow> string" where
  "Token_display show_address t =
     tk_symbol t @ '' ('' @ show_address (tk_address t) @ '' on '' @ ChainId_display (tk_chain_id t) @ '')''"

definition TokenAmount_display :: "token_amount \<Rightarrow> string" where
  "TokenAmount_display a = decimal (unat (ta_amount a)) @ '' '' @ tk_symbol (ta_token a)"

definition OrderId_display :: "order_id \<Rightarrow> string" where
  "OrderId_display i = show_hash i"

text \<open>The formats \<open>"label: {0}"\<close> and \<open>"... {0} ..."\<close> of a number; \<open>rd\<close> renders the payload of a variant.\<close>

definition labelled :: "string \<Rightarrow> string \<Rightarrow> string" where
  "labelled label s = label @ '': '' @ s"

definition numbered :: "string \<Rightarrow> nat \<Rightarrow> string \<Rightarrow> string" where
  "numbered s n t = s @ decimal n @ t"

fun ChainError_display :: "(message \<Rightarrow> string) \<Rightarrow> chain_error \<Rightarrow> string" where
  "ChainError_display rd (ConnectionFailed c reason) =
     labelled (''RPC connection failed for '' @ ChainId_display c) (rd reason)"
| "ChainError_display rd (ProviderError c reason) = labelled (''provider error on '' @ ChainId_display c) (rd reason)"
| "ChainError_display rd (StreamInterrupted c) = ''block stream interrupted on '' @ ChainId_display c"
| "ChainError_display rd (UnsupportedChain c) = labelled ''unsupported chain'' (ChainId_display c)"
| "ChainError_display rd (TransactionFailed c reason) =
     labelled (''transaction failed on '' @ ChainId_display c) (rd reason)"

fun DiscoveryError_display :: "(message \<Rightarrow> string) \<Rightarrow> discovery_error \<Rightarrow> string" where
  "DiscoveryError_display rd (DecodeFailed m) = labelled ''order decode failed'' (rd m)"
| "DiscoveryError_display rd (DecodingFailed m) = labelled ''decoding failed'' (rd m)"
| "DiscoveryError_display rd (ValidationFailed m) = labelled ''validation failed'' (rd m)"
| "DiscoveryError_display rd (InvalidSignature m) = labelled ''invalid order signature'' (rd m)"
| "DiscoveryError_display rd (OrderExpiredErr m) = labelled ''order expired'' (rd m)"
| "DiscoveryError_display rd (OrderNotFound m) = labelled ''order not found'' (rd m)"
| "DiscoveryError_display rd (ReactorError m) = labelled ''reactor error'' (rd m)"
| "DiscoveryError_display rd (OrderAlreadyExists m) = labelled ''order already exists'' (rd m)"
| "DiscoveryError_display rd (InvalidTransition from_status to_status) =
     ''invalid transition from '' @ from_status @ '' to '' @ to_status"

fun PricingError_display :: "(message \<Rightarrow> string) \<Rightarrow> pricing_error \<Rightarrow> string" where
  "PricingError_display rd (NoPriceAvailable a b c) =
     ''no price available for '' @ a @ ''/'' @ b @ '' on '' @ ChainId_display c"
| "PricingError_display rd (StalePrice provider age) =
     ''stale price data from '' @ provider @ '': age '' @ decimal (unat age) @ ''s''"
| "PricingError_display rd (SourceUnavailable m) = labelled ''price source unavailable'' (rd m)"
| "PricingError_display rd (PricingGasEstimationFailed m) = labelled ''gas estimation failed'' (rd m)"

fun StrategyError_display :: "(message \<Rightarrow> string) \<Rightarrow> strategy_error \<Rightarrow> string" where
  "StrategyError_display rd (SimulationFailed m) = labelled ''simulation failed'' (rd m)"
| "StrategyError_display rd (Unprofitable m) = ''unprofitable order: expected loss '' @ rd m"
| "StrategyError_display rd (InsufficientLiquidity m) = labelled ''insufficient liquidity'' (rd m)"
| "StrategyError_display rd (EvaluationTimeout ms) = ''evaluation timeout after '' @ decimal (unat ms) @ ''ms''"

fun ExecutionError_display :: "(message \<Rightarrow> string) \<Rightarrow> execution_error \<Rightarrow> string" where
  "ExecutionError_display rd (ExecReverted m) = labelled ''transaction reverted'' (rd m)"
| "ExecutionError_display rd (NonceError m) = labelled ''nonce error'' (rd m)"
| "ExecutionError_display rd (GasEstimationFailed m) = labelled ''gas estimation failed'' (rd m)"
| "ExecutionError_display rd (NotIncluded attempts) =
     numbered ''transaction not included after '' (unat attempts) '' attempts''"
| "ExecutionError_display rd (RelayFailed m) = labelled ''relay submission failed'' (rd m)"

fun InventoryError_display :: "(message \<Rightarrow> string) \<Rightarrow> inventory_error \<Rightarrow> string" where
  "InventoryError_display rd (BalanceCheckFailed m) = labelled ''balance check failed'' (rd m)"
| "InventoryError_display rd (PositionLimitExceeded m) = labelled ''position limit exceeded'' (rd m)"
| "InventoryError_display rd (InsufficientBalance m) = labelled ''insufficient balance'' (rd m)"

fun SettlementError_display :: "(message \<Rightarrow> string) \<Rightarrow> settlement_error \<Rightarrow> string" where
  "SettlementError_display rd (ConfirmationFailed m) = labelled ''confirmation failed'' (rd m)"
| "SettlementError_display rd (TransactionReverted m) = labelled ''transaction reverted'' (rd m)"
| "SettlementError_display rd (SettlementTimeout ms) =
     numbered ''settlement timed out after '' (unat ms) ''ms''"

fun PhantomError_display :: "(message \<Rightarrow> string) \<Rightarrow> phantom_error \<Rightarrow> string" where
  "PhantomError_display rd (ChainFailure e) = labelled ''chain error'' (ChainError_display rd e)"
| "PhantomError_display rd (DiscoveryFailure e) = labelled ''discovery error'' (DiscoveryError_display rd e)"
| "PhantomError_display rd (PricingFailure e) = labelled ''pricing error'' (PricingError_display rd e)"
| "PhantomError_display rd (StrategyFailure e) = labelled ''strategy error'' (StrategyError_display rd e)"
| "PhantomError_display rd (ExecutionFailure e) = labelled ''execution error'' (ExecutionError_display rd e)"
| "PhantomError_display rd (ConfigFailure m) = labelled ''config error'' (rd m)"
| "PhantomError_display rd (DatabaseFailure m) = labelled ''database error'' (rd m)"
| "PhantomError_display rd (InternalFailure m) = labelled ''internal error'' (rd m)"

section \<open>Phrases in a text\<close>

lemma str_contains_sublist: "str_contains s p \<longleftrightarrow> sublist p s"
proof (induction s)
  case (Cons c s)
  have "take (length p) (c # s) = p \<longleftrightarrow> prefix p (c # s)"
    by (metis append_eq_conv_conj append_take_drop_id prefix_def)
  then show ?case using Cons by (simp add: sublist_Cons_right)
qed simp

text \<open>A phrase does not reach over a character it has not, nor does it start with one.\<close>

lemma sublist_skip: "c \<notin> set k \<Longrightarrow> sublist k (c # s) \<longleftrightarrow> sublist k s"
  by (cases k) (auto simp: sublist_Cons_right)

lemma sublist_separated:
  assumes "c \<notin> set k"
  shows "sublist k (p @ c # s) \<longleftrightarrow> sublist k p \<or> sublist k s"
proof -
  have "sublist k p" if k: "k = k1 @ k2" and s1: "suffix k1 p" and p2: "prefix k2 (c # s)" for k1 k2
  proof (cases k2)
    case Nil
    with k s1 show ?thesis by (simp add: suffix_imp_sublist)
  next
    case (Cons d ds)
    with p2 have "d = c" by simp
    with k Cons assms show ?thesis by simp
  qed
  then show ?thesis
    unfolding sublist_append sublist_skip [OF assms] by blast
qed

lemma sublist_separated_block:
  "ds \<noteq> [] \<Longrightarrow> set ds \<inter> set k = {} \<Longrightarrow> sublist k (p @ ds @ s) \<longleftrightarrow> sublist k p \<or> sublist k s"
proof (induction ds arbitrary: p)
  case (Cons d ds)
  then have d: "d \<notin> set k" by simp
  show ?case
  proof (cases "ds = []")
    case True
    then show ?thesis using sublist_separated [OF d] by simp
  next
    case False
    have "sublist k (p @ (d # ds) @ s) \<longleftrightarrow> sublist k p \<or> sublist k (ds @ s)"
      using sublist_separated [OF d] by simp
    also have "sublist k (ds @ s) \<longleftrightarrow> sublist k [] \<or> sublist k s"
      using Cons.IH [of "[]"] Cons.prems False by simp
    finally show ?thesis by auto
  qed
qed simp

text \<open>The phrases that decide over a retry have no colon and no digit and start with a letter.\<close>

definition decision_phrases :: "string list" where
  "decision_phrases = transient_keywords @ permanent_keywords"

lemma decision_phrases_shape:
  "list_all (\<lambda>k. CHR '':'' \<notin> set k \<and> k \<noteq> [] \<and> hd k \<noteq> CHR '' '' \<and> list_all (\<lambda>c. \<not> is_digit c) k) decision_phrases"
  by code_simp

lemma phrase_shape:
  assumes "k \<in> set decision_phrases"
  shows "CHR '':'' \<notin> set k" "sublist k (CHR '' '' # s) \<longleftrightarrow> sublist k s" "list_all (\<lambda>c. \<not> is_digit c) k"
  using decision_phrases_shape assms
  by (cases k; auto simp: list_all_iff sublist_Cons_right)+

lemma to_lowercase_append [simp]: "to_lowercase (s @ t) = to_lowercase s @ to_lowercase t"
  by (simp add: to_lowercase_def)

lemma to_lower_digit: "is_digit c \<Longrightarrow> to_lower c = c"
  by (simp add: to_lower_def is_digit_def)

lemma to_lowercase_decimal [simp]: "to_lowercase (decimal n) = decimal n"
  using decimal_digits [of n] unfolding to_lowercase_def
  by (intro map_idI to_lower_digit) (simp add: list_all_iff)

lemma phrase_after_label:
  assumes "k \<in> set decision_phrases"
  shows "str_contains (to_lowercase (labelled label s)) k \<longleftrightarrow>
    str_contains (to_lowercase label) k \<or> str_contains (to_lowercase s) k"
proof -
  have "to_lowercase (labelled label s) = to_lowercase label @ CHR '':'' # CHR '' '' # to_lowercase s"
    by (simp add: labelled_def to_lowercase_def to_lower_def Let_def)
  then show ?thesis
    by (simp add: str_contains_sublist sublist_separated phrase_shape [OF assms])
qed

lemma phrase_around_number:
  assumes "k \<in> set decision_phrases"
  shows "str_contains (to_lowercase (numbered s n t)) k \<longleftrightarrow>
    str_contains (to_lowercase s) k \<or> str_contains (to_lowercase t) k"
proof -
  have "set (decimal n) \<inter> set k = {}"
    using decimal_digits [of n] phrase_shape(3) [OF assms] by (auto simp: list_all_iff)
  then show ?thesis
    using sublist_separated_block [of "decimal n" k "to_lowercase s" "to_lowercase t"]
    by (simp add: str_contains_sublist numbered_def)
qed

section \<open>The retry decision of a displayed error\<close>

definition text_retryable :: "string \<Rightarrow> bool" where
  "text_retryable s \<longleftrightarrow> RevertReason_is_retryable (classify_revert s)"

definition names_transient :: "string \<Rightarrow> bool" where
  "names_transient s \<longleftrightarrow> list_ex (str_contains (to_lowercase s)) transient_keywords"

definition names_permanent :: "string \<Rightarrow> bool" where
  "names_permanent s \<longleftrightarrow> list_ex (str_contains (to_lowercase s)) permanent_keywords"

lemma text_retryable_iff: "text_retryable s \<longleftrightarrow> names_transient s \<or> \<not> names_permanent s"
  by (simp add: text_retryable_def names_transient_def names_permanent_def is_retryable_classify)

lemma names_after_label:
  "names_transient (labelled label s) \<longleftrightarrow> names_transient label \<or> names_transient s"
  "names_permanent (labelled label s) \<longleftrightarrow> names_permanent label \<or> names_permanent s"
  by (auto simp: names_transient_def names_permanent_def list_ex_iff decision_phrases_def phrase_after_label)

lemma names_around_number:
  "names_transient (numbered s n t) \<longleftrightarrow> names_transient s \<or> names_transient t"
  "names_permanent (numbered s n t) \<longleftrightarrow> names_permanent s \<or> names_permanent t"
  by (auto simp: names_transient_def names_permanent_def list_ex_iff decision_phrases_def phrase_around_number)

text \<open>What the labels say by themselves.\<close>

lemma neutral_labels:
  "list_all (\<lambda>l. \<not> names_transient l \<and> \<not> names_permanent l)
     [''transaction reverted'', ''nonce error'', ''gas estimation failed'', ''relay submission failed'',
      ''transaction not included after '', '' attempts'', ''confirmation failed'', ''settlement timed out after '',
      ''ms'', ''balance check failed'', ''position limit exceeded'', ''order decode failed'', ''decoding failed'',
      ''validation failed'', ''invalid order signature'', ''order not found'', ''reactor error'',
      ''execution error'', ''discovery error'']"
  unfolding names_transient_def names_permanent_def by code_simp

lemma permanent_labels:
  "list_all (\<lambda>l. \<not> names_transient l \<and> names_permanent l)
     [''order expired'', ''order already exists'', ''insufficient balance'']"
  unfolding names_transient_def names_permanent_def by code_simp

lemmas label_facts = neutral_labels [simplified] permanent_labels [simplified]

lemma neutral_label:
  assumes "\<not> names_transient l" "\<not> names_permanent l"
  shows "names_transient (labelled l s) = names_transient s" "names_permanent (labelled l s) = names_permanent s"
    "text_retryable (labelled l s) = text_retryable s"
  using assms by (simp_all add: names_after_label text_retryable_iff)

definition retry_room :: "u32 \<Rightarrow> retry_manager \<Rightarrow> bool" where
  "retry_room attempt ym \<longleftrightarrow> attempt < yc_max_retries (ym_config ym)
     \<and> ym_active_retries ym < yc_global_retry_budget (ym_config ym)"

lemma should_retry_text:
  "RetryEvaluation_should_retry (RetryManager_evaluate_retry pow_i s attempt ym) \<longleftrightarrow>
     retry_room attempt ym \<and> text_retryable s"
  by (auto simp: RetryManager_evaluate_retry_def RetryEvaluation_should_retry_def retry_room_def
      text_retryable_def Let_def not_le)

text \<open>
  C34: The retry manager sees only the text of an error.  For the errors of execution and settlement,
  alone or wrapped into \<open>PhantomError\<close>, the text that \<open>Display\<close> puts around the payload never
  matters: the error is retried exactly when its payload would be, and timeouts are always
  retryable.  A missing balance, an expired order and an order that exists already are abandoned
  by their own label, unless the payload names a transient failure.
\<close>

theorem displayed_error_retry:
  "(RetryEvaluation_should_retry (RetryManager_evaluate_retry pow_i (ExecutionError_display rd ex) attempt ym) \<longleftrightarrow>
      retry_room attempt ym \<and> (case ex of NotIncluded _ \<Rightarrow> True
        | ExecReverted m \<Rightarrow> text_retryable (rd m) | NonceError m \<Rightarrow> text_retryable (rd m)
        | GasEstimationFailed m \<Rightarrow> text_retryable (rd m) | RelayFailed m \<Rightarrow> text_retryable (rd m)))
   \<and> (RetryEvaluation_should_retry
        (RetryManager_evaluate_retry pow_i (PhantomError_display rd (ExecutionFailure ex)) attempt ym) \<longleftrightarrow>
      RetryEvaluation_should_retry (RetryManager_evaluate_retry pow_i (ExecutionError_display rd ex) attempt ym))
   \<and> (RetryEvaluation_should_retry (RetryManager_evaluate_retry pow_i (SettlementError_display rd se) attempt ym) \<longleftrightarrow>
      retry_room attempt ym \<and> (case se of SettlementTimeout _ \<Rightarrow> True
        | ConfirmationFailed m \<Rightarrow> text_retryable (rd m) | TransactionReverted m \<Rightarrow> text_retryable (rd m)))
   \<and> (RetryEvaluation_should_retry (RetryManager_evaluate_retry pow_i (InventoryError_display rd ie) attempt ym) \<longleftrightarrow>
      retry_room attempt ym \<and> (case ie of InsufficientBalance m \<Rightarrow> names_transient (rd m)
        | BalanceCheckFailed m \<Rightarrow> text_retryable (rd m) | PositionLimitExceeded m \<Rightarrow> text_retryable (rd m)))
   \<and> (RetryEvaluation_should_retry (RetryManager_evaluate_retry pow_i (DiscoveryError_display rd (OrderExpiredErr m)) attempt ym)
      \<longleftrightarrow> retry_room attempt ym \<and> names_transient (rd m))
   \<and> (RetryEvaluation_should_retry (RetryManager_evaluate_retry pow_i (DiscoveryError_display rd (OrderAlreadyExists m)) attempt ym)
      \<longleftrightarrow> retry_room attempt ym \<and> names_transient (rd m))"
proof -
  note facts = should_retry_text label_facts neutral_label names_after_label names_around_number
  have ex: "text_retryable (ExecutionError_display rd ex) \<longleftrightarrow> (case ex of NotIncluded _ \<Rightarrow> True
        | ExecReverted m \<Rightarrow> text_retryable (rd m) | NonceError m \<Rightarrow> text_retryable (rd m)
        | GasEstimationFailed m \<Rightarrow> text_retryable (rd m) | RelayFailed m \<Rightarrow> text_retryable (rd m))"
    by (cases ex) (simp_all add: facts text_retryable_iff [of "numbered _ _ _"])
  have ie: "text_retryable (InventoryError_display rd ie) \<longleftrightarrow> (case ie of InsufficientBalance m \<Rightarrow> names_transient (rd m)
        | BalanceCheckFailed m \<Rightarrow> text_retryable (rd m) | PositionLimitExceeded m \<Rightarrow> text_retryable (rd m))"
    by (cases ie) (auto simp add: facts text_retryable_iff [of "labelled ''insufficient balance'' _"])
  have se: "text_retryable (SettlementError_display rd se) \<longleftrightarrow> (case se of SettlementTimeout _ \<Rightarrow> True
        | ConfirmationFailed m \<Rightarrow> text_retryable (rd m) | TransactionReverted m \<Rightarrow> text_retryable (rd m))"
    by (cases se) (simp_all add: facts text_retryable_iff [of "numbered _ _ _"])
  show ?thesis
    unfolding should_retry_text ex ie se
    by (auto simp: facts ex text_retryable_iff [of "labelled ''order expired'' _"]
        text_retryable_iff [of "labelled ''order already exists'' _"])
qed

section \<open>The decision over a failed submission\<close>

text \<open>A phrase does not reach over the end of a text none of whose ends starts it.\<close>

definition starts_at_end :: "string \<Rightarrow> string \<Rightarrow> bool" where
  "starts_at_end p k \<longleftrightarrow> list_ex (\<lambda>k1. suffix k1 p) (tl (prefixes k))"

lemma sublist_no_overlap:
  assumes "\<not> starts_at_end p k"
  shows "sublist k (p @ s) \<longleftrightarrow> sublist k p \<or> sublist k s"
proof -
  have "k1 = []" if k: "k = k1 @ k2" and p: "suffix k1 p" for k1 k2
  proof (rule ccontr)
    assume "k1 \<noteq> []"
    moreover have "prefix k1 k" using k by simp
    ultimately have "k1 \<in> set (tl (prefixes k))" by (cases k; cases k1) (auto simp: image_iff)
    with assms p show False by (auto simp: starts_at_end_def list_ex_iff)
  qed
  then show ?thesis
    unfolding sublist_append by (metis append_Nil prefix_imp_sublist)
qed

text \<open>What the relay or the transport says in an answer.\<close>

fun answer_text :: "'r http_answer \<Rightarrow> string" where
  "answer_text (Request_Failed e) = e"
| "answer_text (Http_Failure status body) = labelled status (case body of Some b \<Rightarrow> b | None \<Rightarrow> [])"
| "answer_text (Unparsable e) = e"
| "answer_text (Rpc_Response error _) = (case error of Some msg \<Rightarrow> msg | None \<Rightarrow> [])"

text \<open>The answer that decides a call: the first decisive one, or the last.\<close>

definition deciding_answer :: "relay_config \<Rightarrow> (nat \<Rightarrow> 'r http_answer) \<Rightarrow> 'r http_answer" where
  "deciding_answer config answers =
     (case find (\<lambda>i. decisive (answers i)) [0..<Suc (unat (rl_max_retries config))] of
        Some i \<Rightarrow> answers i | None \<Rightarrow> answers (unat (rl_max_retries config)))"

definition http_label :: "string \<Rightarrow> string" where
  "http_label status = ''relay returned HTTP '' @ status"

lemma render_relay_errors:
  "render sa (Fmt ''relay request failed: {e}'' [Str e]) = labelled ''relay request failed'' e"
  "render sa (Fmt ''relay returned HTTP {status}: {body}'' [Str st, Str b]) =
     labelled (http_label st) b"
  "render sa (Fmt ''failed to parse relay response: {e}'' [Str e]) = labelled ''failed to parse relay response'' e"
  "render sa (Fmt ''relay RPC error: {}'' [Str e]) = labelled ''relay RPC error'' e"
  "render sa (lit ''relay returned null result'') = ''relay returned null result''"
  by (simp_all add: render_def labelled_def http_label_def)

lemma relay_labels:
  "list_all (\<lambda>l. \<not> names_transient l \<and> \<not> names_permanent l)
     [''relay request failed'', ''relay returned HTTP '', ''failed to parse relay response'',
      ''relay RPC error'', ''relay returned null result'', []]"
  "list_all (\<lambda>k. \<not> starts_at_end (to_lowercase ''relay returned HTTP '') k) decision_phrases"
  unfolding names_transient_def names_permanent_def by code_simp+

lemma names_http_status:
  "names_transient (http_label status) \<longleftrightarrow> names_transient status"
  "names_permanent (http_label status) \<longleftrightarrow> names_permanent status"
proof -
  define l where "l = ''relay returned HTTP ''"
  have "str_contains (to_lowercase (l @ status)) k \<longleftrightarrow> str_contains (to_lowercase status) k"
    if k: "k \<in> set decision_phrases" for k
  proof -
    have "\<not> starts_at_end (to_lowercase l) k"
      using relay_labels(2) k by (simp add: list_all_iff l_def)
    moreover have "\<not> str_contains (to_lowercase l) k"
      using relay_labels(1) k
      by (auto simp: l_def names_transient_def names_permanent_def decision_phrases_def list_ex_iff)
    ultimately show ?thesis by (simp add: str_contains_sublist sublist_no_overlap)
  qed
  then show "names_transient (http_label status) \<longleftrightarrow> names_transient status"
    "names_permanent (http_label status) \<longleftrightarrow> names_permanent status"
    unfolding http_label_def l_def [symmetric]
    by (simp_all add: names_transient_def names_permanent_def list_ex_iff decision_phrases_def)
qed

lemma verdict_text:
  assumes "verdict a = Inl err"
  shows "text_retryable (ExecutionError_display (render sa) err) \<longleftrightarrow> text_retryable (answer_text a)"
proof -
  note facts = label_facts relay_labels(1) [simplified] neutral_label names_after_label names_http_status
    text_retryable_iff
  show ?thesis
    using assms
    by (cases a rule: verdict.cases)
       (auto simp: render_relay_errors facts)
qed

text \<open>
  C33: When a call to a relay fails, the retry manager decides over the error of the client on what
  the relay or the transport said in the answer that decided the call, and on nothing else: a
  failure is retried exactly when that text names no permanent failure (or a transient one), there
  are attempts left and the budget is not used up.
\<close>

theorem relay_failure_retry:
  assumes "snd (FlashbotsRelay_rpc_call config answers) = Inl err"
  shows "RetryEvaluation_should_retry
      (RetryManager_evaluate_retry pow_i (ExecutionError_display (render sa) err) attempt ym) \<longleftrightarrow>
    retry_room attempt ym \<and> text_retryable (answer_text (deciding_answer config answers))"
proof -
  have "verdict (deciding_answer config answers) = Inl err"
    using assms rpc_call_result [of config answers]
    by (auto simp: deciding_answer_def split: option.splits)
  from verdict_text [OF this, of sa] show ?thesis by (simp only: should_retry_text)
qed

text \<open>
  A relay that gives up on a deadline of its own (the message of Go's contexts) names a phrase that
  is meant for expired orders: the submission is abandoned at the first attempt.
\<close>

lemma upstream_deadline_abandons:
  "(let answers = (\<lambda>_. Rpc_Response (Some ''context deadline exceeded'') None) :: nat \<Rightarrow> b256 http_answer in
    case snd (FlashbotsRelay_rpc_call RelayConfig_default answers) of
      Inl err \<Rightarrow> classify_revert (ExecutionError_display (render sa) err) = OrderExpired
        \<and> \<not> RetryEvaluation_should_retry
          (RetryManager_evaluate_retry pow_i (ExecutionError_display (render sa) err) 0 RetryManager_with_defaults)
    | Inr _ \<Rightarrow> False)"
proof -
  define s where "s = labelled ''relay submission failed'' (labelled ''relay RPC error'' ''context deadline exceeded'')"
  have "classify_revert s = OrderExpired" unfolding s_def labelled_def by code_simp
  then show ?thesis
    by (simp add: FlashbotsRelay_rpc_call_def RelayConfig_default_def upt_rec render_relay_errors Let_def
        should_retry_text text_retryable_def flip: s_def)
qed

theorem relay_failure_retry_witness:
  "RetryEvaluation_should_retry (RetryManager_evaluate_retry (\<lambda>x _. x)
     (ExecutionError_display (render (\<lambda>_. [])) (RelayFailed (Fmt ''relay request failed: {e}'' [Str ''connection reset'']))) 0
     RetryManager_with_defaults)"
proof -
  let ?answers = "(\<lambda>_. Request_Failed ''connection reset'') :: nat \<Rightarrow> b256 http_answer"
  let ?err = "RelayFailed (Fmt ''relay request failed: {e}'' [Str ''connection reset''])"
  have run: "snd (FlashbotsRelay_rpc_call RelayConfig_default ?answers) = Inl ?err"
    by (simp add: FlashbotsRelay_rpc_call_def RelayConfig_default_def upt_rec)
  have "text_retryable ''connection reset''"
    unfolding text_retryable_def by code_simp
  moreover have "deciding_answer RelayConfig_default ?answers = Request_Failed ''connection reset''"
    by (simp add: deciding_answer_def RelayConfig_default_def upt_rec)
  moreover have "retry_room 0 RetryManager_with_defaults"
    by (simp add: retry_room_def RetryManager_with_defaults_def RetryManager_new_def RetryConfig_default_def)
  ultimately show ?thesis
    using relay_failure_retry [OF run, of "\<lambda>x _. x" "\<lambda>_. []" 0 RetryManager_with_defaults] by simp
qed

end
