(* ===== verification/Order_Tasks.thy ===== *)
theory Order_Tasks
  imports Order_Book
begin

text \<open>
  Concurrent tasks on the order book (\<open>phantom-discovery/src/orderbook.rs\<close>).  A status change holds the
  lock of its entry and is one step; \<open>insert\<close> is two steps, with the order in between known to its
  task only, and the loop of \<open>cleanup_expired\<close> is one step per entry, in any order.
\<close>

section \<open>Steps\<close>

text \<open>One iteration of the loop of \<open>cleanup_expired\<close>; all of them in some order are the method.\<close>

definition OrderBook_cleanup_entry :: "order_id \<Rightarrow> datetime \<Rightarrow> order_book \<Rightarrow> order_book" where
  "OrderBook_cleanup_entry i now book =
     (case dm_get i book of
        None \<Rightarrow> book
      | Some entry \<Rightarrow>
          if oe_status entry = Active \<and> DutchAuctionOrder_is_expired (oe_order entry) now
          then dm_insert i (entry\<lparr>oe_status := Expired, oe_updated_at := now\<rparr>) book
          else book)"

lemma get_cleanup_entry:
  "dm_get j (OrderBook_cleanup_entry i now book) =
     (if j = i then map_option (expire_entry now) (dm_get j book) else dm_get j book)"
  by (auto simp: OrderBook_cleanup_entry_def expire_entry_def split: option.split)

lemma expire_entry_idem: "expire_entry now (expire_entry now e) = expire_entry now e"
  by (simp add: expire_entry_def)

lemma cleanup_entries:
  "dm_get j (fold (\<lambda>i. OrderBook_cleanup_entry i now) is book) =
     (if j \<in> set is then map_option (expire_entry now) (dm_get j book) else dm_get j book)"
  by (induction "is" arbitrary: book)
     (auto simp: get_cleanup_entry option.map_comp comp_def expire_entry_idem)

lemma cleanup_is_entries:
  assumes "set is = set (map fst (dm_iter book))"
  shows "dm_get j (fold (\<lambda>i. OrderBook_cleanup_entry i now) is book) =
    dm_get j (fst (OrderBook_cleanup_expired now book))"
proof -
  have "dm_get j book = None" if "j \<notin> set is"
    using that dm.get_iter [of j book] unfolding assms by (metis map_of_eq_None_iff set_map)
  then show ?thesis
    by (auto simp: cleanup_entries OrderBook_cleanup_expired_def)
qed

text \<open>
  The book, the orders whose tasks are between the two accesses of \<open>insert\<close>, and the identifiers
  for which \<open>insert\<close> has returned \<open>Ok\<close>.
\<close>

record book_tasks =
  bk_book :: order_book
  bk_checked :: "dutch_order list"
  bk_accepted :: "order_id list"

definition book_tasks_start :: book_tasks where
  "book_tasks_start = \<lparr>bk_book = OrderBook_new, bk_checked = [], bk_accepted = []\<rparr>"

text \<open>With \<open>once\<close> no two tasks insert the same order at the same time.\<close>

inductive book_task_step :: "bool \<Rightarrow> book_tasks \<Rightarrow> book_tasks \<Rightarrow> bool" for once where
  check: "OrderBook_insert_check order (bk_book s) = Inr () \<Longrightarrow>
      (once \<longrightarrow> do_id order \<notin> do_id ` set (bk_checked s)) \<Longrightarrow>
      book_task_step once s (s\<lparr>bk_checked := order # bk_checked s\<rparr>)"
| put: "order \<in> set (bk_checked s) \<Longrightarrow>
      book_task_step once s (s\<lparr>bk_book := OrderBook_insert_put order now (bk_book s),
        bk_checked := remove1 order (bk_checked s), bk_accepted := bk_accepted s @ [do_id order]\<rparr>)"
| activate: "book_task_step once s (s\<lparr>bk_book := fst (OrderBook_activate i now (bk_book s))\<rparr>)"
| filled: "book_task_step once s (s\<lparr>bk_book := fst (OrderBook_mark_filled i now (bk_book s))\<rparr>)"
| expired: "book_task_step once s (s\<lparr>bk_book := fst (OrderBook_mark_expired i now (bk_book s))\<rparr>)"
| cancelled: "book_task_step once s (s\<lparr>bk_book := fst (OrderBook_mark_cancelled i now (bk_book s))\<rparr>)"
| sweep: "book_task_step once s (s\<lparr>bk_book := OrderBook_cleanup_entry i now (bk_book s)\<rparr>)"

section \<open>The invariant\<close>

text \<open>The accepted orders are those in the book, once each; a checked order is new and alone.\<close>

definition book_tasks_inv :: "book_tasks \<Rightarrow> bool" where
  "book_tasks_inv s \<longleftrightarrow>
     distinct (map do_id (bk_checked s)) \<and> distinct (bk_accepted s)
     \<and> (\<forall>i. i \<in> set (bk_accepted s) \<longleftrightarrow> book_status (bk_book s) i \<noteq> None)
     \<and> (\<forall>order \<in> set (bk_checked s). book_status (bk_book s) (do_id order) = None)"

lemma cleanup_entry_status:
  "book_status (OrderBook_cleanup_entry i now book) j =
     (case dm_get j book of None \<Rightarrow> None
      | Some entry \<Rightarrow> Some (if j = i \<and> oe_status entry = Active \<and> DutchAuctionOrder_is_expired (oe_order entry) now
                            then Expired else oe_status entry))"
  by (auto simp: book_status_def get_cleanup_entry expire_entry_def split: option.splits)

lemma put_status:
  "book_status (OrderBook_insert_put order now book) j =
     (if j = do_id order then Some Pending else book_status book j)"
  by (simp add: book_status_def OrderBook_insert_put_def)

lemma check_status_None: "OrderBook_insert_check order book = Inr () \<longleftrightarrow> book_status book (do_id order) = None"
  by (auto simp: OrderBook_insert_check_def book_status_def)

text \<open>A status change neither adds nor drops an order.\<close>

lemma status_change_None [simp]:
  "book_status (fst (OrderBook_transition i a b now book)) j = None \<longleftrightarrow> book_status book j = None"
  "book_status (fst (OrderBook_mark_cancelled i now book)) j = None \<longleftrightarrow> book_status book j = None"
  "book_status (OrderBook_cleanup_entry i now book) j = None \<longleftrightarrow> book_status book j = None"
  by (auto simp: transition_status cancelled_status cleanup_entry_status split: option.splits)
     (auto simp: book_status_def)

lemmas status_changes = OrderBook_activate_def OrderBook_mark_filled_def OrderBook_mark_expired_def

lemma book_tasks_inv_start: "book_tasks_inv book_tasks_start"
  by (simp add: book_tasks_inv_def book_tasks_start_def book_status_def OrderBook_new_def)

lemma book_tasks_inv_step:
  assumes "book_task_step True s s'" "book_tasks_inv s"
  shows "book_tasks_inv s'"
  using assms
proof cases
  case (check order)
  then show ?thesis
    using assms(2) by (auto simp: book_tasks_inv_def check_status_None)
next
  case (put order now)
  have "do_id x \<noteq> do_id order" if "x \<in> set (remove1 order (bk_checked s))" for x
    using that put(2) assms(2) by (auto simp: book_tasks_inv_def distinct_map inj_on_def set_remove1_eq)
  then show ?thesis
    using put assms(2)
    by (auto simp: book_tasks_inv_def put_status distinct_map set_remove1_eq intro: inj_on_subset)
qed (use assms(2) in \<open>auto simp: book_tasks_inv_def status_changes\<close>)

interpretation tasked: lifecycle "\<lambda>s s'. book_tasks_inv s \<and> book_task_step True s s'"
  "\<lambda>s. book_status (bk_book s)" order_trans
proof unfold_locales
  fix s s' i a
  assume step: "book_tasks_inv s \<and> book_task_step True s s'" and a: "book_status (bk_book s) i = Some a"
  from step have inv: "book_tasks_inv s" by blast
  from step have "book_task_step True s s'" by blast
  then show "\<exists>b. book_status (bk_book s') i = Some b \<and> (a = b \<or> order_trans a b)"
  proof cases
    case (put order now)
    then have "book_status (bk_book s) (do_id order) = None"
      using inv by (auto simp: book_tasks_inv_def)
    then show ?thesis using a put by (auto simp: put_status)
  next
    case (sweep j now)
    from a obtain entry where "dm_get i (bk_book s) = Some entry" "oe_status entry = a"
      by (auto simp: book_status_def)
    then show ?thesis
      using sweep by (auto simp: cleanup_entry_status intro: order_trans.intros)
  qed (use a in \<open>auto simp: book_status_simps intro: order_trans.intros\<close>)
qed

lemma book_tasks_reachable:
  assumes "(book_task_step True)\<^sup>*\<^sup>* s s'" "book_tasks_inv s"
  shows "book_tasks_inv s' \<and> (\<lambda>s s'. book_tasks_inv s \<and> book_task_step True s s')\<^sup>*\<^sup>* s s'"
  using assms
proof (induction rule: rtranclp_induct)
  case (step t u)
  then show ?case
    using book_tasks_inv_step by (auto intro: rtranclp.rtrancl_into_rtrancl)
qed simp

section \<open>The life cycle under any interleaving\<close>

text \<open>
  C3: Safety of the order life cycle.  When tasks that insert, activate, fill, expire and cancel
  orders and clean up the book interleave in any way, but no two of them insert the same order at
  the same time, an identifier is accepted at most once, exactly the accepted orders are in
  the book, and the status of an order moves only along the arrows of the documented life cycle:
  a filled, expired or cancelled order never changes status again.
\<close>

theorem concurrent_lifecycle_safety:
  assumes "(book_task_step True)\<^sup>*\<^sup>* book_tasks_start s" and "(book_task_step True)\<^sup>*\<^sup>* s s'"
  shows "distinct (bk_accepted s')
    \<and> (\<forall>i. i \<in> set (bk_accepted s') \<longleftrightarrow> book_status (bk_book s') i \<noteq> None)
    \<and> (\<forall>i. case book_status (bk_book s) i of None \<Rightarrow> True
        | Some a \<Rightarrow> \<exists>b. book_status (bk_book s') i = Some b \<and> order_trans\<^sup>*\<^sup>* a b
            \<and> (a \<in> {Filled, Expired, Cancelled} \<longrightarrow> b = a))"
proof -
  have s: "book_tasks_inv s" using book_tasks_reachable [OF assms(1) book_tasks_inv_start] by blast
  note s' = book_tasks_reachable [OF assms(2) s]
  have "\<exists>b. book_status (bk_book s') i = Some b \<and> order_trans\<^sup>*\<^sup>* a b \<and> (a \<in> {Filled, Expired, Cancelled} \<longrightarrow> b = a)"
    if "book_status (bk_book s) i = Some a" for i a
    using tasked.run_allowed [OF s' [THEN conjunct2] that] tasked.run_final [OF s' [THEN conjunct2] that] final_no_trans
    by fastforce
  then show ?thesis
    using s' by (auto simp: book_tasks_inv_def split: option.split)
qed

text \<open>The method on its own is a run of its two steps.\<close>

lemma insert_is_run:
  assumes "OrderBook_insert order now (bk_book s) = (book, Inr ())" "do_id order \<notin> do_id ` set (bk_checked s)"
  shows "(book_task_step once)\<^sup>*\<^sup>* s (s\<lparr>bk_book := book, bk_accepted := bk_accepted s @ [do_id order]\<rparr>)"
proof -
  let ?mid = "s\<lparr>bk_checked := order # bk_checked s\<rparr>"
  have ok: "OrderBook_insert_check order (bk_book s) = Inr ()" "book = OrderBook_insert_put order now (bk_book s)"
    using assms(1) by (auto simp: OrderBook_insert_def split: sum.splits)
  have "book_task_step once s ?mid" using ok(1) assms(2) by (intro book_task_step.check) simp_all
  moreover have "book_task_step once ?mid (?mid\<lparr>bk_book := OrderBook_insert_put order now (bk_book ?mid),
      bk_checked := remove1 order (bk_checked ?mid), bk_accepted := bk_accepted ?mid @ [do_id order]\<rparr>)"
    by (rule book_task_step.put) simp
  ultimately show ?thesis using ok(2) by (auto intro: rtranclp.rtrancl_into_rtrancl converse_rtranclp_into_rtranclp)
qed

text \<open>Without the restriction an order is accepted twice and a filled one is pending again.\<close>

lemma overlapping_insertions:
  "\<exists>s s'. (book_task_step False)\<^sup>*\<^sup>* book_tasks_start s \<and> (book_task_step False)\<^sup>*\<^sup>* s s'
     \<and> book_status (bk_book s) 7 = Some Filled \<and> book_status (bk_book s') 7 = Some Pending
     \<and> bk_accepted s' = [7, 7]"
proof -
  define c where "c = book_tasks_start\<lparr>bk_checked := [sample_order, sample_order]\<rparr>"
  define p where "p = \<lparr>bk_book = OrderBook_insert_put sample_order 0 OrderBook_new, bk_checked = [sample_order],
    bk_accepted = [7]\<rparr>"
  define a where "a = p\<lparr>bk_book := fst (OrderBook_activate 7 1 (bk_book p))\<rparr>"
  define f where "f = a\<lparr>bk_book := fst (OrderBook_mark_filled 7 2 (bk_book a))\<rparr>"
  define e where "e = f\<lparr>bk_book := OrderBook_insert_put sample_order 3 (bk_book f), bk_checked := [],
    bk_accepted := [7, 7]\<rparr>"
  have id: "do_id sample_order = 7" by (simp add: sample_order_def)
  have "book_task_step False book_tasks_start (book_tasks_start\<lparr>bk_checked := [sample_order]\<rparr>)"
    using book_task_step.check [of sample_order book_tasks_start False]
    by (simp add: book_tasks_start_def OrderBook_insert_check_def OrderBook_new_def)
  moreover have "book_task_step False (book_tasks_start\<lparr>bk_checked := [sample_order]\<rparr>) c"
    using book_task_step.check [of sample_order "book_tasks_start\<lparr>bk_checked := [sample_order]\<rparr>" False]
    by (simp add: c_def book_tasks_start_def OrderBook_insert_check_def OrderBook_new_def)
  moreover have "book_task_step False c p"
    using book_task_step.put [of sample_order c False 0]
    by (simp add: c_def p_def book_tasks_start_def id)
  moreover have "book_task_step False p a" "book_task_step False a f"
    unfolding a_def f_def by (rule book_task_step.activate book_task_step.filled)+
  ultimately have "(book_task_step False)\<^sup>*\<^sup>* book_tasks_start f" by auto
  moreover have "book_task_step False f e"
    using book_task_step.put [of sample_order f False 3] by (simp add: e_def f_def a_def p_def id)
  moreover have "book_status (bk_book f) 7 = Some Filled" "book_status (bk_book e) 7 = Some Pending"
    by (simp_all add: e_def f_def a_def p_def put_status id transition_status status_changes)
  ultimately show ?thesis by (intro exI [of _ f] exI [of _ e]) (auto simp: e_def)
qed

theorem concurrent_lifecycle_safety_witness:
  "\<exists>s s'. (book_task_step True)\<^sup>*\<^sup>* book_tasks_start s \<and> (book_task_step True)\<^sup>*\<^sup>* s s'
     \<and> book_status (bk_book s) 7 = Some Active \<and> book_status (bk_book s') 7 = Some Expired
     \<and> distinct (bk_accepted s') \<and> order_trans\<^sup>*\<^sup>* Active Expired"
proof -
  define i where "i = book_tasks_start\<lparr>bk_book := OrderBook_insert_put sample_order 0 OrderBook_new, bk_accepted := [7]\<rparr>"
  define s where "s = i\<lparr>bk_book := fst (OrderBook_activate 7 1 (bk_book i))\<rparr>"
  define s' where "s' = s\<lparr>bk_book := OrderBook_cleanup_entry 7 (1801 * nanos_per_sec) (bk_book s)\<rparr>"
  have id: "do_id sample_order = 7" by (simp add: sample_order_def)
  have "(book_task_step True)\<^sup>*\<^sup>* book_tasks_start i"
    using insert_is_run [of sample_order 0 book_tasks_start "OrderBook_insert_put sample_order 0 OrderBook_new" True]
    by (simp add: i_def book_tasks_start_def OrderBook_insert_def OrderBook_insert_check_def OrderBook_new_def id)
  also have "book_task_step True i s" unfolding s_def by (rule book_task_step.activate)
  finally have run: "(book_task_step True)\<^sup>*\<^sup>* book_tasks_start s" .
  have sweep: "(book_task_step True)\<^sup>*\<^sup>* s s'"
    unfolding s'_def by (intro r_into_rtranclp book_task_step.sweep)
  have s: "bk_book s = sample_book"
    by (simp add: s_def i_def sample_book_def OrderBook_insert_def OrderBook_insert_check_def
        OrderBook_new_def id)
  then have active: "book_status (bk_book s) 7 = Some Active"
    by (simp add: book_status_def sample_book_entry)
  have expired: "book_status (bk_book s') 7 = Some Expired"
    by (simp add: s'_def s cleanup_entry_status sample_book_entry DutchAuctionOrder_is_expired_def
        sample_order_def nanos_per_sec_def)
  note concurrent_lifecycle_safety [OF run sweep]
  then have "distinct (bk_accepted s')"
    "case book_status (bk_book s) 7 of None \<Rightarrow> True
        | Some a \<Rightarrow> \<exists>b. book_status (bk_book s') 7 = Some b \<and> order_trans\<^sup>*\<^sup>* a b
            \<and> (a \<in> {Filled, Expired, Cancelled} \<longrightarrow> b = a)" by blast+
  with run sweep active expired show ?thesis by auto
qed

end
