(* ===== verification/Capped_Tasks.thy ===== *)
theory Capped_Tasks
  imports Wallet Balance Confirmation
begin

text \<open>
  Concurrent callers of the registries with a limit: \<open>import_wallet\<close> (\<open>wallet.rs\<close>), \<open>update_balance\<close>
  (\<open>balance.rs\<close>) and \<open>track_transaction\<close> (\<open>confirmation.rs\<close>) look at the size of their map and insert
  in a later access.  The limit may be overshot, but only by the tasks that are under way.
\<close>

section \<open>Check, then insert\<close>

text \<open>
  A task is what it inserts.  At most \<open>n\<close> tasks are between their check and their insertion; the
  other operations of the store run in between.
\<close>

inductive limited_step ::
    "('a \<Rightarrow> 's \<Rightarrow> bool) \<Rightarrow> ('a \<Rightarrow> 's \<Rightarrow> 's) \<Rightarrow> ('s \<Rightarrow> 's \<Rightarrow> bool) \<Rightarrow> nat \<Rightarrow> 's \<times> 'a list \<Rightarrow> 's \<times> 'a list \<Rightarrow> bool"
  for room put other n where
  check: "room a s \<Longrightarrow> length as < n \<Longrightarrow> limited_step room put other n (s, as) (s, a # as)"
| put: "a \<in> set as \<Longrightarrow> limited_step room put other n (s, as) (put a s, remove1 a as)"
| other: "other s s' \<Longrightarrow> limited_step room put other n (s, as) (s', as)"

definition dm_keys :: "('k, 'v) dashmap \<Rightarrow> 'k set" where
  "dm_keys m = {k. dm_contains k m}"

lemma dm_keys_insert [simp]: "dm_keys (dm_insert k v m) = insert k (dm_keys m)"
  by (auto simp: dm_keys_def)

lemma finite_dm_keys [simp]: "finite (dm_keys m)"
  unfolding dm_keys_def by (rule dm.finite_keys)

lemma card_dm_keys: "dm_wf m \<Longrightarrow> card (dm_keys m) = dm_len m"
  unfolding dm_keys_def by (simp only: dm.length_iter)

lemma in_dm_keys: "k \<in> dm_keys m \<longleftrightarrow> dm_contains k m"
  by (simp add: dm_keys_def)

locale limited_store =
  fixes entries :: "'s \<Rightarrow> ('k, 'v) dashmap"
    and cap :: "'s \<Rightarrow> nat"
    and room :: "'a \<Rightarrow> 's \<Rightarrow> bool"
    and key :: "'a \<Rightarrow> 'k"
    and put :: "'a \<Rightarrow> 's \<Rightarrow> 's"
    and other :: "'s \<Rightarrow> 's \<Rightarrow> bool"
  assumes room_below: "room a s \<Longrightarrow> dm_len (entries s) < cap s \<or> dm_contains (key a) (entries s)"
    and below_room: "dm_len (entries s) < cap s \<Longrightarrow> room a s"
    and put_entries: "\<exists>v. entries (put a s) = dm_insert (key a) v (entries s)"
    and put_cap: "cap (put a s) = cap s"
    and other_cap: "other s s' \<Longrightarrow> cap s' = cap s"
    and other_wf: "other s s' \<Longrightarrow> dm_wf (entries s) \<Longrightarrow> dm_wf (entries s')"
    and other_keys: "other s s' \<Longrightarrow> dm_keys (entries s') \<subseteq> dm_keys (entries s)"
begin

text \<open>The keys in the store or on their way into it never exceed the limit by more than \<open>n - 1\<close>.\<close>

definition claimed :: "'s \<Rightarrow> 'a list \<Rightarrow> 'k set" where
  "claimed s as = dm_keys (entries s) \<union> key ` set as"

definition limited_inv :: "nat \<Rightarrow> nat \<Rightarrow> 's \<Rightarrow> 'a list \<Rightarrow> bool" where
  "limited_inv n c s as \<longleftrightarrow> dm_wf (entries s) \<and> cap s = c \<and> length as \<le> n \<and> card (claimed s as) \<le> c + (n - 1)"

lemma put_keys: "dm_keys (entries (put a s)) = insert (key a) (dm_keys (entries s))"
  using put_entries [of a s] by auto

lemma put_wf: "dm_wf (entries s) \<Longrightarrow> dm_wf (entries (put a s))"
  using put_entries [of a s] by (auto intro: wf_intros)

lemma finite_claimed: "finite (claimed s as)"
  by (simp add: claimed_def)

lemma limited_inv_step:
  assumes step: "limited_step room put other n (s, as) (s', as')" and inv: "limited_inv n c s as"
  shows "limited_inv n c s' as'"
  using step
proof cases
  case (check a)
  have "card (claimed s (a # as)) \<le> c + (n - 1)"
  proof (cases "dm_contains (key a) (entries s)")
    case True
    then have "claimed s (a # as) = claimed s as" by (auto simp: claimed_def in_dm_keys)
    with inv show ?thesis by (simp add: limited_inv_def)
  next
    case False
    with room_below [OF check(3)] have below: "dm_len (entries s) < cap s" by simp
    have "card (claimed s (a # as)) \<le> card (dm_keys (entries s)) + card (key ` set (a # as))"
      unfolding claimed_def by (rule card_Un_le)
    also have "card (key ` set (a # as)) \<le> length (a # as)"
      using card_length [of "map key (a # as)"] by simp
    also have "card (dm_keys (entries s)) = dm_len (entries s)"
      using inv by (simp add: limited_inv_def card_dm_keys)
    finally show ?thesis
      using below check(4) inv by (simp add: limited_inv_def)
  qed
  with check inv show ?thesis by (simp add: limited_inv_def)
next
  case (put a)
  have "claimed (put a s) (remove1 a as) \<subseteq> claimed s as"
    using put(3) set_remove1_subset [of a as] unfolding claimed_def put_keys by blast
  then have "card (claimed (put a s) (remove1 a as)) \<le> card (claimed s as)"
    by (intro card_mono finite_claimed)
  with put inv show ?thesis
    by (auto simp: limited_inv_def put_wf put_cap length_remove1)
next
  case other
  have "claimed s' as \<subseteq> claimed s as"
    using other_keys [OF other(2)] unfolding claimed_def by blast
  then have "card (claimed s' as) \<le> card (claimed s as)"
    by (intro card_mono finite_claimed)
  with other inv show ?thesis
    using other_cap [OF other(2)] other_wf [OF other(2)] by (simp add: limited_inv_def)
qed

lemma limited_run_inv:
  "(limited_step room put other n)\<^sup>*\<^sup>* x y \<Longrightarrow> limited_inv n c (fst x) (snd x) \<Longrightarrow> limited_inv n c (fst y) (snd y)"
proof (induction rule: rtranclp_induct)
  case (step y z)
  then show ?case by (cases y; cases z) (auto intro: limited_inv_step)
qed simp

lemma overshoot_bounded:
  assumes run: "(limited_step room put other n)\<^sup>*\<^sup>* (s, []) (s', as)"
    and start: "dm_wf (entries s)" "dm_len (entries s) \<le> cap s"
  shows "dm_len (entries s') \<le> cap s + (n - 1)"
proof -
  have "limited_inv n (cap s) s []"
    using start by (simp add: limited_inv_def claimed_def card_dm_keys)
  with limited_run_inv [OF run] have inv: "limited_inv n (cap s) s' as" by simp
  have "dm_len (entries s') = card (dm_keys (entries s'))"
    using inv by (simp add: limited_inv_def card_dm_keys)
  also have "\<dots> \<le> card (claimed s' as)"
    by (intro card_mono finite_claimed) (simp add: claimed_def)
  finally show ?thesis using inv by (simp add: limited_inv_def)
qed

text \<open>The bound is reached: below the limit all tasks pass the check before any of them inserts.\<close>

lemma all_check:
  "dm_len (entries s) < cap s \<Longrightarrow> length as + length bs \<le> n \<Longrightarrow>
     (limited_step room put other n)\<^sup>*\<^sup>* (s, bs) (s, rev as @ bs)"
proof (induction as arbitrary: bs)
  case (Cons a as)
  have "limited_step room put other n (s, bs) (s, a # bs)"
    using Cons.prems below_room by (intro limited_step.check) simp_all
  also have "(limited_step room put other n)\<^sup>*\<^sup>* (s, a # bs) (s, rev as @ a # bs)"
    using Cons.prems by (intro Cons.IH) simp_all
  finally show ?case by simp
qed simp

lemma all_put:
  "distinct (map key as) \<Longrightarrow> key ` set as \<inter> dm_keys (entries s) = {} \<Longrightarrow> dm_wf (entries s) \<Longrightarrow>
     \<exists>s'. (limited_step room put other n)\<^sup>*\<^sup>* (s, as) (s', []) \<and> dm_len (entries s') = dm_len (entries s) + length as"
proof (induction as arbitrary: s)
  case (Cons a as)
  have "limited_step room put other n (s, a # as) (put a s, as)"
    using limited_step.put [of a "a # as" room put other n s] by simp
  moreover have "dm_len (entries (put a s)) = Suc (dm_len (entries s))"
    using Cons.prems put_entries [of a s] by (auto simp: dm.length_put in_dm_keys)
  moreover obtain s' where "(limited_step room put other n)\<^sup>*\<^sup>* (put a s, as) (s', [])"
    "dm_len (entries s') = dm_len (entries (put a s)) + length as"
    using Cons.IH [of "put a s"] Cons.prems put_wf put_keys [of a s] by auto
  ultimately show ?case
    by (intro exI [of _ s']) (auto intro: converse_rtranclp_into_rtranclp)
qed auto

lemma overshoot_reached:
  assumes "dm_wf (entries s)" "Suc (dm_len (entries s)) = cap s" "length as = n"
    and "distinct (map key as)" "key ` set as \<inter> dm_keys (entries s) = {}"
  shows "\<exists>s'. (limited_step room put other n)\<^sup>*\<^sup>* (s, []) (s', []) \<and> Suc (dm_len (entries s')) = cap s + n"
proof -
  have "(limited_step room put other n)\<^sup>*\<^sup>* (s, []) (s, rev as)"
    using all_check [of s as "[]" n] assms(2,3) by simp
  moreover obtain s' where "(limited_step room put other n)\<^sup>*\<^sup>* (s, rev as) (s', [])"
    "dm_len (entries s') = dm_len (entries s) + length as"
    using all_put [of "rev as" s n] assms by (auto simp: rev_map [symmetric])
  ultimately show ?thesis
    using assms(2,3) by (intro exI [of _ s']) auto
qed

end

section \<open>The registries\<close>

text \<open>
  The two accesses of each operation, and the operation as their composition; between them lie
  the parsing of the key, the construction of the key and the clock.
\<close>

definition WalletManager_import_check :: "'k wallet_manager \<Rightarrow> bool" where
  "WalletManager_import_check wm \<longleftrightarrow> \<not> wc_max_wallets (wm_config wm) \<le> dm_len (wm_wallets wm)"

definition WalletManager_import_put ::
    "('k \<Rightarrow> address) \<Rightarrow> 'k \<times> string \<Rightarrow> 'k wallet_manager \<Rightarrow> 'k wallet_manager" where
  "WalletManager_import_put address_of = (\<lambda>(signer, label) wm.
     wm\<lparr>wm_wallets := dm_insert (address_of signer) \<lparr>we_signer = signer, we_label = label\<rparr> (wm_wallets wm)\<rparr>)"

lemma import_wallet_parts:
  "WalletManager_import_wallet parse address_of key label wm = (wm', Inr address) \<longleftrightarrow>
     WalletManager_import_check wm \<and> (\<exists>signer. parse key = Inr signer \<and> address = address_of signer
       \<and> wm' = WalletManager_import_put address_of (signer, label) wm)"
  by (auto simp: WalletManager_import_wallet_def WalletManager_import_check_def WalletManager_import_put_def
      Let_def split: sum.splits)

definition BalanceTracker_update_check :: "address \<Rightarrow> u64 \<Rightarrow> address \<Rightarrow> balance_tracker \<Rightarrow> bool" where
  "BalanceTracker_update_check address chain_id token bt \<longleftrightarrow>
     \<not> (bc_max_entries (bt_config bt) \<le> dm_len (bt_balances bt)
        \<and> \<not> dm_contains (mk_balance_key address chain_id token) (bt_balances bt))"

definition BalanceTracker_update_put ::
    "address \<Rightarrow> u64 \<Rightarrow> address \<Rightarrow> u256 \<Rightarrow> u64 \<Rightarrow> balance_tracker \<Rightarrow> balance_tracker" where
  "BalanceTracker_update_put address chain_id token amount now bt =
     bt\<lparr>bt_balances := dm_insert (mk_balance_key address chain_id token)
          \<lparr>be_amount = amount, be_updated_at = now\<rparr> (bt_balances bt)\<rparr>"

lemma update_balance_parts:
  "BalanceTracker_update_balance now address chain_id token amount bt = (bt', Inr ()) \<longleftrightarrow>
     BalanceTracker_update_check address chain_id token bt
     \<and> bt' = BalanceTracker_update_put address chain_id token amount now bt"
  by (auto simp: BalanceTracker_update_balance_def BalanceTracker_update_check_def
      BalanceTracker_update_put_def Let_def)

definition ConfirmationMonitor_track_check :: "confirmation_monitor \<Rightarrow> bool" where
  "ConfirmationMonitor_track_check cm \<longleftrightarrow> \<not> cc_max_tracked (cm_config cm) \<le> dm_len (cm_records cm)"

definition ConfirmationMonitor_track_put ::
    "b256 \<Rightarrow> u64 \<Rightarrow> address \<Rightarrow> u64 \<Rightarrow> confirmation_monitor \<Rightarrow> confirmation_monitor" where
  "ConfirmationMonitor_track_put tx_hash chain sender now cm =
     cm\<lparr>cm_records := dm_insert tx_hash
          \<lparr>tr_tx_hash = tx_hash, tr_chain_id = chain, tr_from = sender, tr_status = TxPending,
           tr_block_number = None, tr_confirmations = 0, tr_submitted_at = now,
           tr_updated_at = now, tr_gas_used = None, tr_execution_success = None\<rparr> (cm_records cm)\<rparr>"

lemma track_transaction_parts:
  "ConfirmationMonitor_track_transaction tx_hash chain sender now cm = (cm', Inr ()) \<longleftrightarrow>
     ConfirmationMonitor_track_check cm \<and> cm' = ConfirmationMonitor_track_put tx_hash chain sender now cm"
  by (auto simp: ConfirmationMonitor_track_transaction_def ConfirmationMonitor_track_check_def
      ConfirmationMonitor_track_put_def)

text \<open>What the other operations do to an entry, one entry at a time.\<close>

inductive wallet_drop :: "'k wallet_manager \<Rightarrow> 'k wallet_manager \<Rightarrow> bool" where
  "wallet_drop wm (fst (WalletManager_remove_wallet address wm))"

inductive balance_drop :: "balance_tracker \<Rightarrow> balance_tracker \<Rightarrow> bool" where
  "balance_drop bt (bt\<lparr>bt_balances := dm_remove k (bt_balances bt)\<rparr>)"
| "balance_drop bt (BalanceTracker_clear_all bt)"

inductive record_change :: "confirmation_monitor \<Rightarrow> confirmation_monitor \<Rightarrow> bool" where
  "record_change cm (fst (ConfirmationMonitor_check_status tx_hash now receipt_answer block_answer cm))"
| "record_change cm (cm\<lparr>cm_records := dm_remove tx_hash (cm_records cm)\<rparr>)"

interpretation wallet_tasks: limited_store wm_wallets "\<lambda>wm. wc_max_wallets (wm_config wm)"
  "\<lambda>_. WalletManager_import_check" "\<lambda>(signer, label). address_of signer"
  "WalletManager_import_put address_of" wallet_drop for address_of
  by unfold_locales
     (auto simp: WalletManager_import_check_def WalletManager_import_put_def WalletManager_remove_wallet_def
      dm_keys_def elim!: wallet_drop.cases intro: wf_intros split: if_splits)

interpretation balance_tasks: limited_store bt_balances "\<lambda>bt. bc_max_entries (bt_config bt)"
  "\<lambda>(address, chain_id, token, amount, now). BalanceTracker_update_check address chain_id token"
  "\<lambda>(address, chain_id, token, amount, now). mk_balance_key address chain_id token"
  "\<lambda>(address, chain_id, token, amount, now). BalanceTracker_update_put address chain_id token amount now"
  balance_drop
  by unfold_locales
     (auto simp: BalanceTracker_update_check_def BalanceTracker_update_put_def BalanceTracker_clear_all_def
      dm_keys_def elim!: balance_drop.cases intro: wf_intros split: if_splits)

interpretation record_tasks: limited_store cm_records "\<lambda>cm. cc_max_tracked (cm_config cm)"
  "\<lambda>_. ConfirmationMonitor_track_check" "\<lambda>(tx_hash, chain, sender, now). tx_hash"
  "\<lambda>(tx_hash, chain, sender, now). ConfirmationMonitor_track_put tx_hash chain sender now" record_change
  by unfold_locales
     (auto simp: ConfirmationMonitor_track_check_def ConfirmationMonitor_track_put_def
      ConfirmationMonitor_check_status_def dm_keys_def Let_def case_prod_unfold
      elim!: record_change.cases intro: wf_intros split: if_splits option.splits)

section \<open>The limits\<close>

abbreviation wallet_tasks_step ::
    "('k \<Rightarrow> address) \<Rightarrow> nat \<Rightarrow> 'k wallet_manager \<times> ('k \<times> string) list \<Rightarrow> 'k wallet_manager \<times> ('k \<times> string) list \<Rightarrow> bool" where
  "wallet_tasks_step address_of \<equiv>
     limited_step (\<lambda>_. WalletManager_import_check) (WalletManager_import_put address_of) wallet_drop"

type_synonym balance_task = "address \<times> u64 \<times> address \<times> u256 \<times> u64"

abbreviation balance_tasks_step ::
    "nat \<Rightarrow> balance_tracker \<times> balance_task list \<Rightarrow> balance_tracker \<times> balance_task list \<Rightarrow> bool" where
  "balance_tasks_step \<equiv> limited_step
     (\<lambda>(address, chain_id, token, amount, now). BalanceTracker_update_check address chain_id token)
     (\<lambda>(address, chain_id, token, amount, now). BalanceTracker_update_put address chain_id token amount now)
     balance_drop"

type_synonym track_task = "b256 \<times> u64 \<times> address \<times> u64"

abbreviation track_tasks_step ::
    "nat \<Rightarrow> confirmation_monitor \<times> track_task list \<Rightarrow> confirmation_monitor \<times> track_task list \<Rightarrow> bool" where
  "track_tasks_step \<equiv> limited_step (\<lambda>_. ConfirmationMonitor_track_check)
     (\<lambda>(tx_hash, chain, sender, now). ConfirmationMonitor_track_put tx_hash chain sender now) record_change"

text \<open>
  C37: When up to \<open>n\<close> tasks insert at the same time, interleaved in any way with each other and with
  removals and status checks, a wallet manager, a balance tracker and a confirmation monitor hold at
  most \<open>n - 1\<close> entries more than their configured limit; a single task keeps the limit.
\<close>

theorem limits_overshoot_bounded:
  assumes "(wallet_tasks_step address_of n)\<^sup>*\<^sup>* (WalletManager_new wc, []) (wm, ws)"
    and "(balance_tasks_step n)\<^sup>*\<^sup>* (BalanceTracker_new bc, []) (bt, bs)"
    and "(track_tasks_step n)\<^sup>*\<^sup>* (ConfirmationMonitor_new cc, []) (cm, cs)"
  shows "WalletManager_wallet_count wm \<le> wc_max_wallets wc + (n - 1)
    \<and> BalanceTracker_entry_count bt \<le> bc_max_entries bc + (n - 1)
    \<and> ConfirmationMonitor_tracked_count cm \<le> cc_max_tracked cc + (n - 1)"
  using wallet_tasks.overshoot_bounded [OF assms(1)] balance_tasks.overshoot_bounded [OF assms(2)]
    record_tasks.overshoot_bounded [OF assms(3)]
  by (simp add: WalletManager_wallet_count_def BalanceTracker_entry_count_def
      ConfirmationMonitor_tracked_count_def WalletManager_new_def BalanceTracker_new_def
      ConfirmationMonitor_new_def)

text \<open>Two tasks overshoot a limit of one, so the bound is exact.\<close>

lemma two_imports: "\<exists>wm. (wallet_tasks_step word_of_nat 2)\<^sup>*\<^sup>* (WalletManager_new \<lparr>wc_max_wallets = 1\<rparr>, []) (wm, [])
    \<and> WalletManager_wallet_count wm = 2"
  using wallet_tasks.overshoot_reached [where s = "WalletManager_new \<lparr>wc_max_wallets = 1\<rparr>" and n = 2
      and address_of = word_of_nat and as = "[(1, ''a''), (2, ''b'')]"]
  by (simp add: WalletManager_new_def WalletManager_wallet_count_def dm_keys_def word_of_nat_eq_iff numeral_2_eq_2)

lemma two_trackings: "\<exists>cm. (track_tasks_step 2)\<^sup>*\<^sup>* (ConfirmationMonitor_new (ConfirmationConfig_default\<lparr>cc_max_tracked := 1\<rparr>), []) (cm, [])
    \<and> ConfirmationMonitor_tracked_count cm = 2"
  using record_tasks.overshoot_reached [where s = "ConfirmationMonitor_new (ConfirmationConfig_default\<lparr>cc_max_tracked := 1\<rparr>)"
      and n = 2 and as = "[(1, 1, 17, 0), (2, 1, 17, 0)]"]
  by (simp add: ConfirmationMonitor_new_def ConfirmationMonitor_tracked_count_def dm_keys_def numeral_2_eq_2)

theorem limits_overshoot_bounded_witness:
  "\<exists>wm cm. (wallet_tasks_step word_of_nat 2)\<^sup>*\<^sup>* (WalletManager_new \<lparr>wc_max_wallets = 1\<rparr>, []) (wm, [])
     \<and> (track_tasks_step 2)\<^sup>*\<^sup>* (ConfirmationMonitor_new (ConfirmationConfig_default\<lparr>cc_max_tracked := 1\<rparr>), []) (cm, [])
     \<and> WalletManager_wallet_count wm = 2 \<and> 2 \<le> wc_max_wallets \<lparr>wc_max_wallets = 1\<rparr> + (2 - 1)
     \<and> ConfirmationMonitor_tracked_count cm \<le> 1 + (2 - 1)
     \<and> BalanceTracker_entry_count (BalanceTracker_new BalanceConfig_default) \<le> 10000 + (2 - 1)"
proof -
  from two_imports obtain wm where
    wm: "(wallet_tasks_step word_of_nat 2)\<^sup>*\<^sup>* (WalletManager_new \<lparr>wc_max_wallets = 1\<rparr>, []) (wm, [])"
      "WalletManager_wallet_count wm = 2" by blast
  from two_trackings obtain cm where
    cm: "(track_tasks_step 2)\<^sup>*\<^sup>* (ConfirmationMonitor_new (ConfirmationConfig_default\<lparr>cc_max_tracked := 1\<rparr>), []) (cm, [])"
    by blast
  show ?thesis
    using limits_overshoot_bounded [OF wm(1) rtranclp.rtrancl_refl [of _ "(BalanceTracker_new BalanceConfig_default, [])"] cm] wm cm
    by (intro exI [of _ wm] exI [of _ cm]) (simp add: BalanceConfig_default_def)
qed

end
