(* ===== verification/Channel_Lag.thy ===== *)
theory Channel_Lag
  imports Service Api "HOL-Library.Sublist"
begin

text \<open>
  Readers of the broadcast channels: an event subscription that follows the block streamer
  (\<open>phantom-chain\<close>, \<open>events.rs\<close>, \<open>stream.rs\<close>) and a WebSocket client of the event bus
  (\<open>phantom-api\<close>, \<open>ws.rs\<close>), interleaved with what is sent.  The channel is tokio's: its
  documented behaviour is the hypothesis \<open>broadcast_contract\<close> on the argument \<open>recv\<close>, with the number of
  messages the channel keeps.  The locale \<open>channel_reader\<close> states what a task promises that
  changes its position in the channel only by receiving.
\<close>

section \<open>Receiving from a bounded channel\<close>

text \<open>
  A receiver is a position in the sequence of the messages sent.  \<open>recv\<close> answers nothing yet, the next
  message, or how many messages were overwritten, which happens only when the receiver is further
  behind than the channel's capacity; then it goes on after them.
\<close>

type_synonym 'm receive = "'m list \<Rightarrow> nat \<Rightarrow> (nat + 'm) option \<times> nat"

definition broadcast_contract :: "nat \<Rightarrow> 'm receive \<Rightarrow> bool" where
  "broadcast_contract cap recv \<longleftrightarrow> (\<forall>sent pos. pos \<le> length sent \<longrightarrow>
     (case recv sent pos of
        (None, p) \<Rightarrow> p = pos
      | (Some (Inr m), p) \<Rightarrow> pos < length sent \<and> m = sent ! pos \<and> p = Suc pos
      | (Some (Inl skipped), p) \<Rightarrow> cap < length sent - pos \<and> p = pos + skipped \<and> p \<le> length sent))"

text \<open>A receiver with the history that the statements are about: what it got and how much it missed.\<close>

record 'm reader =
  rd_pos :: nat
  rd_got :: "'m list"
  rd_missed :: nat

definition reader_at :: "'m list \<Rightarrow> 'm reader" where
  "reader_at sent = \<lparr>rd_pos = length sent, rd_got = [], rd_missed = 0\<rparr>"

definition receive_next :: "'m receive \<Rightarrow> 'm list \<Rightarrow> 'm reader \<Rightarrow> (nat + 'm) option \<times> 'm reader" where
  "receive_next recv sent r =
     (case recv sent (rd_pos r) of
        (None, p) \<Rightarrow> (None, r\<lparr>rd_pos := p\<rparr>)
      | (Some (Inr m), p) \<Rightarrow> (Some (Inr m), r\<lparr>rd_pos := p, rd_got := rd_got r @ [m]\<rparr>)
      | (Some (Inl skipped), p) \<Rightarrow> (Some (Inl skipped), r\<lparr>rd_pos := p, rd_missed := rd_missed r + skipped\<rparr>))"

definition reader_ok :: "nat \<Rightarrow> 'm list \<Rightarrow> 'm list \<Rightarrow> 'm reader \<Rightarrow> bool" where
  "reader_ok cap before sent r \<longleftrightarrow> (\<exists>passed rest. sent = before @ passed @ rest
     \<and> rd_pos r = length before + length passed \<and> subseq (rd_got r) passed
     \<and> length (rd_got r) + rd_missed r = length passed
     \<and> (0 < rd_missed r \<longrightarrow> cap < length passed + length rest))"

lemma reader_okI:
  assumes "sent = before @ passed @ rest" "rd_pos r = length before + length passed" "subseq (rd_got r) passed"
    and "length (rd_got r) + rd_missed r = length passed"
    and "0 < rd_missed r \<Longrightarrow> cap < length passed + length rest"
  shows "reader_ok cap before sent r"
  unfolding reader_ok_def by (rule exI [of _ passed], rule exI [of _ rest]) (use assms in simp)

lemma reader_ok_at: "reader_ok cap sent sent (reader_at sent)"
  by (simp add: reader_ok_def reader_at_def)

lemma reader_ok_append: "reader_ok cap before sent r \<Longrightarrow> reader_ok cap before (sent @ new) r"
  unfolding reader_ok_def [of cap before sent]
proof (elim exE conjE)
  fix passed rest
  assume "sent = before @ passed @ rest" "rd_pos r = length before + length passed" "subseq (rd_got r) passed"
    "length (rd_got r) + rd_missed r = length passed" "0 < rd_missed r \<longrightarrow> cap < length passed + length rest"
  then show ?thesis by (intro reader_okI [where passed = passed and rest = "rest @ new"]) simp_all
qed

lemma reader_ok_receive:
  assumes "broadcast_contract cap recv" "reader_ok cap before sent r"
  shows "reader_ok cap before sent (snd (receive_next recv sent r))"
proof -
  obtain passed rest where ok: "sent = before @ passed @ rest" "rd_pos r = length before + length passed"
      "subseq (rd_got r) passed" "length (rd_got r) + rd_missed r = length passed"
      "0 < rd_missed r \<Longrightarrow> cap < length passed + length rest"
    using assms(2) by (auto simp: reader_ok_def)
  obtain x p where x: "recv sent (rd_pos r) = (x, p)" by (cases "recv sent (rd_pos r)")
  have within: "rd_pos r \<le> length sent" using ok(1,2) by simp
  have law: "case (x, p) of (None, p) \<Rightarrow> p = rd_pos r
      | (Some (Inr m), p) \<Rightarrow> rd_pos r < length sent \<and> m = sent ! rd_pos r \<and> p = Suc (rd_pos r)
      | (Some (Inl k), p) \<Rightarrow> cap < length sent - rd_pos r \<and> p = rd_pos r + k \<and> p \<le> length sent"
    using assms(1) [unfolded broadcast_contract_def, rule_format, of "rd_pos r" sent] within by (simp only: x)
  consider (none) "x = None" | (skipped) k where "x = Some (Inl k)" | (got) m where "x = Some (Inr m)"
    by (metis not_Some_eq sum.exhaust)
  then show ?thesis
  proof cases
    case none
    with law x assms(2) show ?thesis by (simp add: receive_next_def)
  next
    case (skipped k)
    with law ok have "cap < length rest" "k \<le> length rest" "p = rd_pos r + k" by simp_all
    then show ?thesis
      using ok skipped x
      by (intro reader_okI [where passed = "passed @ take k rest" and rest = "drop k rest"])
         (simp_all add: receive_next_def subseq_rev_drop_many)
  next
    case (got m)
    with law ok obtain rest' where "rest = m # rest'" "p = Suc (rd_pos r)"
      by (cases rest) (auto simp: nth_append)
    then show ?thesis
      using ok got x
      by (intro reader_okI [where passed = "passed @ [m]" and rest = rest'])
         (auto simp: receive_next_def intro: list_emb_append_mono)
  qed
qed

text \<open>
  What follows of a reader: it got a subsequence of the messages after its subscription, every message is got,
  missed or ahead, and nothing is missed without a backlog beyond the capacity.
\<close>

definition reads_along :: "nat \<Rightarrow> 'm list \<Rightarrow> 'm reader \<Rightarrow> nat \<Rightarrow> bool" where
  "reads_along cap msgs r ahead \<longleftrightarrow> subseq (rd_got r) msgs
     \<and> length (rd_got r) + rd_missed r + ahead = length msgs
     \<and> (rd_missed r = 0 \<longrightarrow> rd_got r = take (length msgs - ahead) msgs)
     \<and> (length msgs \<le> cap \<longrightarrow> rd_missed r = 0)"

lemma reader_ok_reads:
  assumes "reader_ok cap before sent r"
  shows "reads_along cap (drop (length before) sent) r (length sent - rd_pos r)"
proof -
  obtain passed rest where "sent = before @ passed @ rest" "rd_pos r = length before + length passed"
      "subseq (rd_got r) passed" "length (rd_got r) + rd_missed r = length passed"
      "rd_missed r = 0 \<or> cap < length passed + length rest"
    using assms by (auto simp: reader_ok_def)
  then show ?thesis
    by (auto simp: reads_along_def subseq_rev_drop_many intro: subseq_same_length)
qed

locale channel_reader =
  fixes step :: "'m receive \<Rightarrow> 's \<Rightarrow> 's \<Rightarrow> bool"
    and sent :: "'s \<Rightarrow> 'm list"
    and reader :: "'s \<Rightarrow> 'm reader"
  assumes moves: "step recv s s' \<Longrightarrow>
    (\<exists>new. sent s' = sent s @ new) \<and> reader s' = reader s
    \<or> sent s' = sent s \<and> reader s' = snd (receive_next recv (sent s) (reader s))"
begin

lemma run:
  assumes "broadcast_contract cap recv"
  shows "(step recv)\<^sup>*\<^sup>* s s' \<Longrightarrow> reader_ok cap before (sent s) (reader s) \<Longrightarrow>
    reader_ok cap before (sent s') (reader s')"
proof (induction rule: rtranclp_induct)
  case (step t u)
  then show ?case
    using moves [OF step.hyps(2)] reader_ok_append reader_ok_receive [OF assms] by metis
qed

lemma run_reads:
  assumes "broadcast_contract cap recv" "(step recv)\<^sup>*\<^sup>* s s'" "reader s = reader_at (sent s)"
  shows "reads_along cap (drop (length (sent s)) (sent s')) (reader s') (length (sent s') - rd_pos (reader s'))"
  by (rule reader_ok_reads [OF run [OF assms(1,2)]]) (simp add: assms(3) reader_ok_at)

end

section \<open>A subscription that follows the block stream\<close>

text \<open>
  The streamer and one subscription: \<open>fd_answers\<close> is, per block received, what the provider answers to the
  filter and how many receivers the events have.  The subscription holds a receiver of blocks, so
  the streamer finds at least one while it runs.  The block channel closes once the streamer's loop is over
  (and its object gone), which a receiver learns after the last message.
\<close>

record feed =
  fd_stream :: streamer_state
  fd_reader :: "block_notification reader"
  fd_subscription :: subscription_state
  fd_answers :: "(block_notification \<times> (log_filter \<Rightarrow> string + event_log list) \<times> nat) list"

definition feed_subscribed :: "streamer_state \<Rightarrow> feed" where
  "feed_subscribed s = \<lparr>fd_stream = s, fd_reader = reader_at (st_sent s),
     fd_subscription = \<lparr>su_sent = [], su_running = True\<rparr>, fd_answers = []\<rparr>"

definition feed_poll ::
    "chain_id \<Rightarrow> block_streamer_config \<Rightarrow> bool \<Rightarrow> poll_answers \<Rightarrow> bool \<Rightarrow> feed \<Rightarrow> feed" where
  "feed_poll chain_id config shutdown a shutdown_asleep f =
     f\<lparr>fd_stream := BlockStreamer_iteration chain_id config shutdown a shutdown_asleep (fd_stream f)\<rparr>"

definition feed_receive ::
    "chain_id \<Rightarrow> event_filter_config \<Rightarrow> block_notification receive \<Rightarrow> (log_filter \<Rightarrow> string + event_log list) \<Rightarrow>
     nat \<Rightarrow> feed \<Rightarrow> feed" where
  "feed_receive chain_id filter_config recv get_logs receivers f =
     (let (received, r) = receive_next recv (st_sent (fd_stream f)) (fd_reader f);
          f = f\<lparr>fd_reader := r\<rparr>;
          handle = (\<lambda>i. EventSubscription_iteration chain_id filter_config i (fd_subscription f))
      in case received of
           None \<Rightarrow> f
         | Some (Inl skipped) \<Rightarrow> f\<lparr>fd_subscription := handle (Recv_Lagged skipped)\<rparr>
         | Some (Inr block) \<Rightarrow> f\<lparr>fd_subscription := handle (Recv_Block block get_logs receivers),
             fd_answers := fd_answers f @ [(block, get_logs, receivers)]\<rparr>)"

inductive feed_step ::
    "chain_id \<Rightarrow> block_streamer_config \<Rightarrow> event_filter_config \<Rightarrow> block_notification receive \<Rightarrow> feed \<Rightarrow> feed \<Rightarrow> bool"
  for chain_id config filter_config recv where
  poll: "st_running (fd_stream f) \<Longrightarrow> (su_running (fd_subscription f) \<Longrightarrow> 0 < pa_receiver_count a) \<Longrightarrow>
    feed_step chain_id config filter_config recv f (feed_poll chain_id config shutdown a shutdown_asleep f)"
| receive: "su_running (fd_subscription f) \<Longrightarrow>
    feed_step chain_id config filter_config recv f (feed_receive chain_id filter_config recv get_logs receivers f)"
| closed: "su_running (fd_subscription f) \<Longrightarrow> \<not> st_running (fd_stream f) \<Longrightarrow>
    fst (recv (st_sent (fd_stream f)) (rd_pos (fd_reader f))) = None \<Longrightarrow>
    feed_step chain_id config filter_config recv f
      (f\<lparr>fd_subscription := EventSubscription_iteration chain_id filter_config Recv_Closed (fd_subscription f)\<rparr>)"
| shutdown: "su_running (fd_subscription f) \<Longrightarrow>
    feed_step chain_id config filter_config recv f
      (f\<lparr>fd_subscription := EventSubscription_iteration chain_id filter_config Recv_Shutdown (fd_subscription f)\<rparr>)"

lemma receive_split:
  obtains (none) p where "receive_next recv sent r = (None, r\<lparr>rd_pos := p\<rparr>)"
  | (skipped) k p where "receive_next recv sent r = (Some (Inl k), r\<lparr>rd_pos := p, rd_missed := rd_missed r + k\<rparr>)"
  | (got) m p where "receive_next recv sent r = (Some (Inr m), r\<lparr>rd_pos := p, rd_got := rd_got r @ [m]\<rparr>)"
proof -
  obtain x p where "recv sent (rd_pos r) = (x, p)" by (cases "recv sent (rd_pos r)")
  then show thesis
    using that by (cases x; cases "the x") (auto simp: receive_next_def)
qed

lemma feed_receive_parts:
  "fd_stream (feed_receive chain_id fc recv get_logs n f) = fd_stream f"
  "fd_reader (feed_receive chain_id fc recv get_logs n f) = snd (receive_next recv (st_sent (fd_stream f)) (fd_reader f))"
  by (cases rule: receive_split [of recv "st_sent (fd_stream f)" "fd_reader f"];
      simp add: feed_receive_def Let_def)+

interpretation feed: channel_reader "feed_step chain_id config filter_config"
    "\<lambda>f. st_sent (fd_stream f)" fd_reader for chain_id config filter_config
proof unfold_locales
  fix recv f f' assume "feed_step chain_id config filter_config recv f f'"
  then show "(\<exists>new. st_sent (fd_stream f') = st_sent (fd_stream f) @ new) \<and> fd_reader f' = fd_reader f
    \<or> st_sent (fd_stream f') = st_sent (fd_stream f)
      \<and> fd_reader f' = snd (receive_next recv (st_sent (fd_stream f)) (fd_reader f))"
  proof cases
    case (poll a shutdown shutdown_asleep)
    then show ?thesis
      by (cases rule: iteration_cases [of chain_id config shutdown a shutdown_asleep "fd_stream f"])
         (simp_all add: feed_poll_def)
  qed (simp_all add: feed_receive_parts)
qed

text \<open>The events of the blocks received, as the provider answered for each.\<close>

definition answered_events ::
    "chain_id \<Rightarrow> event_filter_config \<Rightarrow> block_notification \<times> (log_filter \<Rightarrow> string + event_log list) \<times> nat \<Rightarrow>
     chain_event list" where
  "answered_events chain_id filter_config = (\<lambda>(block, get_logs, receivers).
     if 0 < receivers then block_events chain_id filter_config get_logs (bn_block_number block) else [])"

definition feed_inv :: "chain_id \<Rightarrow> event_filter_config \<Rightarrow> feed \<Rightarrow> bool" where
  "feed_inv chain_id filter_config f \<longleftrightarrow> stream_inv (fd_stream f)
     \<and> map fst (fd_answers f) = rd_got (fd_reader f)
     \<and> su_sent (fd_subscription f) = concat (map (answered_events chain_id filter_config) (fd_answers f))"

lemma feed_inv_step:
  assumes "feed_step chain_id config filter_config recv f f'" "feed_inv chain_id filter_config f"
  shows "feed_inv chain_id filter_config f'"
  using assms(1)
proof cases
  case (poll a shutdown shutdown_asleep)
  from streamer_step.iteration [OF poll(2), of chain_id config shutdown a shutdown_asleep]
  show ?thesis using assms(2) stream.preserves by (simp add: feed_inv_def poll(1) feed_poll_def)
next
  case (receive get_logs receivers)
  show ?thesis
    using assms(2)
    by (cases rule: receive_split [of recv "st_sent (fd_stream f)" "fd_reader f"])
       (auto simp: feed_inv_def receive(1) feed_receive_def Let_def answered_events_def block_events_def
          fetch_and_broadcast_logs_def split: sum.split)
qed (use assms(2) in \<open>simp_all add: feed_inv_def\<close>)

lemma feed_inv_run:
  "(feed_step chain_id config filter_config recv)\<^sup>*\<^sup>* f f' \<Longrightarrow> feed_inv chain_id filter_config f \<Longrightarrow>
    feed_inv chain_id filter_config f'"
  by (induction rule: rtranclp_induct) (blast intro: feed_inv_step)+

text \<open>
  C21: From polls to events through a channel that overflows: whatever polls, receipts, lags and stops interleave, a
  subscription has broadcast exactly the events of the blocks it received, each fetched by a filter for
  that block alone; the blocks are among those notified since it subscribed, in their order and with
  increasing numbers; every notified block is received, reported as missed, or still ahead, and none is
  missed while no more were notified than the channel keeps.
\<close>

theorem feed_follows_stream:
  assumes "broadcast_contract cap recv" and "(streamer_step chain_id config)\<^sup>*\<^sup>* BlockStreamer_initial s"
    and "(feed_step chain_id config filter_config recv)\<^sup>*\<^sup>* (feed_subscribed s) f"
  shows "(let notified = drop (length (st_sent s)) (st_sent (fd_stream f));
              ahead = length (st_sent (fd_stream f)) - rd_pos (fd_reader f) in
      su_sent (fd_subscription f) = concat (map (answered_events chain_id filter_config) (fd_answers f))
      \<and> reads_along cap notified (fd_reader f) ahead
      \<and> map fst (fd_answers f) = rd_got (fd_reader f)
      \<and> sorted_wrt (<) (map bn_block_number notified)
      \<and> (\<forall>n. lf_from_block (EventFilterConfig_build_filter n n filter_config) = n
           \<and> lf_to_block (EventFilterConfig_build_filter n n filter_config) = n
           \<and> lf_address (EventFilterConfig_build_filter n n filter_config) = ef_addresses filter_config
           \<and> lf_event_signature (EventFilterConfig_build_filter n n filter_config) = ef_event_signatures filter_config))"
proof -
  have "stream_inv s" using stream.run [OF assms(2) stream_inv_initial] ..
  then have "feed_inv chain_id filter_config (feed_subscribed s)"
    by (simp add: feed_inv_def feed_subscribed_def reader_at_def)
  with feed_inv_run [OF assms(3)] have inv: "feed_inv chain_id filter_config f" by blast
  then have "sorted_wrt (<) (map bn_block_number (drop (length (st_sent s)) (st_sent (fd_stream f))))"
    by (simp add: feed_inv_def stream_inv_def sorted_wrt_drop flip: drop_map)
  moreover have "reads_along cap (drop (length (st_sent s)) (st_sent (fd_stream f))) (fd_reader f)
      (length (st_sent (fd_stream f)) - rd_pos (fd_reader f))"
    using feed.run_reads [OF assms(1,3)] by (simp add: feed_subscribed_def)
  ultimately show ?thesis
    using inv by (simp add: feed_inv_def Let_def EventFilterConfig_build_filter_def)
qed

text \<open>A ring that keeps the last \<open>cap\<close> messages is such a channel.\<close>

definition ring_receive :: "nat \<Rightarrow> 'm receive" where
  "ring_receive cap sent pos =
     (if length sent \<le> pos then (None, pos)
      else if cap < length sent - pos then (Some (Inl (length sent - cap - pos)), length sent - cap)
      else (Some (Inr (sent ! pos)), Suc pos))"

lemma ring_receive_contract: "broadcast_contract cap (ring_receive cap)"
  by (auto simp: broadcast_contract_def ring_receive_def)

text \<open>A subscription that is not scheduled between two polls, on a channel that keeps one block.\<close>

definition slow_feed :: feed where
  "slow_feed =
     (let receive = feed_receive Ethereum (EventFilterConfig_new 96 7) (ring_receive 1) sample_logs 1;
          poll = (\<lambda>n. feed_poll Ethereum BlockStreamerConfig_default False (sample_poll n) False)
      in receive (receive (poll 9 (poll 8 (feed_subscribed (stream_after [sample_poll 5]))))))"

lemma slow_feed_run:
  "(feed_step Ethereum BlockStreamerConfig_default (EventFilterConfig_new 96 7) (ring_receive 1))\<^sup>*\<^sup>*
     (feed_subscribed (stream_after [sample_poll 5])) slow_feed"
proof -
  let ?step = "feed_step Ethereum BlockStreamerConfig_default (EventFilterConfig_new 96 7) (ring_receive 1)"
  let ?poll = "\<lambda>n. feed_poll Ethereum BlockStreamerConfig_default False (sample_poll n) False"
  let ?receive = "feed_receive Ethereum (EventFilterConfig_new 96 7) (ring_receive 1) sample_logs 1"
  let ?f0 = "feed_subscribed (stream_after [sample_poll 5])"
  note defs = feed_subscribed_def feed_poll_def stream_after_def iterate_polls_def BlockStreamer_iteration_def
    poll_latest_block_def sample_poll_def BlockStreamer_initial_def feed_receive_def receive_next_def
    ring_receive_def reader_at_def
  have "?step ?f0 (?poll 8 ?f0)"
    by (rule feed_step.poll) (simp_all add: defs Let_def word_le_nat_alt)
  moreover have "?step (?poll 8 ?f0) (?poll 9 (?poll 8 ?f0))"
    by (rule feed_step.poll) (simp_all add: defs Let_def word_le_nat_alt)
  moreover have "?step (?poll 9 (?poll 8 ?f0)) (?receive (?poll 9 (?poll 8 ?f0)))"
    by (rule feed_step.receive) (simp_all add: defs Let_def word_le_nat_alt)
  moreover have "?step (?receive (?poll 9 (?poll 8 ?f0))) (?receive (?receive (?poll 9 (?poll 8 ?f0))))"
    by (rule feed_step.receive) (simp_all add: defs Let_def word_le_nat_alt)
  ultimately show ?thesis by (simp add: slow_feed_def Let_def)
qed

lemma slow_feed_answers:
  "map (bn_block_number \<circ> fst) (fd_answers slow_feed) = [9]
   \<and> map snd (fd_answers slow_feed) = [(sample_logs, 1)] \<and> rd_missed (fd_reader slow_feed) = 1"
  by (simp add: slow_feed_def feed_subscribed_def feed_poll_def stream_after_def iterate_polls_def
      BlockStreamer_iteration_def poll_latest_block_def sample_poll_def BlockStreamer_initial_def feed_receive_def
      receive_next_def ring_receive_def reader_at_def Let_def word_le_nat_alt)

theorem feed_follows_stream_witness:
  "map ce_block_number (su_sent (fd_subscription slow_feed)) = [9] \<and> rd_missed (fd_reader slow_feed) = 1"
proof -
  obtain b where answers: "fd_answers slow_feed = [(b, sample_logs, 1)]" "bn_block_number b = 9"
    using slow_feed_answers by (cases "fd_answers slow_feed") auto
  from feed_follows_stream [OF ring_receive_contract stream_after_run slow_feed_run]
  have "su_sent (fd_subscription slow_feed) =
      concat (map (answered_events Ethereum (EventFilterConfig_new 96 7)) (fd_answers slow_feed))"
    by (simp only: Let_def)
  then show ?thesis
    using slow_feed_answers answers
    by (simp add: answered_events_def block_events_def sample_logs_def logs_to_events_def transfer_log_def
        EventFilterConfig_build_filter_def EventFilterConfig_new_def Let_def)
qed

text \<open>The missed block 8 had an event, which the provider would still have answered.\<close>

lemma lagged_blocks_lose_events:
  "8 \<notin> set (map ce_block_number (su_sent (fd_subscription slow_feed)))
   \<and> 8 \<in> set (map bn_block_number (st_sent (fd_stream slow_feed)))
   \<and> EventSubscription_get_historical_logs sample_logs Ethereum (EventFilterConfig_new 96 7) 8 8
       = Inr (logs_to_events Ethereum [transfer_log 8])"
  by (simp add: slow_feed_def feed_subscribed_def feed_poll_def stream_after_def iterate_polls_def
      BlockStreamer_iteration_def poll_latest_block_def sample_poll_def BlockStreamer_initial_def feed_receive_def
      receive_next_def ring_receive_def reader_at_def Let_def word_le_nat_alt fetch_and_broadcast_logs_def
      sample_logs_def logs_to_events_def transfer_log_def EventFilterConfig_build_filter_def
      EventFilterConfig_new_def EventSubscription_get_historical_logs_def)

section \<open>A client of the event bus\<close>

text \<open>
  One socket in its loop: the bus it subscribed to, its receiver, and the inputs its loop has seen so far, whose
  messages are \<open>socket_loop\<close>'s.  \<open>to_json\<close> is the serializer, the flag of a receipt whether the client
  takes the message.  While the socket streams it holds a receiver, whatever the others do.  It also holds
  the bus, so its channel does not close.
\<close>

record client =
  cl_bus :: event_bus
  cl_reader :: "ws_event reader"
  cl_inputs :: "socket_input list"

definition client_open :: "client \<Rightarrow> bool" where
  "client_open c \<longleftrightarrow> \<not> snd (socket_loop (cl_inputs c))"

definition client_subscribed :: "event_bus \<Rightarrow> client" where
  "client_subscribed bus =
     \<lparr>cl_bus = EventBus_subscribe bus, cl_reader = reader_at (ev_sent bus), cl_inputs = []\<rparr>"

fun bus_input :: "(ws_event \<Rightarrow> string option) \<Rightarrow> bool \<Rightarrow> nat + ws_event \<Rightarrow> socket_input" where
  "bus_input to_json taken (Inl skipped) = Bus_Lagged skipped"
| "bus_input to_json taken (Inr event) = Bus_Event (to_json event) taken"

fun from_client :: "socket_input \<Rightarrow> bool" where
  "from_client (Bus_Event _ _) = False"
| "from_client (Bus_Lagged _) = False"
| "from_client Bus_Closed = False"
| "from_client _ = True"

definition client_receive ::
    "(ws_event \<Rightarrow> string option) \<Rightarrow> ws_event receive \<Rightarrow> bool \<Rightarrow> client \<Rightarrow> client" where
  "client_receive to_json recv taken c =
     (let (received, r) = receive_next recv (ev_sent (cl_bus c)) (cl_reader c)
      in c\<lparr>cl_reader := r, cl_inputs := cl_inputs c @
           (case received of None \<Rightarrow> [] | Some x \<Rightarrow> [bus_input to_json taken x])\<rparr>)"

inductive client_step :: "(ws_event \<Rightarrow> string option) \<Rightarrow> ws_event receive \<Rightarrow> client \<Rightarrow> client \<Rightarrow> bool"
  for to_json recv where
  publish: "client_step to_json recv c (c\<lparr>cl_bus := fst (EventBus_publish event (cl_bus c))\<rparr>)"
| others: "(client_open c \<Longrightarrow> 0 < n) \<Longrightarrow>
    client_step to_json recv c (c\<lparr>cl_bus := (cl_bus c)\<lparr>ev_receivers := n, ev_connected_clients := k\<rparr>\<rparr>)"
| receive: "client_open c \<Longrightarrow> client_step to_json recv c (client_receive to_json recv taken c)"
| message: "client_open c \<Longrightarrow> from_client i \<Longrightarrow> client_step to_json recv c (c\<lparr>cl_inputs := cl_inputs c @ [i]\<rparr>)"

lemma client_receive_parts:
  "cl_bus (client_receive to_json recv taken c) = cl_bus c"
  "cl_reader (client_receive to_json recv taken c) = snd (receive_next recv (ev_sent (cl_bus c)) (cl_reader c))"
  by (simp_all add: client_receive_def split: prod.split)

interpretation client: channel_reader "client_step to_json" "\<lambda>c. ev_sent (cl_bus c)" cl_reader for to_json
proof unfold_locales
  fix recv c c' assume "client_step to_json recv c c'"
  then show "(\<exists>new. ev_sent (cl_bus c') = ev_sent (cl_bus c) @ new) \<and> cl_reader c' = cl_reader c
    \<or> ev_sent (cl_bus c') = ev_sent (cl_bus c)
      \<and> cl_reader c' = snd (receive_next recv (ev_sent (cl_bus c)) (cl_reader c))"
    by cases (simp_all add: client_receive_parts EventBus_publish_def)
qed

text \<open>The texts a client was sent, and those that the events it received serialize to.\<close>

fun text_of :: "socket_output \<Rightarrow> string list" where
  "text_of (Text_Message json) = [json]"
| "text_of (Pong_Message _) = []"

definition texts :: "client \<Rightarrow> string list" where
  "texts c = concat (map text_of (fst (socket_loop (cl_inputs c))))"

definition json_texts :: "(ws_event \<Rightarrow> string option) \<Rightarrow> ws_event list \<Rightarrow> string list" where
  "json_texts to_json events = List.map_filter to_json events"

definition client_inv :: "(ws_event \<Rightarrow> string option) \<Rightarrow> client \<Rightarrow> bool" where
  "client_inv to_json c \<longleftrightarrow> prefix (texts c) (json_texts to_json (rd_got (cl_reader c)))
     \<and> (client_open c \<longrightarrow> texts c = json_texts to_json (rd_got (cl_reader c)) \<and> 0 < ev_receivers (cl_bus c))"

lemma socket_loop_snoc:
  "socket_loop (is @ [i]) = (if snd (socket_loop is) then socket_loop is
     else (fst (socket_loop is) @ (if stream_ends i then [] else stream_sends i), stream_ends i))"
  by (induction "is") (simp_all add: socket_loop_step del: socket_loop.simps(2))

lemma client_input:
  assumes "client_open c"
  shows "texts (c\<lparr>cl_inputs := cl_inputs c @ [i]\<rparr>) = texts c @ (if stream_ends i then [] else concat (map text_of (stream_sends i)))"
    and "client_open (c\<lparr>cl_inputs := cl_inputs c @ [i]\<rparr>) \<longleftrightarrow> \<not> stream_ends i"
  using assms by (simp_all add: texts_def client_open_def socket_loop_snoc)

lemma client_receive_got:
  assumes "receive_next recv (ev_sent (cl_bus c)) (cl_reader c) = (Some x, r)"
  shows "client_receive to_json recv taken c = c\<lparr>cl_inputs := cl_inputs c @ [bus_input to_json taken x]\<rparr>\<lparr>cl_reader := r\<rparr>"
  using assms by (simp add: client_receive_def)

lemma client_reader_only [simp]:
  "texts (c\<lparr>cl_reader := r\<rparr>) = texts c" "client_open (c\<lparr>cl_reader := r\<rparr>) \<longleftrightarrow> client_open c"
  "texts (c\<lparr>cl_bus := b\<rparr>) = texts c" "client_open (c\<lparr>cl_bus := b\<rparr>) \<longleftrightarrow> client_open c"
  by (simp_all add: texts_def client_open_def)

lemma json_texts_snoc: "json_texts to_json (es @ [e]) =
    json_texts to_json es @ (case to_json e of None \<Rightarrow> [] | Some json \<Rightarrow> [json])"
  by (simp add: json_texts_def map_filter_def split: option.split)

lemma from_client_texts: "from_client i \<Longrightarrow> concat (map text_of (stream_sends i)) = []"
  by (cases i) simp_all

lemma client_inv_step:
  assumes "client_step to_json recv c c'" "client_inv to_json c"
  shows "client_inv to_json c'"
  using assms(1)
proof cases
  case (receive taken)
  then have open_c: "client_open c" by simp
  with assms(2) have inv: "texts c = json_texts to_json (rd_got (cl_reader c))" "0 < ev_receivers (cl_bus c)"
    by (simp_all add: client_inv_def)
  show ?thesis
  proof (cases rule: receive_split [of recv "ev_sent (cl_bus c)" "cl_reader c"])
    case (none p)
    then show ?thesis using inv by (simp add: receive(1) client_inv_def client_receive_def texts_def client_open_def)
  next
    case (skipped k p)
    show ?thesis
      using inv open_c by (simp add: receive(1) client_receive_got [OF skipped] client_inv_def client_input)
  next
    case (got m p)
    show ?thesis
      using inv open_c
      by (cases "to_json m")
         (simp_all add: receive(1) client_receive_got [OF got] client_inv_def client_input json_texts_snoc)
  qed
next
  case (message i)
  then show ?thesis
    using assms(2) by (simp add: client_inv_def client_input from_client_texts)
qed (use assms(2) in \<open>auto simp: client_inv_def EventBus_publish_def\<close>)

lemma client_inv_run:
  "(client_step to_json recv)\<^sup>*\<^sup>* c c' \<Longrightarrow> client_inv to_json c \<Longrightarrow> client_inv to_json c'"
  by (induction rule: rtranclp_induct) (blast intro: client_inv_step)+

text \<open>
  C38: What a WebSocket client gets, whatever events, other clients, messages of the client and lags
  interleave: the texts are the serialized events it received, in order, all of them while the socket
  is open; these are a subsequence of the events published since it subscribed, each of which is
  received, reported as missed, or still ahead; none is missed while no more than the capacity
  were published, and while the socket is open every event published is kept for it.
\<close>

theorem client_gets_published_events:
  assumes "broadcast_contract cap recv" and "(client_step to_json recv)\<^sup>*\<^sup>* (client_subscribed bus) c"
  shows "(let published = drop (length (ev_sent bus)) (ev_sent (cl_bus c));
              ahead = length (ev_sent (cl_bus c)) - rd_pos (cl_reader c);
              received = json_texts to_json (rd_got (cl_reader c)) in
      prefix (texts c) received
      \<and> reads_along cap published (cl_reader c) ahead
      \<and> (client_open c \<longrightarrow> texts c = received
          \<and> ev_sent (fst (EventBus_publish event (cl_bus c))) = ev_sent (cl_bus c) @ [event]))"
proof -
  have "client_inv to_json (client_subscribed bus)"
    by (simp add: client_inv_def client_subscribed_def client_open_def texts_def reader_at_def json_texts_def
        map_filter_def EventBus_subscribe_def)
  with client_inv_run [OF assms(2)] have "client_inv to_json c" by blast
  moreover have "reads_along cap (drop (length (ev_sent bus)) (ev_sent (cl_bus c))) (cl_reader c)
      (length (ev_sent (cl_bus c)) - rd_pos (cl_reader c))"
    using client.run_reads [OF assms] by (simp add: client_subscribed_def EventBus_subscribe_def)
  ultimately show ?thesis
    by (auto simp: client_inv_def Let_def EventBus_publish_def)
qed

text \<open>A client that takes no part in two publications on a bus that keeps one event, then gets the second.\<close>

definition heartbeat_json :: "ws_event \<Rightarrow> string option" where
  "heartbeat_json e = (case e of Heartbeat uptime _ \<Rightarrow> Some (if uptime = 1 then ''first'' else ''later'') | _ \<Rightarrow> None)"

definition late_client :: client where
  "late_client =
     (let receive = client_receive heartbeat_json (ring_receive 1) True;
          publish = (\<lambda>e c. c\<lparr>cl_bus := fst (EventBus_publish e (cl_bus c))\<rparr>)
      in receive (receive (publish (Heartbeat 2 1) (publish (Heartbeat 1 1)
           (client_subscribed EventBus_with_defaults)))))"

lemmas late_client_defs = client_receive_def client_subscribed_def EventBus_publish_def EventBus_with_defaults_def
  EventBus_new_def EventBus_subscribe_def receive_next_def ring_receive_def reader_at_def client_open_def

lemma late_client_run:
  "(client_step heartbeat_json (ring_receive 1))\<^sup>*\<^sup>* (client_subscribed EventBus_with_defaults) late_client"
proof -
  let ?step = "client_step heartbeat_json (ring_receive 1)"
  let ?publish = "\<lambda>e c. c\<lparr>cl_bus := fst (EventBus_publish e (cl_bus c))\<rparr>"
  let ?receive = "client_receive heartbeat_json (ring_receive 1) True"
  let ?c0 = "client_subscribed EventBus_with_defaults"
  let ?c2 = "?publish (Heartbeat 2 1) (?publish (Heartbeat 1 1) ?c0)"
  have "?step ?c0 (?publish (Heartbeat 1 1) ?c0)" "?step (?publish (Heartbeat 1 1) ?c0) ?c2"
    by (rule client_step.publish)+
  moreover have "?step ?c2 (?receive ?c2)"
    by (rule client_step.receive) (simp add: late_client_defs)
  moreover have "?step (?receive ?c2) (?receive (?receive ?c2))"
    by (rule client_step.receive) (simp add: late_client_defs)
  ultimately show ?thesis by (simp add: late_client_def Let_def)
qed

theorem client_gets_published_events_witness:
  "texts late_client = [''later''] \<and> rd_missed (cl_reader late_client) = 1"
proof -
  have "client_open late_client" "rd_got (cl_reader late_client) = [Heartbeat 2 1]"
      "rd_missed (cl_reader late_client) = 1"
    by (simp_all add: late_client_def Let_def late_client_defs heartbeat_json_def)
  then show ?thesis
    using client_gets_published_events [OF ring_receive_contract late_client_run]
    by (simp add: Let_def json_texts_def map_filter_def heartbeat_json_def)
qed

end
