(* ===== verification/Spec2Isabelle.thy ===== *)
theory Spec2Isabelle
  imports Order_Book Nonce_Manager Confirmation Retry Risk Pnl Pnl_Concurrent Balance Health Aggregator Gas Pipeline
    Simulation Reactor_Monitor Builder Wallet Relay Service
    Price_Sources Provider Startup Fill_Flow Order_Flow Error_Text Order_Tasks Capped_Tasks Channel_Lag
begin

text \<open>
  Phantom Filler is a Rust workspace (\<open>src/crates\<close>) for filling Dutch auction orders on EVM chains.
  This development models the crates function by function and proves what each component promises.

  \<^bold>\<open>The program.\<close>  \<open>phantom-chain\<close> connects to chains: a provider per chain, polling loops for blocks
  and for the pending block, and event subscriptions that follow the block stream.
  \<open>phantom-discovery\<close> decodes and validates orders and keeps them in the order book.
  \<open>phantom-pricing\<close> quotes prices from DEX contracts, aggregates them without outliers behind a cache,
  and estimates gas.  \<open>phantom-strategy\<close> evaluates an order with the enabled strategies and selects
  the best fill.  \<open>phantom-execution\<close> assigns nonces, builds and signs transactions, and sends them to
  relays.  \<open>phantom-settlement\<close> follows a transaction to its final status and decides on retries.
  \<open>phantom-inventory\<close> keeps balances, limits risk and accounts for results.  \<open>phantom-metrics\<close> and
  \<open>phantom-api\<close> observe, \<open>phantom-common\<close> holds the shared types, and \<open>phantom-filler\<close> is the binary,
  which starts metrics, logging and the API over fresh components.  The components call each
  other through parameters; only the binary and the integration tests put them together.

  \<^bold>\<open>Conventions.\<close>  A struct is a record whose fields carry a prefix of their struct, an enum a
  datatype, a method \<open>T::f\<close> the definition \<open>T_f\<close>.  A method that changes its object returns the
  new object, with its result second.  A fallible method returns \<open>error + value\<close>.  Unsigned integers
  are words of their width, signed ones integers with their wrap-around or saturation written out;
  \<open>usize\<close> lengths and limits are natural numbers.  Primitive arithmetic wraps, as in the release
  profile; \<open>U256\<close> and atomics wrap in every profile.  Clocks, RPC answers, HTTP answers, parsers,
  signers and generated ABI code are arguments; a time-out or a panicking task is \<open>None\<close>.  A method of
  a strategy, a price source or a relay is a function-valued field of its record.
  An error text is its format string with its arguments (\<open>message\<close>), rendered where the text itself
  is read; \<open>f64\<close> is binary64 with
  rounding to nearest even (\<open>Float64\<close>).

  \<^bold>\<open>The theories.\<close>
  \<^item> \<open>Prelude\<close>: machine integers, messages, time, decimal and lower-case text, list facts; the fact
    collections \<open>unat_simps\<close> and \<open>wf_intros\<close>.
  \<^item> \<open>Dash_Map\<close>: the concurrent map as the locale \<open>dash_map\<close> with its size and collect-then-remove laws,
    interpreted by entries with distinct keys; the iteration order is left open.  Also the locales
    \<open>lifecycle\<close> (a status that moves only along given transitions) and \<open>capped_store\<close> (a size that
    never grows past its limit).
  \<^item> \<open>Types\<close> (\<open>phantom-common/src/types\<close>, \<open>error.rs\<close>): chains, tokens, orders, the decay of the
    required output, errors.  \<open>Config\<close> (\<open>config.rs\<close>): defaults, validation, overrides.
  \<^item> \<open>Provider\<close>, \<open>Block_Stream\<close>, \<open>Mempool\<close>, \<open>Service\<close> (\<open>phantom-chain\<close>): the provider manager; the
    polling loops as step relations of one iteration, with the locale \<open>broadcaster\<close>; the objects
    around them, their tasks, receivers and shutdown flag, with the locale \<open>stoppable\<close>.
  \<^item> \<open>Order_Book\<close>, \<open>Reactor_Monitor\<close> (\<open>phantom-discovery\<close>); \<open>Order_Tasks\<close> lets tasks work on the
    book concurrently.
  \<^item> \<open>Ttl_Cache\<close> (a locale for caches with an age limit), \<open>Aggregator\<close>, \<open>Gas\<close>, \<open>Price_Sources\<close>
    (\<open>phantom-pricing\<close>; \<open>sources.rs\<close>, \<open>tokens.rs\<close> and \<open>dex_abi.rs\<close> in the last, with the
    locale \<open>chain_bound\<close> for a source that answers for its own chain only).
  \<^item> \<open>Strategy\<close> (traits and registry, locale \<open>fill_strategies\<close>), \<open>Arb\<close>, \<open>Pipeline\<close>, \<open>Simulation\<close>
    (\<open>phantom-strategy\<close>).
  \<^item> \<open>Nonce_Manager\<close>, \<open>Builder\<close>, \<open>Wallet\<close>, \<open>Relay\<close> (\<open>phantom-execution\<close>).
  \<^item> \<open>Confirmation\<close>, \<open>Float64\<close>, \<open>Retry\<close> (\<open>phantom-settlement\<close>).
    \<open>Error_Text\<close> renders messages and the \<open>Display\<close> texts of \<open>phantom-common\<close> and composes relay,
    error texts and retry decision.
  \<^item> \<open>Risk\<close>, \<open>Pnl\<close>, \<open>Balance\<close> (\<open>phantom-inventory\<close>); \<open>Pnl_Concurrent\<close> splits the recording
    of a fill into its atomic steps; \<open>Fill_Flow\<close> composes the first two as the integration tests do.
  \<^item> \<open>Capped_Tasks\<close>: the locale \<open>limited_store\<close> for maps whose limit is checked before a separate
    insertion, interpreted by wallets, balances and tracked transactions.
  \<^item> \<open>Channel_Lag\<close>: the readers of the broadcast channels with their lag, an event subscription behind
    the block streamer and a client of the event bus, as interpretations of the locale \<open>channel_reader\<close>.
  \<^item> \<open>Order_Flow\<close>: discovery, order book and pipeline composed, from the bytes of an order to the
    decision to fill it.
  \<^item> \<open>Health\<close>, \<open>Logging\<close>, \<open>Metrics\<close> (\<open>phantom-metrics\<close>); \<open>Api\<close>, \<open>Server\<close> (\<open>phantom-api\<close>);
    \<open>Startup\<close> (\<open>phantom-filler/src/main.rs\<close>).

  \<^bold>\<open>What the lemmas show.\<close>  Per component: the state invariant every operation keeps; the result
  of every operation on every branch; and the behaviour of runs, by rule induction on a step relation
  of the component's operations.  In particular:
  \<^item> decay: exact interpolation inside the window, bounds and monotonicity; decoded and validated
    orders are within those bounds;
  \<^item> order book and confirmation monitor: an entry moves only along its life cycle, final statuses
    stay, under interleaved tasks too, and every status is justified by the receipts seen;
  \<^item> nonces: under any interleaving of concurrent tasks no nonce is handed out twice;
  \<^item> discovery to decision: a fill selected for an active entry of the book accounts for the encoded
    input and requires an output within the encoded bounds;
  \<^item> risk and results: the counters refine the history of events, the running total is the sum of
    the confirmed results, and the loss of a day is bounded by the limit and the fills under way;
    fills recorded concurrently are all counted and listed, per day and per token;
  \<^item> pricing: an aggregate lies within the outlier band of enabled sources of the requested chain and
    is served only within its time to live; a fill priced by the oracle builds within the caps;
  \<^item> strategies: the selected fill is the best qualifying one and is profitable after cost and gas;
  \<^item> loops: whatever calls interleave, blocks are notified in increasing order, a pending transaction is
    notified once and a stopped service is quiet; subscriptions and WebSocket clients get what was sent, in
    order, up to what they are told they missed; failing providers are
    retried with bounded backoff;
  \<^item> the circuit breaker refines a three-state machine; relays are called a bounded number of times
    and a failed call is retried on what the relay said;
  \<^item> startup: the running program has a valid file's configuration with the overrides applied, its API
    and exporter bound as configured, and fresh, ready components.

  \<^bold>\<open>Assumptions and bounds.\<close>  Hypotheses of theorems are bounds on counters (fewer than \<open>2^64\<close>
  records, sums within 64 bits), a configuration within them, or a calendar that knows the dates
  involved; each has a witness.  Nothing is assumed of an external answer but its type, except
  that a broadcast channel behaves as tokio documents it (\<open>broadcast_contract\<close>, shown for a ring).  Loops over
  attempts, tiers, entries and sequence numbers are structural recursions; polling loops run
  forever and are step relations.  Concurrency is modelled where the code is not atomic and it
  matters: nonce assignment, order insertion and clean-up, limits of registries, budget slots of retries, risk checks, the recording of
  fills, breaker trips, the tasks of the polling services and the sockets of the event bus; elsewhere
  an operation is one step.

  \<^bold>\<open>Where the code falls short\<close> a lemma shows it, next to the theorem whose hypothesis excludes it:
  wrapping products in the decay and the gas estimate, races between a check and its update (limits that are overshot by concurrent tasks, mismatched
  provider and configuration), a retry
  budget that is overshot, lost blocks and logs, services that are started twice or cannot be started
  again, overrides that escape validation, readiness of components nobody starts.

  \<^bold>\<open>Not modelled.\<close>  Log lines and the banner; serialization; rendering, HTTP serving and request matching (\<open>axum\<close>), the recorders of metrics and logs; the
  traits of \<open>traits.rs\<close> and the call interfaces of \<open>abi.rs\<close> without a caller; tests and benches;
  the Solidity contracts, SQL migrations and deployment files, which are not Rust.
\<close>

end
